(* ===== verification/Prelude.thy ===== *)
theory Prelude
  imports Complex_Main "HOL-Library.AList" "HOL-Library.Sublist"
begin

text \<open>
  The vocabulary every component shares.

  \<^item> A Python \<open>dict\<close> is an association list: \<^const>\<open>map_of\<close> reads it and
    \<^const>\<open>AList.update\<close> writes it, keeping the place of a key that is there already and
    appending a new one, which is the insertion order Python guarantees. \<open>pop\<close> is
    \<^const>\<open>AList.delete\<close>.
  \<^item> A call that may raise returns a sum: \<^const>\<open>Inl\<close> the exception, \<^const>\<open>Inr\<close> the value.
  \<^item> Times and durations, floats in the source, are exact rationals.
  \<^item> A component with steps is a transition system: \<open>reach\<close> is the set of states its
    steps lead to, and the locale \<open>invariant\<close> is the rule that an inductive property
    holds in all of them.
\<close>

named_theorems dict_simps \<open>lookups and keys of dictionaries\<close>
named_theorems pystr_simps \<open>Python string operations\<close>
named_theorems inv_intros \<open>steps that keep an invariant\<close>

type_synonym ('k, 'v) dict = "('k \<times> 'v) list"
type_synonym seconds = rat

section \<open>Dictionaries\<close>

definition dict_keys :: "('k, 'v) dict \<Rightarrow> 'k list" where
  "dict_keys d = map fst d"

definition dict_get :: "('k, 'v) dict \<Rightarrow> 'k \<Rightarrow> 'v \<Rightarrow> 'v" where
  "dict_get d k v = (case map_of d k of None \<Rightarrow> v | Some x \<Rightarrow> x)"

lemma map_of_update [dict_simps, simp]: "map_of (AList.update k v d) k' = ((map_of d)(k \<mapsto> v)) k'"
  by (simp add: update_conv)

lemma map_of_delete [dict_simps, simp]: "map_of (AList.delete k d) k' = ((map_of d)(k := None)) k'"
  by (simp add: delete_conv)

lemma dict_get_update [dict_simps]:
  "dict_get (AList.update k v d) k' x = (if k' = k then v else dict_get d k' x)"
  by (simp add: dict_get_def)

lemma dict_keys_update [dict_simps]:
  "dict_keys (AList.update k v d) = (if k \<in> set (dict_keys d) then dict_keys d else dict_keys d @ [k])"
  by (induction d) (auto simp: dict_keys_def)

lemma dict_keys_Nil [simp]: "dict_keys [] = []"
  by (simp add: dict_keys_def)

lemma set_dict_keys: "set (dict_keys d) = dom (map_of d)"
  by (simp add: dict_keys_def dom_map_of_conv_image_fst)

lemma distinct_keys_update [dict_simps]:
  "distinct (dict_keys d) \<Longrightarrow> distinct (dict_keys (AList.update k v d))"
  by (simp add: dict_keys_update)

lemma distinct_keys_delete [dict_simps]:
  "distinct (dict_keys d) \<Longrightarrow> distinct (dict_keys (AList.delete k d))"
  by (simp add: dict_keys_def distinct_delete)

lemma in_set_dict:
  "distinct (dict_keys d) \<Longrightarrow> (k, v) \<in> set d \<longleftrightarrow> map_of d k = Some v"
  by (simp add: dict_keys_def)

text \<open>Writing a value under every key of a list, as a loop of assignments does.\<close>

definition dict_set_all :: "'k list \<Rightarrow> 'v \<Rightarrow> ('k, 'v) dict \<Rightarrow> ('k, 'v) dict" where
  "dict_set_all ks v d = fold (\<lambda>k. AList.update k v) ks d"

definition dict_pop_all :: "'k list \<Rightarrow> ('k, 'v) dict \<Rightarrow> ('k, 'v) dict" where
  "dict_pop_all ks d = fold AList.delete ks d"

lemma map_of_set_all [dict_simps]:
  "map_of (dict_set_all ks v d) k = (if k \<in> set ks then Some v else map_of d k)"
  unfolding dict_set_all_def by (induction ks arbitrary: d) auto

lemma map_of_pop_all [dict_simps]:
  "map_of (dict_pop_all ks d) k = (if k \<in> set ks then None else map_of d k)"
  unfolding dict_pop_all_def by (induction ks arbitrary: d) auto

text \<open>The entries of a dictionary of optional values that have one.\<close>

definition present :: "('k \<times> 'v option) list \<Rightarrow> ('k, 'v) dict" where
  "present xs = concat (map (\<lambda>(k, v). case v of None \<Rightarrow> [] | Some x \<Rightarrow> [(k, x)]) xs)"

lemma present_simps [simp]:
  "present [] = []"
  "present ((k, None) # xs) = present xs"
  "present ((k, Some v) # xs) = (k, v) # present xs"
  by (simp_all add: present_def)

lemma map_of_present_notin: "k \<notin> fst ` set xs \<Longrightarrow> map_of (present xs) k = None"
  by (induction xs) (auto simp: present_def split: option.splits)

lemma map_of_present [dict_simps]:
  "distinct (map fst xs) \<Longrightarrow>
     map_of (present xs) k = (case map_of xs k of None \<Rightarrow> None | Some v \<Rightarrow> v)"
proof (induction xs)
  case (Cons x xs)
  obtain k' v where x: "x = (k', v)" by force
  with Cons map_of_present_notin [of k' xs] show ?case by (cases v) auto
qed simp

section \<open>Results\<close>

definition ok :: "'e + 'a \<Rightarrow> bool" where
  "ok r = (case r of Inl _ \<Rightarrow> False | Inr _ \<Rightarrow> True)"

lemma ok_simps [simp]: "\<not> ok (Inl e)" "ok (Inr x)"
  by (simp_all add: ok_def)

definition and_then :: "'e + 'a \<Rightarrow> ('a \<Rightarrow> 'e + 'b) \<Rightarrow> 'e + 'b" where
  "and_then r f = (case r of Inl e \<Rightarrow> Inl e | Inr x \<Rightarrow> f x)"

lemma and_then_simps [simp]: "and_then (Inl e) f = Inl e" "and_then (Inr x) f = f x"
  by (simp_all add: and_then_def)

lemma and_then_Inr: "and_then r f = Inr y \<longleftrightarrow> (\<exists>x. r = Inr x \<and> f x = Inr y)"
  by (cases r) auto

text \<open>A loop whose body may raise: the first exception ends it.\<close>

fun map_result :: "('a \<Rightarrow> 'e + 'b) \<Rightarrow> 'a list \<Rightarrow> 'e + 'b list" where
  "map_result f [] = Inr []"
| "map_result f (x # xs) = and_then (f x) (\<lambda>y. and_then (map_result f xs) (\<lambda>ys. Inr (y # ys)))"

lemma map_result_Inr:
  "map_result f xs = Inr ys \<Longrightarrow> list_all2 (\<lambda>x y. f x = Inr y) xs ys"
  by (induction xs arbitrary: ys) (auto simp: and_then_Inr)

lemma map_result_total: "(\<And>x. x \<in> set xs \<Longrightarrow> f x = Inr (g x)) \<Longrightarrow> map_result f xs = Inr (map g xs)"
  by (induction xs) auto

section \<open>Transition systems\<close>

inductive reach :: "('s \<Rightarrow> bool) \<Rightarrow> ('s \<Rightarrow> 's \<Rightarrow> bool) \<Rightarrow> 's \<Rightarrow> bool"
  for start :: "'s \<Rightarrow> bool" and next_step :: "'s \<Rightarrow> 's \<Rightarrow> bool" where
  reach_start: "start s \<Longrightarrow> reach start next_step s"
| reach_step: "reach start next_step s \<Longrightarrow> next_step s t \<Longrightarrow> reach start next_step t"

text \<open>
  The contract a component's state machine offers its clients: \<open>good\<close> holds at the start
  and no step loses it.
\<close>

locale invariant =
  fixes start :: "'s \<Rightarrow> bool"
    and next_step :: "'s \<Rightarrow> 's \<Rightarrow> bool"
    and good :: "'s \<Rightarrow> bool"
  assumes start_good: "start s \<Longrightarrow> good s"
    and step_good: "next_step s t \<Longrightarrow> good s \<Longrightarrow> good t"
begin

lemma reach_good: "reach start next_step s \<Longrightarrow> good s"
  by (induction rule: reach.induct) (auto intro: start_good step_good)

lemma reach_weaken: "reach start next_step s \<Longrightarrow> (\<And>t. good t \<Longrightarrow> P t) \<Longrightarrow> P s"
  by (blast dest: reach_good)

lemma steps_good: "next_step\<^sup>*\<^sup>* s t \<Longrightarrow> good s \<Longrightarrow> good t"
  by (induction rule: rtranclp_induct) (auto intro: step_good)

end

text \<open>
  A machine whose steps use something up: a natural number bounds how many there can be.
\<close>

locale bounded_machine = invariant +
  fixes fuel_left :: "'s \<Rightarrow> nat"
  assumes step_burns: "next_step s t \<Longrightarrow> good s \<Longrightarrow> fuel_left t < fuel_left s"
begin

lemma relpow_burns:
  "(next_step ^^ n) s t \<Longrightarrow> good s \<Longrightarrow> n + fuel_left t \<le> fuel_left s"
proof (induction n arbitrary: t)
  case 0
  then show ?case by simp
next
  case (Suc n)
  from Suc.prems(1) obtain u where u: "(next_step ^^ n) s u" and ut: "next_step u t"
    by auto
  from u have "good u" using Suc.prems(2) steps_good by (meson relpowp_imp_rtranclp)
  with ut have "fuel_left t < fuel_left u" by (rule step_burns)
  moreover have "n + fuel_left u \<le> fuel_left s" using Suc.IH [OF u Suc.prems(2)] .
  ultimately show ?case by simp
qed

lemma steps_bounded: "(next_step ^^ n) s t \<Longrightarrow> good s \<Longrightarrow> n \<le> fuel_left s"
  by (drule (1) relpow_burns) simp

end

text \<open>
  The contract between a part that writes and one that reads: what is written of something \<open>fine\<close> is read for
  what it means. Then no two such things are written alike.
\<close>

locale round_trip =
  fixes writes :: "'a \<Rightarrow> 'w"
    and reads :: "'w \<Rightarrow> 'r"
    and meaning :: "'a \<Rightarrow> 'r"
    and fine :: "'a \<Rightarrow> bool"
  assumes reads_writes: "fine x \<Longrightarrow> reads (writes x) = meaning x"
    and meaning_inj: "meaning x = meaning y \<Longrightarrow> x = y"
begin

lemma reads_iff: "fine x \<Longrightarrow> reads (writes x) = meaning y \<longleftrightarrow> x = y"
  by (auto simp: reads_writes dest: meaning_inj)

lemma writes_inj: "fine x \<Longrightarrow> fine y \<Longrightarrow> writes x = writes y \<Longrightarrow> x = y"
  by (metis reads_writes meaning_inj)

lemma writes_apart: "inj_on writes {x. fine x}"
  by (rule inj_onI) (simp add: writes_inj)

end

section \<open>Lists\<close>

lemma filter_map_comp: "filter P (map f xs) = map f (filter (\<lambda>x. P (f x)) xs)"
  by (simp add: filter_map comp_def)

lemma fold_append_acc: "fold (\<lambda>x acc. acc @ f x) xs acc = acc @ concat (map f xs)"
  by (induction xs arbitrary: acc) auto

lemma fold_keeps: "P s \<Longrightarrow> (\<And>x s. x \<in> set xs \<Longrightarrow> P s \<Longrightarrow> P (f x s)) \<Longrightarrow> P (fold f xs s)"
  by (induction xs arbitrary: s) auto

definition last_n :: "nat \<Rightarrow> 'a list \<Rightarrow> 'a list" where
  "last_n n xs = drop (length xs - n) xs"

lemma length_last_n [simp]: "length (last_n n xs) = min n (length xs)"
  by (simp add: last_n_def)

lemma suffix_last_n: "suffix (last_n n xs) xs"
  by (simp add: last_n_def suffix_drop)

end
