(* ===== verification/Py_Strings.thy ===== *)
theory Py_Strings
  imports Prelude
begin

text \<open>
  The methods of Python's \<open>str\<close> (and \<open>bytes\<close>) the program uses, as functions on
  \<^typ>\<open>string\<close>. A \<^typ>\<open>char\<close> stands for a code point below 256, or for one byte of a
  \<open>bytes\<close> value. Splitting and joining are polymorphic, so they serve both.
\<close>

section \<open>Splitting and joining\<close>

text \<open>\<open>s.split(c)\<close> for a separator of one character: never empty.\<close>

fun split_on :: "'a \<Rightarrow> 'a list \<Rightarrow> 'a list list" where
  "split_on c [] = [[]]"
| "split_on c (x # xs) =
     (if x = c then [] # split_on c xs
      else (case split_on c xs of [] \<Rightarrow> [[x]] | y # ys \<Rightarrow> (x # y) # ys))"

fun join :: "'a list \<Rightarrow> 'a list list \<Rightarrow> 'a list" where
  "join sep [] = []"
| "join sep [x] = x"
| "join sep (x # y # ys) = x @ sep @ join sep (y # ys)"

lemma split_on_nonempty [simp]: "split_on c s \<noteq> []"
  by (cases s) (auto split: list.splits)

lemma split_on_no_sep: "c \<notin> set s \<Longrightarrow> split_on c s = [s]"
  by (induction s) auto

lemma split_on_append: "split_on c (xs @ c # ys) = split_on c xs @ split_on c ys"
  by (induction xs) (auto split: list.splits)

lemma split_on_append_field:
  "c \<notin> set x \<Longrightarrow> split_on c (x @ c # s) = x # split_on c s"
  by (simp add: split_on_append split_on_no_sep)

lemma join_Cons: "ys \<noteq> [] \<Longrightarrow> join sep (x # ys) = x @ sep @ join sep ys"
  by (cases ys) auto

lemma join_split_on [pystr_simps]: "join [c] (split_on c s) = s"
proof (induction s)
  case Nil
  then show ?case by simp
next
  case (Cons x s)
  obtain y ys where s: "split_on c s = y # ys"
    by (meson neq_Nil_conv split_on_nonempty)
  with Cons.IH have "join [c] (y # ys) = s" by simp
  then show ?case using s by (cases ys) auto
qed

lemma split_on_join [pystr_simps]:
  "xs \<noteq> [] \<Longrightarrow> \<forall>x\<in>set xs. c \<notin> set x \<Longrightarrow> split_on c (join [c] xs) = xs"
proof (induction xs rule: induct_list012)
  case (3 x y zs)
  then show ?case by (simp add: split_on_append_field)
qed (auto simp: split_on_no_sep)

lemma split_on_fields: "x \<in> set (split_on c s) \<Longrightarrow> c \<notin> set x"
proof (induction s arbitrary: x)
  case Nil
  then show ?case by simp
next
  case (Cons a s)
  then show ?case by (force split: list.splits if_splits)
qed

lemma split_on_app:
  "split_on c (xs @ ys) = butlast (split_on c xs) @ (last (split_on c xs) @ hd (split_on c ys)) # tl (split_on c ys)"
proof (induction xs)
  case Nil
  then show ?case by simp
next
  case (Cons x xs)
  obtain z zs where s: "split_on c xs = z # zs"
    by (meson neq_Nil_conv split_on_nonempty)
  with Cons show ?case by (cases zs) auto
qed

text \<open>\<open>s.split(sep, 1)[0]\<close> and the three results of \<open>partition\<close> and \<open>rpartition\<close>.\<close>

fun py_partition :: "'a \<Rightarrow> 'a list \<Rightarrow> 'a list \<times> 'a list \<times> 'a list" where
  "py_partition c [] = ([], [], [])"
| "py_partition c (x # xs) =
     (if x = c then ([], [c], xs)
      else (case py_partition c xs of (a, s, b) \<Rightarrow> (x # a, s, b)))"

definition py_rpartition :: "'a \<Rightarrow> 'a list \<Rightarrow> 'a list \<times> 'a list \<times> 'a list" where
  "py_rpartition c s =
     (case py_partition c (rev s) of (a, sep, b) \<Rightarrow>
        if sep = [] then ([], [], s) else (rev b, sep, rev a))"

lemma py_partition_append: "py_partition c s = (a, m, b) \<Longrightarrow> a @ m @ b = s"
  by (induction s arbitrary: a m b) (auto split: if_splits prod.splits)

lemma py_partition_found: "c \<notin> set a \<Longrightarrow> py_partition c (a @ c # b) = (a, [c], b)"
  by (induction a) auto

lemma py_partition_absent: "c \<notin> set a \<Longrightarrow> py_partition c a = (a, [], [])"
  by (induction a) auto

lemma py_rpartition_found: "c \<notin> set b \<Longrightarrow> py_rpartition c (a @ c # b) = (a, [c], b)"
  by (simp add: py_rpartition_def py_partition_found)

text \<open>\<open>partition\<close> at a separator of several characters; the flag says whether it was found.\<close>

fun py_partition_at :: "'a list \<Rightarrow> 'a list \<Rightarrow> 'a list \<times> bool \<times> 'a list" where
  "py_partition_at sep [] = ([], False, [])"
| "py_partition_at sep (x # xs) =
     (if take (length sep) (x # xs) = sep then ([], True, drop (length sep) (x # xs))
      else (case py_partition_at sep xs of (a, f, b) \<Rightarrow> (x # a, f, b)))"

lemma py_partition_at_append:
  "py_partition_at sep s = (a, f, b) \<Longrightarrow> sep \<noteq> [] \<Longrightarrow> s = (if f then a @ sep @ b else a)"
proof (induction s arbitrary: a f b)
  case (Cons x xs)
  then show ?case
    by (auto split: if_splits prod.splits) (metis append_take_drop_id)+
qed simp

text \<open>\<open>Path.parent\<close>, of a path as text.\<close>

definition path_parent :: "string \<Rightarrow> string" where
  "path_parent p =
     (let parts = split_on (CHR ''/'') p in
      if length parts = 1 then ''.''
      else if butlast parts = [[]] then ''/'' else join ''/'' (butlast parts))"

section \<open>White space and lines\<close>

definition is_space :: "char \<Rightarrow> bool" where
  "is_space c = (let n = of_char c :: nat in
     (9 \<le> n \<and> n \<le> 13) \<or> (28 \<le> n \<and> n \<le> 32) \<or> n = 133 \<or> n = 160)"

definition lstrip :: "string \<Rightarrow> string" where
  "lstrip s = dropWhile is_space s"

definition rstrip :: "string \<Rightarrow> string" where
  "rstrip s = rev (dropWhile is_space (rev s))"

definition strip :: "string \<Rightarrow> string" where
  "strip s = rstrip (lstrip s)"

definition rstrip_char :: "char \<Rightarrow> string \<Rightarrow> string" where
  "rstrip_char c s = rev (dropWhile (\<lambda>x. x = c) (rev s))"

text \<open>\<open>s.split()\<close>: the runs of characters that are not white space.\<close>

fun words_acc :: "string \<Rightarrow> string \<Rightarrow> string list" where
  "words_acc w [] = (if w = [] then [] else [w])"
| "words_acc w (c # cs) =
     (if is_space c then (if w = [] then words_acc [] cs else w # words_acc [] cs)
      else words_acc (w @ [c]) cs)"

definition py_split :: "string \<Rightarrow> string list" where
  "py_split s = words_acc [] s"

definition is_line_break :: "char \<Rightarrow> bool" where
  "is_line_break c = (let n = of_char c :: nat in
     (10 \<le> n \<and> n \<le> 13) \<or> (28 \<le> n \<and> n \<le> 30) \<or> n = 133)"

abbreviation CR :: char where "CR \<equiv> CHR 0x0D"
abbreviation LF :: char where "LF \<equiv> CHR 0x0A"

text \<open>
  \<open>s.splitlines()\<close>: every line break ends a line, a carriage return and a line feed
  together are one, and a text that ends with a break has no empty line after it.
\<close>

fun lines_acc :: "string \<Rightarrow> string \<Rightarrow> string list" where
  "lines_acc w [] = (if w = [] then [] else [w])"
| "lines_acc w [c] = (if is_line_break c then [w] else [w @ [c]])"
| "lines_acc w (c # d # cs) =
     (if c = CR \<and> d = LF then w # lines_acc [] cs
      else if is_line_break c then w # lines_acc [] (d # cs)
      else lines_acc (w @ [c]) (d # cs))"

definition splitlines :: "string \<Rightarrow> string list" where
  "splitlines s = lines_acc [] s"

lemma lines_acc_nonempty: "w \<noteq> [] \<or> s \<noteq> [] \<Longrightarrow> lines_acc w s \<noteq> []"
  by (induction w s rule: lines_acc.induct) auto

lemma splitlines_nonempty [pystr_simps]: "s \<noteq> [] \<Longrightarrow> splitlines s \<noteq> []"
  by (simp add: splitlines_def lines_acc_nonempty)

lemma is_line_break_CR [simp]: "is_line_break CR" "is_line_break LF"
  by (simp_all add: is_line_break_def)

lemma lines_acc_no_break:
  "\<forall>x\<in>set w. \<not> is_line_break x \<Longrightarrow> \<forall>l\<in>set (lines_acc w s). \<forall>x\<in>set l. \<not> is_line_break x"
proof (induction w s rule: lines_acc.induct)
  case (3 w c d cs)
  show ?case
  proof (cases "is_line_break c")
    case True
    have "\<forall>l\<in>set (lines_acc [] cs). \<forall>x\<in>set l. \<not> is_line_break x" if "c = CR \<and> d = LF"
      using "3.IH"(1) that by simp
    moreover have "\<forall>l\<in>set (lines_acc [] (d # cs)). \<forall>x\<in>set l. \<not> is_line_break x"
      if "\<not> (c = CR \<and> d = LF)"
      using "3.IH"(2) that True by simp
    ultimately show ?thesis using True "3.prems"
      unfolding lines_acc.simps(3) by (auto simp del: lines_acc.simps)
  next
    case False
    then have c: "\<not> (c = CR \<and> d = LF)" by auto
    then show ?thesis using False "3.IH"(3) "3.prems"
      unfolding lines_acc.simps(3) by (auto simp del: lines_acc.simps)
  qed
qed simp_all

lemma words_acc_word: "\<forall>c\<in>set x. \<not> is_space c \<Longrightarrow> words_acc w (x @ s) = words_acc (w @ x) s"
  by (induction x arbitrary: w) auto

lemma py_split_space [pystr_simps]: "is_space c \<Longrightarrow> py_split (c # s) = py_split s"
  by (simp add: py_split_def)

lemma py_split_word [pystr_simps]:
  "x \<noteq> [] \<Longrightarrow> \<forall>c\<in>set x. \<not> is_space c \<Longrightarrow> is_space d \<Longrightarrow> py_split (x @ d # s) = x # py_split s"
  by (simp add: py_split_def words_acc_word)

lemma lines_acc_line:
  "\<forall>c\<in>set l. \<not> is_line_break c \<Longrightarrow> lines_acc w (l @ LF # s) = (w @ l) # lines_acc [] s"
proof (induction l arbitrary: w)
  case Nil
  show ?case by (cases s) auto
next
  case (Cons a l)
  then have "a \<noteq> CR" "\<not> is_line_break a" by auto
  then show ?case using Cons by (cases "l @ LF # s") auto
qed

lemma splitlines_line [pystr_simps]:
  "\<forall>c\<in>set l. \<not> is_line_break c \<Longrightarrow> splitlines (l @ LF # s) = l # splitlines s"
  by (simp add: splitlines_def lines_acc_line)

lemma splitlines_lines [pystr_simps]:
  "\<forall>l\<in>set ls. \<forall>c\<in>set l. \<not> is_line_break c \<Longrightarrow> splitlines (concat (map (\<lambda>l. l @ [LF]) ls)) = ls"
  by (induction ls) (simp_all add: splitlines_line, simp add: splitlines_def)

lemma splitlines_no_break:
  assumes "l \<in> set (splitlines s)" and "x \<in> set l"
  shows "\<not> is_line_break x"
  using lines_acc_no_break [of "[]" s] assms by (simp add: splitlines_def)

section \<open>Prefixes, replacement\<close>

definition startswith :: "string \<Rightarrow> string \<Rightarrow> bool" where
  "startswith s p = (take (length p) s = p)"

definition removeprefix :: "string \<Rightarrow> string \<Rightarrow> string" where
  "removeprefix p s = (if startswith s p then drop (length p) s else s)"

lemma startswith_prefix: "startswith s p \<longleftrightarrow> prefix p s"
  unfolding startswith_def by (metis append_eq_conv_conj prefix_def take_is_prefix)

text \<open>\<open>p in s\<close> for strings.\<close>

fun contains :: "string \<Rightarrow> string \<Rightarrow> bool" where
  "contains p [] = (p = [])"
| "contains p (c # cs) = (startswith (c # cs) p \<or> contains p cs)"

lemma contains_sublist: "contains p s \<longleftrightarrow> sublist p s"
  by (induction s) (auto simp: startswith_prefix sublist_Cons_right)

text \<open>\<open>s.replace(c, r)\<close> for a pattern of one character.\<close>

definition replace_char :: "char \<Rightarrow> string \<Rightarrow> string \<Rightarrow> string" where
  "replace_char c r s = concat (map (\<lambda>x. if x = c then r else [x]) s)"

lemma replace_char_simps [simp]:
  "replace_char c r [] = []"
  "replace_char c r (x # xs) = (if x = c then r else [x]) @ replace_char c r xs"
  by (simp_all add: replace_char_def)

lemma replace_char_append [simp]: "replace_char c r (s @ t) = replace_char c r s @ replace_char c r t"
  by (simp add: replace_char_def)

lemma replace_char_absent: "c \<notin> set s \<Longrightarrow> replace_char c r s = s"
  by (induction s) auto

section \<open>Numbers as text\<close>

definition digit :: "nat \<Rightarrow> char" where
  "digit n = (if n < 10 then char_of (48 + n) else char_of (87 + n))"

fun show_nat :: "nat \<Rightarrow> string" where
  "show_nat n = (if n < 10 then [digit n] else show_nat (n div 10) @ [digit (n mod 10)])"

declare show_nat.simps [simp del]

definition show_int :: "int \<Rightarrow> string" where
  "show_int i = (if i < 0 then ''-'' @ show_nat (nat (- i)) else show_nat (nat i))"

definition is_digit :: "char \<Rightarrow> bool" where
  "is_digit c = (let n = of_char c :: nat in 48 \<le> n \<and> n \<le> 57)"

definition digit_val :: "char \<Rightarrow> nat" where
  "digit_val c = of_char c - 48"

definition read_nat :: "string \<Rightarrow> nat" where
  "read_nat s = fold (\<lambda>c n. 10 * n + digit_val c) s 0"

lemma of_char_digit: "n < 10 \<Longrightarrow> of_char (digit n) = 48 + n"
  by (simp add: digit_def)

lemma digit_val_digit [simp]: "n < 10 \<Longrightarrow> digit_val (digit n) = n"
  by (simp add: digit_val_def of_char_digit)

lemma is_digit_digit [simp]: "n < 10 \<Longrightarrow> is_digit (digit n)"
  by (simp add: is_digit_def of_char_digit)

lemma read_nat_snoc: "read_nat (s @ [c]) = 10 * read_nat s + digit_val c"
  by (simp add: read_nat_def)

lemma read_show_nat [pystr_simps, simp]: "read_nat (show_nat n) = n"
proof (induction n rule: show_nat.induct)
  case (1 n)
  show ?case
  proof (cases "n < 10")
    case True
    then show ?thesis by (subst show_nat.simps) (simp add: read_nat_def)
  next
    case False
    with "1.IH" show ?thesis by (subst show_nat.simps) (simp add: read_nat_snoc)
  qed
qed

lemma show_nat_digits: "c \<in> set (show_nat n) \<Longrightarrow> is_digit c"
proof (induction n rule: show_nat.induct)
  case (1 n)
  then show ?case by (subst (asm) (2) show_nat.simps) (auto split: if_splits)
qed

lemma show_nat_nonempty [simp]: "show_nat n \<noteq> []"
  by (subst show_nat.simps) simp

lemma show_nat_inject [simp]: "show_nat m = show_nat n \<longleftrightarrow> m = n"
  by (metis read_show_nat)

lemma show_nat_not: "\<not> is_digit c \<Longrightarrow> c \<notin> set (show_nat n)"
  using show_nat_digits by blast

text \<open>Two hexadecimal digits, \<open>f"{n:02x}"\<close>; wider numbers print all their digits.\<close>

fun show_hex :: "nat \<Rightarrow> string" where
  "show_hex n = (if n < 16 then [digit n] else show_hex (n div 16) @ [digit (n mod 16)])"

declare show_hex.simps [simp del]

definition hex2 :: "nat \<Rightarrow> string" where
  "hex2 n = (let h = show_hex n in replicate (2 - length h) (CHR ''0'') @ h)"

text \<open>
  \<open>int(s)\<close>: white space around, one sign, digits with single underscores between them.
  Anything else is a \<open>ValueError\<close>.
\<close>

fun digits_ok :: "bool \<Rightarrow> string \<Rightarrow> bool" where
  "digits_ok after_digit [] = after_digit"
| "digits_ok after_digit (c # cs) =
     (if is_digit c then digits_ok True cs
      else c = CHR ''_'' \<and> after_digit \<and> digits_ok False cs)"

definition py_int :: "string \<Rightarrow> int option" where
  "py_int s =
     (let t = strip s;
          (neg, u) = (case t of [] \<Rightarrow> (False, [])
            | c # cs \<Rightarrow> if c = CHR ''-'' then (True, cs) else if c = CHR ''+'' then (False, cs) else (False, t));
          n = int (read_nat (filter is_digit u))
      in if digits_ok False u then Some (if neg then - n else n) else None)"

lemma dropWhile_none: "\<forall>c\<in>set s. \<not> P c \<Longrightarrow> dropWhile P s = s"
  by (cases s) auto

lemma strip_word: "\<forall>c\<in>set s. \<not> is_space c \<Longrightarrow> strip s = s"
  by (simp add: strip_def lstrip_def rstrip_def dropWhile_none)

lemma digits_not_space: "is_digit c \<Longrightarrow> \<not> is_space c"
  by (auto simp: is_digit_def is_space_def Let_def)

lemma digits_not_sign: "is_digit c \<Longrightarrow> c \<noteq> CHR ''-'' \<and> c \<noteq> CHR ''+''"
  by (auto simp: is_digit_def)

lemma digits_ok_digits: "\<forall>c\<in>set s. is_digit c \<Longrightarrow> s \<noteq> [] \<or> b \<Longrightarrow> digits_ok b s"
  by (induction s arbitrary: b) auto

lemma strip_digits: "\<forall>c\<in>set s. is_digit c \<Longrightarrow> strip s = s"
  using digits_not_space by (intro strip_word) blast

lemma py_int_show_nat [simp]: "py_int (show_nat n) = Some (int n)"
proof -
  have d: "\<forall>c\<in>set (show_nat n). is_digit c" using show_nat_digits by blast
  obtain c cs where s: "show_nat n = c # cs" by (cases "show_nat n") auto
  with d have c: "c \<noteq> CHR ''-''" "c \<noteq> CHR ''+''" using digits_not_sign by auto
  have f: "filter is_digit (c # cs) = c # cs" using d s by (auto intro: filter_True)
  have "digits_ok False (c # cs)" using digits_ok_digits [of "c # cs" False] d s by simp
  moreover have "read_nat (c # cs) = n" using s read_show_nat [of n] by simp
  ultimately show ?thesis
    using strip_digits [OF d] s c f by (simp add: py_int_def del: filter.simps digits_ok.simps)
qed

interpretation decimal: round_trip show_nat py_int "\<lambda>n. Some (int n)" "\<lambda>_. True"
  by unfold_locales simp_all

text \<open>
  Rounding to a number of decimals, halves to the even digit, and the fixed-point formats
  \<open>f"{x:.kf}"\<close>.
\<close>

definition round_even :: "rat \<Rightarrow> int" where
  "round_even x =
     (let f = \<lfloor>x\<rfloor>; d = x - of_int f
      in if d < 1 / 2 then f else if d > 1 / 2 then f + 1 else if even f then f else f + 1)"

definition py_round :: "nat \<Rightarrow> rat \<Rightarrow> rat" where
  "py_round k x = of_int (round_even (x * 10 ^ k)) / 10 ^ k"

definition zfill :: "nat \<Rightarrow> string \<Rightarrow> string" where
  "zfill w s = replicate (w - length s) (CHR ''0'') @ s"

definition rjust :: "nat \<Rightarrow> string \<Rightarrow> string" where
  "rjust w s = replicate (w - length s) (CHR '' '') @ s"

definition ljust :: "nat \<Rightarrow> string \<Rightarrow> string" where
  "ljust w s = s @ replicate (w - length s) (CHR '' '')"

definition fixed :: "nat \<Rightarrow> rat \<Rightarrow> string" where
  "fixed k x =
     (let n = nat \<bar>round_even (x * 10 ^ k)\<bar>
      in (if x < 0 then ''-'' else []) @ show_nat (n div 10 ^ k) @
         (if k = 0 then [] else ''.'' @ zfill k (show_nat (n mod 10 ^ k))))"

lemma round_even_near: "\<bar>of_int (round_even x) - x\<bar> \<le> 1 / 2"
proof -
  have "of_int \<lfloor>x\<rfloor> \<le> x" "x < of_int \<lfloor>x\<rfloor> + 1" by linarith+
  then show ?thesis unfolding round_even_def Let_def by (auto simp: abs_le_iff)
qed

lemma round_even_of_int [simp]: "round_even (of_int i) = i"
  by (simp add: round_even_def)

lemma py_round_near: "\<bar>py_round k x - x\<bar> \<le> 1 / (2 * 10 ^ k)"
proof -
  have "py_round k x - x = (of_int (round_even (x * 10 ^ k)) - x * 10 ^ k) / 10 ^ k"
    by (simp add: py_round_def field_simps)
  then have "\<bar>py_round k x - x\<bar> = \<bar>of_int (round_even (x * 10 ^ k)) - x * 10 ^ k\<bar> / 10 ^ k"
    by (simp add: abs_divide)
  also have "\<dots> \<le> (1 / 2) / 10 ^ k"
    by (rule divide_right_mono) (use round_even_near in auto)
  finally show ?thesis by simp
qed

lemma py_round_idem [simp]: "py_round k (py_round k x) = py_round k x"
  by (simp add: py_round_def)

section \<open>repr\<close>

text \<open>
  \<open>repr(s)\<close> of a string: double quotes only when that saves escaping, and a code point
  that does not print as a backslash escape.
\<close>

definition repr_char :: "char \<Rightarrow> char \<Rightarrow> string" where
  "repr_char q c =
     (let n = of_char c :: nat in
      if c = q \<or> c = CHR 0x5C then [CHR 0x5C, c]
      else if n = 10 then [CHR 0x5C, CHR ''n'']
      else if n = 13 then [CHR 0x5C, CHR ''r'']
      else if n = 9 then [CHR 0x5C, CHR ''t'']
      else if n < 32 \<or> (127 \<le> n \<and> n \<le> 160) \<or> n = 173 then [CHR 0x5C, CHR ''x''] @ hex2 n
      else [c])"

definition py_repr :: "string \<Rightarrow> string" where
  "py_repr s =
     (let q = (if CHR 0x27 \<in> set s \<and> CHR 0x22 \<notin> set s then CHR 0x22 else CHR 0x27)
      in [q] @ concat (map (repr_char q) s) @ [q])"

text \<open>Sorting, which Python does by code point.\<close>

definition char_le :: "char \<Rightarrow> char \<Rightarrow> bool" where
  "char_le c d = ((of_char c :: nat) \<le> of_char d)"

fun str_le :: "string \<Rightarrow> string \<Rightarrow> bool" where
  "str_le [] t = True"
| "str_le (c # s) [] = False"
| "str_le (c # s) (d # t) = (if c = d then str_le s t else char_le c d)"

fun insert_by :: "('a \<Rightarrow> 'a \<Rightarrow> bool) \<Rightarrow> 'a \<Rightarrow> 'a list \<Rightarrow> 'a list" where
  "insert_by le x [] = [x]"
| "insert_by le x (y # ys) = (if le x y then x # y # ys else y # insert_by le x ys)"

text \<open>\<open>sorted(xs)\<close>: stable, as Python's is.\<close>

definition sort_by :: "('a \<Rightarrow> 'a \<Rightarrow> bool) \<Rightarrow> 'a list \<Rightarrow> 'a list" where
  "sort_by le xs = foldr (insert_by le) xs []"

lemma set_insert_by [simp]: "set (insert_by le x xs) = insert x (set xs)"
  by (induction xs) auto

lemma length_insert_by [simp]: "length (insert_by le x xs) = Suc (length xs)"
  by (induction xs) auto

lemma set_sort_by [simp]: "set (sort_by le xs) = set xs"
  unfolding sort_by_def by (induction xs) auto

lemma length_sort_by [simp]: "length (sort_by le xs) = length xs"
  unfolding sort_by_def by (induction xs) auto

lemma distinct_insert_by [simp]: "distinct (insert_by le x xs) \<longleftrightarrow> x \<notin> set xs \<and> distinct xs"
  by (induction xs) auto

lemma distinct_sort_by [simp]: "distinct (sort_by le xs) \<longleftrightarrow> distinct xs"
  unfolding sort_by_def by (induction xs) (auto simp flip: sort_by_def)

lemma sorted_insert_by:
  assumes total: "\<And>a b. le a b \<or> le b a"
    and trans: "\<And>a b c. le a b \<Longrightarrow> le b c \<Longrightarrow> le a c"
  shows "sorted_wrt le xs \<Longrightarrow> sorted_wrt le (insert_by le x xs)"
proof (induction xs)
  case Nil
  then show ?case by simp
next
  case (Cons y ys)
  show ?case
  proof (cases "le x y")
    case True
    with Cons.prems trans [of x y] have "\<forall>z\<in>set ys. le x z" by simp
    with True Cons.prems show ?thesis by simp
  next
    case False
    with total have "le y x" by blast
    with False Cons show ?thesis by simp
  qed
qed

lemma sorted_sort_by:
  assumes total: "\<And>a b. le a b \<or> le b a"
    and trans: "\<And>a b c. le a b \<Longrightarrow> le b c \<Longrightarrow> le a c"
  shows "sorted_wrt le (sort_by le xs)"
proof (induction xs)
  case Nil
  then show ?case by (simp add: sort_by_def)
next
  case (Cons x xs)
  have "sort_by le (x # xs) = insert_by le x (sort_by le xs)" by (simp add: sort_by_def)
  then show ?case using sorted_insert_by [of le, OF total trans Cons.IH] by simp
qed

section \<open>Colours\<close>

text \<open>\<open>re.sub\<close> of \<open>\x1b\[[0-9;]*[a-zA-Z]\<close>: an escape, a bracket, digits and semicolons, a letter.\<close>

definition ESC :: char where "ESC = CHR 0x1B"

definition is_letter :: "char \<Rightarrow> bool" where
  "is_letter c = (let n = of_char c :: nat in (65 \<le> n \<and> n \<le> 90) \<or> (97 \<le> n \<and> n \<le> 122))"

fun after_params :: "string \<Rightarrow> string option" where
  "after_params [] = None"
| "after_params (c # cs) =
     (if is_digit c \<or> c = CHR '';'' then after_params cs else if is_letter c then Some cs else None)"

lemma after_params_shorter: "after_params s = Some r \<Longrightarrow> length r < length s"
  by (induction s) (auto split: if_splits)

function strip_ansi :: "string \<Rightarrow> string" where
  "strip_ansi s =
     (case s of [] \<Rightarrow> []
      | c # cs \<Rightarrow>
         (case (if c = ESC \<and> take 1 cs = ''['' then after_params (drop 1 cs) else None) of
            Some r \<Rightarrow> strip_ansi r
          | None \<Rightarrow> c # strip_ansi cs))"
  by pat_completeness auto
termination
  by (relation "measure length") (auto split: if_splits dest!: after_params_shorter)

declare strip_ansi.simps [simp del]

end
