(* ===== verification/Json.thy ===== *)
theory Json
  imports Py_Strings
begin

text \<open>
  The values \<open>json.loads\<close> builds and \<open>json.dumps\<close> prints, with the operations Python
  code applies to such a value without knowing its type: truth, \<open>or\<close>, \<open>str\<close>, \<open>.get\<close>.
  The text format itself is a parameter of the definitions that read or write it
  (\<open>loads :: string \<Rightarrow> json option\<close>, with \<^const>\<open>None\<close> for \<open>JSONDecodeError\<close>).
\<close>

datatype json =
    JNull
  | JBool bool
  | JInt int
  | JFloat rat
  | JStr string
  | JList "json list"
  | JObj "(string \<times> json) list"

type_synonym jdict = "(string, json) dict"

fun truthy :: "json \<Rightarrow> bool" where
  "truthy JNull = False"
| "truthy (JBool b) = b"
| "truthy (JInt i) = (i \<noteq> 0)"
| "truthy (JFloat x) = (x \<noteq> 0)"
| "truthy (JStr s) = (s \<noteq> [])"
| "truthy (JList xs) = (xs \<noteq> [])"
| "truthy (JObj d) = (d \<noteq> [])"

text \<open>\<open>a or b\<close>.\<close>

definition py_or :: "json \<Rightarrow> json \<Rightarrow> json" where
  "py_or a b = (if truthy a then a else b)"

text \<open>\<open>d.get(k)\<close> and \<open>d.get(k, v)\<close>.\<close>

definition jget :: "jdict \<Rightarrow> string \<Rightarrow> json" where
  "jget d k = dict_get d k JNull"

definition obj_get :: "json \<Rightarrow> string \<Rightarrow> json option" where
  "obj_get v k = (case v of JObj d \<Rightarrow> map_of d k | _ \<Rightarrow> None)"

text \<open>
  \<open>repr\<close> of a float whose decimal expansion ends within sixteen places, which covers the
  times this program writes: they are rounded to milliseconds first.
\<close>

definition show_float :: "rat \<Rightarrow> string" where
  "show_float x =
     (let a = \<bar>x\<bar>; i = \<lfloor>a\<rfloor>;
          f = rstrip_char (CHR ''0'') (zfill 16 (show_nat (nat \<lfloor>(a - of_int i) * 10 ^ 16\<rfloor>)))
      in (if x < 0 then ''-'' else []) @ show_int i @ ''.'' @ (if f = [] then ''0'' else f))"

text \<open>\<open>repr\<close> of a value, which is also how it prints inside a container.\<close>

fun json_repr :: "json \<Rightarrow> string" where
  "json_repr JNull = ''None''"
| "json_repr (JBool b) = (if b then ''True'' else ''False'')"
| "json_repr (JInt i) = show_int i"
| "json_repr (JFloat x) = show_float x"
| "json_repr (JStr s) = py_repr s"
| "json_repr (JList xs) = ''['' @ join '', '' (map json_repr xs) @ '']''"
| "json_repr (JObj d) =
     ''{'' @ join '', '' (map (\<lambda>kv. py_repr (fst kv) @ '': '' @ json_repr (snd kv)) d) @ ''}''"

definition py_str :: "json \<Rightarrow> string" where
  "py_str v = (case v of JStr s \<Rightarrow> s | _ \<Rightarrow> json_repr v)"

lemma py_str_JStr [simp]: "py_str (JStr s) = s"
  by (simp add: py_str_def)

lemma truthy_py_or: "truthy (py_or a b) \<longleftrightarrow> truthy a \<or> truthy b"
  by (simp add: py_or_def)

end
