(* ===== verification/Run_Spec.thy ===== *)
theory Run_Spec
  imports Json
begin

text \<open>
  \<^verbatim>\<open>src/pkgs/uml/uml/spec.py\<close>: what Nix hands the runner. The models are records. What
  pydantic does with a document is a parameter, \<open>validate\<close>: it answers the model or the
  list of errors it found, each with the path of the field and a type.
\<close>

record pytest_spec =
  ps_tests :: string
  ps_args :: "string list"

record phase_spec =
  ph_name :: string
  ph_script :: "string option"
  ph_pytest :: "pytest_spec option"
  ph_after :: "string list"
  ph_nodes :: "string list"
  ph_always :: bool

text \<open>\<open>PhaseSpec._one_kind\<close>: exactly one of \<open>script\<close> and \<open>pytest\<close>.\<close>

definition one_kind :: "phase_spec \<Rightarrow> string + phase_spec" where
  "one_kind p =
     (if (ph_script p = None) = (ph_pytest p = None)
      then Inl (''phase '' @ ph_name p @ '' needs exactly one of script and pytest'')
      else Inr p)"

record knob =
  kn_value :: string
  kn_source :: string
  kn_env :: string

record spec =
  sp_uml :: "string option"
  sp_name :: string
  sp_machines :: "jdict list"
  sp_phases :: "phase_spec list"
  sp_settings :: jdict
  sp_pythonPath :: "string list"
  sp_knobs :: "(string, knob) dict"
  sp_kernel :: "string option"
  sp_bridge :: "string option"
  sp_passt :: "string option"
  sp_qemu :: "string option"
  sp_qemuImg :: "string option"
  sp_virtiofsd :: "string option"
  sp_crun :: "string option"
  sp_setpriv :: "string option"

record validation_error =
  ve_loc :: "string list"
  ve_type :: string

datatype spec_error =
    Validation "validation_error list"
  | SpecError string
  | NotJson

text \<open>
  \<open>Spec.read\<close> over the parsed document: a document with a field this runner does not know
  is a \<open>SpecError\<close> naming every such field and the \<open>uml\<close> that would know it; any other
  validation error is raised as it is.
\<close>

definition unknown_fields :: "validation_error list \<Rightarrow> string list" where
  "unknown_fields es =
     map (\<lambda>e. join ''.'' (ve_loc e)) (filter (\<lambda>e. ve_type e = ''extra_forbidden'') es)"

definition spec_read ::
  "(string \<Rightarrow> json option) \<Rightarrow> (json \<Rightarrow> validation_error list + spec) \<Rightarrow> string \<Rightarrow> spec_error + spec" where
  "spec_read loads validate text =
     (case loads text of
        None \<Rightarrow> Inl NotJson
      | Some raw \<Rightarrow>
         (case validate raw of
            Inr s \<Rightarrow> Inr s
          | Inl es \<Rightarrow>
             (let unknown = unknown_fields es in
              if unknown = [] then Inl (Validation es)
              else Inl (SpecError
                (''the spec has fields this runner does not know: '' @ join '', '' unknown @
                 ''. A newer user-mode-nixos wrote it; run it with the `uml` it names, '' @
                 py_str (py_or (case raw of JObj d \<Rightarrow> jget d ''uml'' | _ \<Rightarrow> JNull)
                                (JStr ''(none named)'')))))))"

text \<open>\<open>Spec.toolchain\<close>: the tool paths that are set, in the order of the fields.\<close>

definition toolchain_fields :: "spec \<Rightarrow> (string \<times> string option) list" where
  "toolchain_fields s =
     [(''kernel'', sp_kernel s), (''bridge'', sp_bridge s), (''passt'', sp_passt s),
      (''qemu'', sp_qemu s), (''qemuImg'', sp_qemuImg s), (''virtiofsd'', sp_virtiofsd s),
      (''crun'', sp_crun s), (''setpriv'', sp_setpriv s)]"

definition toolchain :: "spec \<Rightarrow> (string, string) dict" where
  "toolchain s = present (toolchain_fields s)"

lemma one_kind_Inr: "one_kind p = Inr q \<Longrightarrow> q = p \<and> (ph_script p = None) \<noteq> (ph_pytest p = None)"
  by (auto simp: one_kind_def split: if_splits)

lemma toolchain_get:
  "map_of (toolchain s) k = (case map_of (toolchain_fields s) k of None \<Rightarrow> None | Some v \<Rightarrow> v)"
  by (simp add: toolchain_def toolchain_fields_def map_of_present)

end
