(* ===== verification/Phases.thy ===== *)
theory Phases
  imports Run_Spec
begin

text \<open>
  \<^verbatim>\<open>src/pkgs/uml/uml/phases.py\<close>: which phases run, and which a failure takes with it.
  Everything here is a function of the phase list and the states so far. A Python
  \<open>set\<close> is a \<^typ>\<open>string set\<close>; the loop of \<open>dependents\<close> is a recursion whose measure is
  the number of phase names not found yet.
\<close>

datatype phase_state =
  PENDING | RUNNING | PASSED | FAILED | SKIPPED | INTERRUPTED | DESELECTED

fun state_text :: "phase_state \<Rightarrow> string" where
  "state_text PENDING = ''pending''"
| "state_text RUNNING = ''running''"
| "state_text PASSED = ''passed''"
| "state_text FAILED = ''failed''"
| "state_text SKIPPED = ''skipped''"
| "state_text INTERRUPTED = ''interrupted''"
| "state_text DESELECTED = ''deselected''"

definition phase_states :: "phase_state list" where
  "phase_states = [PENDING, RUNNING, PASSED, FAILED, SKIPPED, INTERRUPTED, DESELECTED]"

type_synonym states = "(string, phase_state) dict"

definition state_of :: "states \<Rightarrow> string \<Rightarrow> phase_state" where
  "state_of st n = dict_get st n PENDING"

definition phase_names :: "phase_spec list \<Rightarrow> string list" where
  "phase_names ps = map ph_name ps"

section \<open>dependents\<close>

definition grow :: "phase_spec list \<Rightarrow> string set \<Rightarrow> string set" where
  "grow phases found =
     found \<union> set (phase_names
       (filter (\<lambda>p. \<not> ph_always p \<and> list_ex (\<lambda>a. a \<in> found) (ph_after p)) phases))"

lemma grow_mono: "found \<subseteq> grow phases found"
  by (simp add: grow_def)

lemma grow_names: "grow phases found \<subseteq> found \<union> set (phase_names phases)"
  by (auto simp: grow_def phase_names_def)

function dep_loop :: "phase_spec list \<Rightarrow> string set \<Rightarrow> string set" where
  "dep_loop phases found =
     (let grown = grow phases found in
      if grown = found then found else dep_loop phases grown)"
  by pat_completeness auto
termination
proof (relation "measure (\<lambda>(phases, found). card (set (phase_names phases) - found))", goal_cases)
  case 1
  show ?case by simp
next
  case (2 phases found grown)
  then have "grow phases found - found \<noteq> {}" using grow_mono by blast
  then obtain x where "x \<in> grow phases found" "x \<notin> found" by blast
  then have "x \<in> set (phase_names phases)" using grow_names by blast
  then have "set (phase_names phases) - grow phases found \<subset> set (phase_names phases) - found"
    using \<open>x \<in> grow phases found\<close> \<open>x \<notin> found\<close> grow_mono [of found phases] by blast
  then show ?case using "2"(1) by (simp add: psubset_card_mono)
qed

declare dep_loop.simps [simp del]

definition dependents :: "string \<Rightarrow> phase_spec list \<Rightarrow> string set" where
  "dependents name phases = dep_loop phases {name} - {name}"

definition skipped_by :: "string \<Rightarrow> phase_spec list \<Rightarrow> string set" where
  "skipped_by failed phases = dependents failed phases"

text \<open>
  The specification: a chain of \<open>after\<close> edges from the failed phase, none of them into an
  \<open>always\<close> phase.
\<close>

inductive needs :: "phase_spec list \<Rightarrow> string \<Rightarrow> string \<Rightarrow> bool" for phases :: "phase_spec list" where
  needs_direct: "p \<in> set phases \<Longrightarrow> \<not> ph_always p \<Longrightarrow> n \<in> set (ph_after p) \<Longrightarrow> needs phases (ph_name p) n"
| needs_through: "needs phases m n \<Longrightarrow> p \<in> set phases \<Longrightarrow> \<not> ph_always p \<Longrightarrow> m \<in> set (ph_after p) \<Longrightarrow>
     needs phases (ph_name p) n"

lemma grow_iff:
  "x \<in> grow phases found \<longleftrightarrow>
     x \<in> found \<or> (\<exists>p\<in>set phases. ph_name p = x \<and> \<not> ph_always p \<and> (\<exists>a\<in>found. a \<in> set (ph_after p)))"
  by (auto simp: grow_def phase_names_def list_ex_iff)

lemma dep_loop_grows: "found \<subseteq> dep_loop phases found"
proof (induction phases found rule: dep_loop.induct)
  case (1 phases found)
  show ?case
  proof (cases "grow phases found = found")
    case True
    then show ?thesis by (simp add: dep_loop.simps [of phases found])
  next
    case False
    with 1 have "grow phases found \<subseteq> dep_loop phases (grow phases found)" by simp
    with grow_mono [of found phases] False show ?thesis
      by (auto simp: dep_loop.simps [of phases found])
  qed
qed

lemma dep_loop_closed: "grow phases (dep_loop phases found) = dep_loop phases found"
proof (induction phases found rule: dep_loop.induct)
  case (1 phases found)
  then show ?case
    by (cases "grow phases found = found") (simp_all add: dep_loop.simps [of phases found])
qed

lemma dep_loop_sound:
  "\<forall>x\<in>found. x = n \<or> needs phases x n \<Longrightarrow> x \<in> dep_loop phases found \<Longrightarrow> x = n \<or> needs phases x n"
proof (induction phases found arbitrary: x rule: dep_loop.induct)
  case (1 phases found)
  show ?case
  proof (cases "grow phases found = found")
    case True
    with "1.prems" show ?thesis by (simp add: dep_loop.simps [of phases found])
  next
    case False
    have "x = n \<or> needs phases x n" if "x \<in> grow phases found" for x
      using that "1.prems"(1) unfolding grow_iff by (metis needs.intros)
    then have "\<forall>x\<in>grow phases found. x = n \<or> needs phases x n" by blast
    with False "1.IH" "1.prems"(2) show ?thesis by (simp add: dep_loop.simps [of phases found])
  qed
qed

lemma needs_in_closed:
  "needs phases x n \<Longrightarrow> n \<in> found \<Longrightarrow> grow phases found = found \<Longrightarrow> x \<in> found"
  by (induction rule: needs.induct) (metis grow_iff)+

lemma dependents_iff: "x \<in> dependents n phases \<longleftrightarrow> x \<noteq> n \<and> needs phases x n"
proof -
  have "n \<in> dep_loop phases {n}" using dep_loop_grows by blast
  then have "needs phases x n \<Longrightarrow> x \<in> dep_loop phases {n}"
    using needs_in_closed dep_loop_closed by blast
  moreover have "x \<in> dep_loop phases {n} \<Longrightarrow> x = n \<or> needs phases x n"
    by (rule dep_loop_sound) simp_all
  ultimately show ?thesis by (auto simp: dependents_def)
qed

lemma needs_phase: "needs phases x n \<Longrightarrow> \<exists>p\<in>set phases. ph_name p = x \<and> \<not> ph_always p"
  by (induction rule: needs.induct) auto

section \<open>What may run\<close>

definition runnable :: "phase_spec list \<Rightarrow> states \<Rightarrow> phase_spec list" where
  "runnable phases st = filter (\<lambda>p. state_of st (ph_name p) = PENDING) phases"

definition unfinished :: "phase_state \<Rightarrow> bool" where
  "unfinished s = (s = PENDING \<or> s = RUNNING)"

definition ready :: "phase_spec list \<Rightarrow> states \<Rightarrow> phase_spec list" where
  "ready phases st =
     filter (\<lambda>p. list_all (\<lambda>n. \<not> unfinished (state_of st n)) (ph_after p)) (runnable phases st)"

definition claims :: "phase_spec \<Rightarrow> string set \<Rightarrow> string set" where
  "claims p every = (if ph_pytest p \<noteq> None \<or> ph_nodes p = [] then every else set (ph_nodes p))"

fun launch_loop :: "string set \<Rightarrow> string set \<Rightarrow> phase_spec list \<Rightarrow> phase_spec list" where
  "launch_loop every held [] = []"
| "launch_loop every held (p # ps) =
     (let wants = claims p every in
      if held \<inter> wants \<noteq> {} then launch_loop every held ps
      else p # launch_loop every (held \<union> wants) ps)"

definition held_by :: "phase_spec list \<Rightarrow> string set \<Rightarrow> string set" where
  "held_by running every = fold (\<lambda>p held. held \<union> claims p every) running {}"

definition launchable :: "phase_spec list \<Rightarrow> phase_spec list \<Rightarrow> string set \<Rightarrow> phase_spec list" where
  "launchable ready_ps running every = launch_loop every (held_by running every) ready_ps"

lemma held_by_eq: "held_by running every = (\<Union>p\<in>set running. claims p every)"
proof -
  have "fold (\<lambda>p held. held \<union> claims p every) running h = h \<union> (\<Union>p\<in>set running. claims p every)" for h
    by (induction running arbitrary: h) auto
  then show ?thesis by (simp add: held_by_def)
qed

lemma runnable_iff: "p \<in> set (runnable phases st) \<longleftrightarrow> p \<in> set phases \<and> state_of st (ph_name p) = PENDING"
  by (auto simp: runnable_def)

lemma ready_iff:
  "p \<in> set (ready phases st) \<longleftrightarrow> p \<in> set phases \<and> state_of st (ph_name p) = PENDING \<and>
     (\<forall>a\<in>set (ph_after p). \<not> unfinished (state_of st a))"
  by (auto simp: ready_def runnable_iff list_all_iff)

lemma launch_loop_subseq: "subseq (launch_loop every held ps) ps"
  by (induction ps arbitrary: held) (auto simp: Let_def)

lemma launch_loop_disjoint_held: "p \<in> set (launch_loop every held ps) \<Longrightarrow> claims p every \<inter> held = {}"
  by (induction ps arbitrary: held) (auto simp: Let_def split: if_splits)

lemma launch_loop_pairwise:
  "sorted_wrt (\<lambda>p q. claims p every \<inter> claims q every = {}) (launch_loop every held ps)"
proof (induction ps arbitrary: held)
  case Nil
  then show ?case by simp
next
  case (Cons p ps)
  then show ?case using launch_loop_disjoint_held [of _ every "held \<union> claims p every" ps]
    by (auto simp: Let_def)
qed

text \<open>Greedy, so nothing that could start beside what was chosen before it is left out.\<close>

lemma launch_loop_maximal:
  "p \<in> set ps \<Longrightarrow> p \<notin> set (launch_loop every held ps) \<Longrightarrow>
     claims p every \<inter> (held \<union> (\<Union>q\<in>set (launch_loop every held ps). claims q every)) \<noteq> {}"
  by (induction ps arbitrary: held) (auto simp: Let_def split: if_splits)

lemma launchable_subseq: "subseq (launchable r running every) r"
  by (simp add: launchable_def launch_loop_subseq)

lemma launch_loop_subset: "set (launch_loop every held ps) \<subseteq> set ps"
  by (induction ps arbitrary: held) (auto simp: Let_def)

lemma launchable_in_ready: "p \<in> set (launchable r running every) \<Longrightarrow> p \<in> set r"
  using launch_loop_subset by (auto simp: launchable_def)

lemma launchable_hd:
  "r \<noteq> [] \<Longrightarrow> launchable r [] every \<noteq> []"
  by (cases r) (auto simp: launchable_def held_by_def Let_def)

section \<open>The verdict\<close>

definition passed :: "states \<Rightarrow> bool" where
  "passed st = list_all (\<lambda>(n, s). s = PASSED \<or> s = DESELECTED) st"

definition count_states :: "states \<Rightarrow> (phase_state, nat) dict" where
  "count_states st = fold (\<lambda>(n, s) c. AList.update s (dict_get c s 0 + 1) c) st []"

definition summarise :: "states \<Rightarrow> string" where
  "summarise st =
     (let counts = count_states st in
      join '', '' (concat (map (\<lambda>k. case map_of counts k of None \<Rightarrow> []
                                    | Some n \<Rightarrow> [show_nat n @ '' '' @ state_text k]) phase_states)))"

lemma count_states_get:
  "map_of (count_states st) s =
     (let n = length (filter (\<lambda>(_, t). t = s) st) in if n = 0 then None else Some n)"
proof -
  have "map_of (fold (\<lambda>(n, s) c. AList.update s (dict_get c s 0 + 1) c) st c) s =
     (let n = length (filter (\<lambda>(_, t). t = s) st) in
      if n = 0 then map_of c s else Some (dict_get c s 0 + n))" for c
    by (induction st arbitrary: c) (auto simp: Let_def dict_get_update dict_get_def)
  then show ?thesis by (simp add: count_states_def dict_get_def Let_def)
qed

lemma passed_iff: "passed st \<longleftrightarrow> (\<forall>(n, s)\<in>set st. s = PASSED \<or> s = DESELECTED)"
  by (simp add: passed_def list_all_iff)

lemma state_of_update: "state_of (AList.update k v st) n = (if n = k then v else state_of st n)"
  by (simp add: state_of_def dict_get_update)

end
