(* ===== verification/Events.thy ===== *)
theory Events
  imports Json
begin

text \<open>
  \<^verbatim>\<open>src/pkgs/uml/uml/events.py\<close>: a run's events, the filter, the renderers. An event's
  \<open>data\<close> is a dictionary of JSON values. \<open>junit\<close> builds its document in one pass over the
  events it keeps; the pass is a fold over an accumulator record, and each step asks
  \<open>junit_row\<close> which row the event is, if any.
\<close>

section \<open>Levels and kinds\<close>

datatype level = L_CONSOLE | L_DETAIL | L_INFO | L_ERROR

fun level_value :: "level \<Rightarrow> nat" where
  "level_value L_CONSOLE = 10"
| "level_value L_DETAIL = 20"
| "level_value L_INFO = 30"
| "level_value L_ERROR = 40"

lemma level_value_inject [simp]: "level_value a = level_value b \<longleftrightarrow> a = b"
  by (cases a; cases b) auto

instantiation level :: linorder
begin

definition less_eq_level :: "level \<Rightarrow> level \<Rightarrow> bool" where
  "less_eq_level a b = (level_value a \<le> level_value b)"

definition less_level :: "level \<Rightarrow> level \<Rightarrow> bool" where
  "less_level a b = (level_value a < level_value b)"

instance
  by standard (auto simp: less_eq_level_def less_level_def)

end

datatype kind =
    K_RUN_STARTED | K_RUN_FINISHED | K_KNOB | K_BOOT | K_CONSOLE | K_RPC
  | K_PHASE_STARTED | K_PHASE_FINISHED | K_OUTPUT | K_CASE | K_JOURNAL | K_NOTE | K_ERROR

fun kind_text :: "kind \<Rightarrow> string" where
  "kind_text K_RUN_STARTED = ''run_started''"
| "kind_text K_RUN_FINISHED = ''run_finished''"
| "kind_text K_KNOB = ''knob''"
| "kind_text K_BOOT = ''boot''"
| "kind_text K_CONSOLE = ''console''"
| "kind_text K_RPC = ''rpc''"
| "kind_text K_PHASE_STARTED = ''phase_started''"
| "kind_text K_PHASE_FINISHED = ''phase_finished''"
| "kind_text K_OUTPUT = ''output''"
| "kind_text K_CASE = ''case''"
| "kind_text K_JOURNAL = ''journal''"
| "kind_text K_NOTE = ''note''"
| "kind_text K_ERROR = ''error''"

record event =
  ev_at :: seconds
  ev_kind :: kind
  ev_level :: level
  ev_text :: string
  ev_machine :: "string option"
  ev_phase :: "string option"
  ev_seconds :: "seconds option"
  ev_data :: jdict

text \<open>An event as its sender describes it; \<open>Session.emit\<close> says when it happened.\<close>

definition mk_event ::
  "kind \<Rightarrow> string \<Rightarrow> level \<Rightarrow> string option \<Rightarrow> string option \<Rightarrow> seconds option \<Rightarrow> jdict \<Rightarrow> event" where
  "mk_event k text l m p secs d =
     \<lparr> ev_at = 0, ev_kind = k, ev_level = l, ev_text = text, ev_machine = m, ev_phase = p,
       ev_seconds = secs, ev_data = d \<rparr>"

lemma mk_event_fields [simp]:
  "ev_kind (mk_event k t l m p s d) = k" "ev_text (mk_event k t l m p s d) = t"
  "ev_level (mk_event k t l m p s d) = l" "ev_machine (mk_event k t l m p s d) = m"
  "ev_phase (mk_event k t l m p s d) = p" "ev_seconds (mk_event k t l m p s d) = s"
  "ev_data (mk_event k t l m p s d) = d"
  by (simp_all add: mk_event_def)

text \<open>The object \<open>Event.as_json\<close> prints: absent fields are left out, times in milliseconds.\<close>

definition as_json :: "event \<Rightarrow> json" where
  "as_json e = JObj (
     [(''at'', JFloat (py_round 3 (ev_at e))),
      (''kind'', JStr (kind_text (ev_kind e))),
      (''level'', JInt (int (level_value (ev_level e)))),
      (''text'', JStr (ev_text e))] @
     present [(''machine'', map_option JStr (ev_machine e)),
              (''phase'', map_option JStr (ev_phase e)),
              (''seconds'', map_option (\<lambda>s. JFloat (py_round 3 s)) (ev_seconds e)),
              (''data'', if ev_data e = [] then None else Some (JObj (ev_data e)))])"

definition wanted :: "event \<Rightarrow> level \<Rightarrow> bool" where
  "wanted e l = (ev_level e \<ge> l)"

section \<open>render\<close>

text \<open>A string or \<open>None\<close>, as a condition and as \<open>x or ""\<close>.\<close>

definition some_text :: "string option \<Rightarrow> bool" where
  "some_text x = (case x of None \<Rightarrow> False | Some s \<Rightarrow> s \<noteq> [])"

definition text_or :: "string option \<Rightarrow> string \<Rightarrow> string" where
  "text_or x y = (case x of None \<Rightarrow> y | Some s \<Rightarrow> if s = [] then y else s)"

definition opt_str :: "string option \<Rightarrow> string" where
  "opt_str x = (case x of None \<Rightarrow> ''None'' | Some s \<Rightarrow> s)"

definition upper_char :: "char \<Rightarrow> string" where
  "upper_char c =
     (let n = of_char c :: nat in
      if (97 \<le> n \<and> n \<le> 122) \<or> (224 \<le> n \<and> n \<le> 254 \<and> n \<noteq> 247) then [char_of (n - 32)]
      else if n = 223 then ''SS'' else [c])"

definition upper :: "string \<Rightarrow> string" where
  "upper s = concat (map upper_char s)"

definition data_str :: "event \<Rightarrow> string \<Rightarrow> string \<Rightarrow> string" where
  "data_str e k v = py_str (dict_get (ev_data e) k (JStr v))"

definition render :: "event \<Rightarrow> string" where
  "render e =
     (let m = text_or (ev_machine e) [] in
      if ev_kind e = K_CONSOLE \<and> some_text (ev_machine e) then ''['' @ m @ ''] '' @ ev_text e
      else if ev_kind e = K_JOURNAL \<and> some_text (ev_machine e) then
        (let source = py_or (py_or (jget (ev_data e) ''unit'') (jget (ev_data e) ''identifier'')) (JStr ''journal'')
         in ''['' @ m @ ''] '' @ py_str source @ '': '' @ ev_text e)
      else if ev_kind e = K_PHASE_STARTED \<or> ev_kind e = K_PHASE_FINISHED then ''[phase] '' @ ev_text e
      else if ev_kind e = K_CASE then
        (let outcome = upper (data_str e ''outcome'' []);
             took = (case ev_seconds e of None \<Rightarrow> []
                     | Some s \<Rightarrow> if s = 0 then [] else '' ('' @ fixed 2 s @ ''s)'')
         in ''[case] '' @ outcome @ '' '' @ ev_text e @ took)
      else if ev_kind e = K_RPC \<and> some_text (ev_machine e) then ''['' @ m @ ''] $ '' @ ev_text e
      else if ev_kind e = K_ERROR then ''[error] '' @ ev_text e
      else if ev_kind e = K_OUTPUT then ev_text e
      else ''[uml] '' @ ev_text e)"

section \<open>JUnit\<close>

definition xml_escape :: "string \<Rightarrow> string" where
  "xml_escape s =
     replace_char (CHR 0x22) ''&quot;''
       (replace_char (CHR ''>'') ''&gt;''
         (replace_char (CHR ''<'') ''&lt;''
           (replace_char (CHR ''&'') ''&amp;'' s)))"

definition kept :: "event list \<Rightarrow> event list" where
  "kept events =
     filter (\<lambda>e. (ev_kind e = K_PHASE_FINISHED \<or> ev_kind e = K_CASE) \<and>
                 \<not> truthy (jget (ev_data e) ''by_hand'')) events"

definition bad_outcome :: "event \<Rightarrow> bool" where
  "bad_outcome e = (data_str e ''outcome'' [] \<in> {''failed'', ''error''})"

definition with_cases :: "event list \<Rightarrow> string option set" where
  "with_cases ks = set (map ev_phase (filter (\<lambda>e. ev_kind e = K_CASE) ks))"

definition failing_cases :: "event list \<Rightarrow> string option set" where
  "failing_cases ks = set (map ev_phase (filter (\<lambda>e. ev_kind e = K_CASE \<and> bad_outcome e) ks))"

text \<open>
  The row an event becomes: its state, class name and case name; \<^const>\<open>None\<close> where the loop
  continues without one.
\<close>

definition junit_row ::
  "string \<Rightarrow> string option set \<Rightarrow> string option set \<Rightarrow> event \<Rightarrow> (string \<times> string \<times> string) option" where
  "junit_row name withc failing e =
     (if ev_kind e = K_CASE then
        Some (if bad_outcome e then ''failed'' else data_str e ''outcome'' [],
              name @ ''.'' @ opt_str (ev_phase e), ev_text e)
      else
        (let state = data_str e ''state'' [] in
         if state = ''deselected'' then None
         else
           (let state = (if state = ''interrupted'' then ''failed'' else state) in
            if ev_phase e \<in> withc \<and> \<not> (state = ''failed'' \<and> ev_phase e \<notin> failing) then None
            else Some (state, name, text_or (ev_phase e) []))))"

record junit_acc =
  ja_cases :: "string list"
  ja_failures :: nat
  ja_skipped :: nat
  ja_seconds :: seconds

definition first_line :: "string \<Rightarrow> string" where
  "first_line s = (case splitlines s of [] \<Rightarrow> [] | l # _ \<Rightarrow> l)"

definition failure_body :: "event \<Rightarrow> string" where
  "failure_body e =
     (let error = data_str e ''error'' ''failed'';
          summary = py_str (py_or (jget (ev_data e) ''message'')
                      (JStr (if error = [] then ''failed'' else first_line error)))
      in ''<failure message='' @ [CHR 0x22] @ xml_escape summary @ [CHR 0x22] @ ''>'' @
         xml_escape error @ ''</failure>'')"

definition skipped_body :: "event \<Rightarrow> string" where
  "skipped_body e =
     ''<skipped message='' @ [CHR 0x22] @ xml_escape (data_str e ''reason'' ''a phase it needs failed'') @
     [CHR 0x22] @ ''/>''"

definition attr :: "string \<Rightarrow> string \<Rightarrow> string" where
  "attr k v = '' '' @ k @ ''='' @ [CHR 0x22] @ v @ [CHR 0x22]"

definition junit_step ::
  "string \<Rightarrow> string option set \<Rightarrow> string option set \<Rightarrow> event \<Rightarrow> junit_acc \<Rightarrow> junit_acc" where
  "junit_step name withc failing e acc =
     (case junit_row name withc failing e of
        None \<Rightarrow> acc
      | Some (state, classname, case_name) \<Rightarrow>
          (let took = (case ev_seconds e of None \<Rightarrow> 0 | Some s \<Rightarrow> s);
               body = (if state = ''failed'' then failure_body e
                       else if state = ''skipped'' then skipped_body e else [])
           in \<lparr> ja_cases = ja_cases acc @
                  [''  <testcase'' @ attr ''classname'' (xml_escape classname) @
                   attr ''name'' (xml_escape case_name) @ attr ''time'' (fixed 3 took) @
                   ''>'' @ body @ ''</testcase>''],
                ja_failures = ja_failures acc + (if state = ''failed'' then 1 else 0),
                ja_skipped = ja_skipped acc + (if state = ''skipped'' then 1 else 0),
                ja_seconds = ja_seconds acc + took \<rparr>))"

definition junit_scan :: "string \<Rightarrow> event list \<Rightarrow> junit_acc" where
  "junit_scan name events =
     (let ks = kept events in
      fold (junit_step name (with_cases ks) (failing_cases ks)) ks
        \<lparr> ja_cases = [], ja_failures = 0, ja_skipped = 0, ja_seconds = 0 \<rparr>)"

definition junit :: "event list \<Rightarrow> string \<Rightarrow> string" where
  "junit events name =
     (let acc = junit_scan name events;
          head = ''<testsuite'' @ attr ''name'' (xml_escape name) @
                 attr ''tests'' (show_nat (length (ja_cases acc))) @
                 attr ''failures'' (show_nat (ja_failures acc)) @
                 attr ''skipped'' (show_nat (ja_skipped acc)) @
                 attr ''time'' (fixed 3 (ja_seconds acc)) @ ''>''
      in join [LF] ([''<?xml version='' @ [CHR 0x22] @ ''1.0'' @ [CHR 0x22] @ '' encoding='' @
                     [CHR 0x22] @ ''UTF-8'' @ [CHR 0x22] @ ''?>'', head] @ ja_cases acc @
                    [''</testsuite>'', []]))"

section \<open>Facts\<close>

text \<open>What a reader of XML does with the entities the escape writes.\<close>

fun xml_unescape :: "string \<Rightarrow> string" where
  "xml_unescape [] = []"
| "xml_unescape (c # cs) =
     (if c \<noteq> CHR ''&'' then c # xml_unescape cs
      else if take 4 cs = ''amp;'' then CHR ''&'' # xml_unescape (drop 4 cs)
      else if take 3 cs = ''lt;'' then CHR ''<'' # xml_unescape (drop 3 cs)
      else if take 3 cs = ''gt;'' then CHR ''>'' # xml_unescape (drop 3 cs)
      else if take 5 cs = ''quot;'' then CHR 0x22 # xml_unescape (drop 5 cs)
      else c # xml_unescape cs)"

definition escape_char :: "char \<Rightarrow> string" where
  "escape_char c =
     (if c = CHR ''&'' then ''&amp;'' else if c = CHR ''<'' then ''&lt;''
      else if c = CHR ''>'' then ''&gt;'' else if c = CHR 0x22 then ''&quot;'' else [c])"

text \<open>The four replacements, one after the other, do what one pass would.\<close>

lemma xml_escape_one_pass: "xml_escape s = concat (map escape_char s)"
  by (induction s) (auto simp: xml_escape_def escape_char_def)

lemma xml_unescape_escape [simp]: "xml_unescape (concat (map escape_char s)) = s"
  by (induction s) (auto simp: escape_char_def)

lemma escape_char_clean: "x \<in> set (escape_char c) \<Longrightarrow> x \<noteq> CHR ''<'' \<and> x \<noteq> CHR ''>'' \<and> x \<noteq> CHR 0x22"
  by (auto simp: escape_char_def split: if_splits)

lemma junit_row_failed_case:
  "ev_kind e = K_CASE \<Longrightarrow> bad_outcome e \<Longrightarrow> \<exists>c n. junit_row name w f e = Some (''failed'', c, n)"
  by (simp add: junit_row_def)

definition row_state ::
  "string \<Rightarrow> string option set \<Rightarrow> string option set \<Rightarrow> event \<Rightarrow> string option" where
  "row_state name w f e = map_option fst (junit_row name w f e)"

lemma junit_fold_counts:
  "let acc' = fold (junit_step name w f) es acc in
     length (ja_cases acc') = length (ja_cases acc) + length (filter (\<lambda>e. row_state name w f e \<noteq> None) es) \<and>
     ja_failures acc' = ja_failures acc + length (filter (\<lambda>e. row_state name w f e = Some ''failed'') es) \<and>
     ja_skipped acc' = ja_skipped acc + length (filter (\<lambda>e. row_state name w f e = Some ''skipped'') es)"
proof (induction es arbitrary: acc)
  case Nil
  then show ?case by simp
next
  case (Cons e es)
  have "length (ja_cases (junit_step name w f e acc)) =
      length (ja_cases acc) + (if row_state name w f e \<noteq> None then 1 else 0)"
    "ja_failures (junit_step name w f e acc) =
      ja_failures acc + (if row_state name w f e = Some ''failed'' then 1 else 0)"
    "ja_skipped (junit_step name w f e acc) =
      ja_skipped acc + (if row_state name w f e = Some ''skipped'' then 1 else 0)"
    by (auto simp: junit_step_def row_state_def Let_def split: option.splits)
  with Cons [of "junit_step name w f e acc"] show ?case by (auto simp: Let_def)
qed

lemma bad_phase_has_failed_row:
  assumes e: "e \<in> set ks" and kind: "ev_kind e = K_PHASE_FINISHED"
    and bad: "data_str e ''state'' [] \<in> {''failed'', ''interrupted''}"
  shows "\<exists>d\<in>set ks. row_state name (with_cases ks) (failing_cases ks) d = Some ''failed''"
proof (cases "ev_phase e \<in> failing_cases ks")
  case True
  then obtain d where "d \<in> set ks" "ev_kind d = K_CASE" "bad_outcome d"
    by (auto simp: failing_cases_def)
  then show ?thesis using junit_row_failed_case [of d name] by (force simp: row_state_def)
next
  case False
  with kind bad have "row_state name (with_cases ks) (failing_cases ks) e = Some ''failed''"
    by (auto simp: row_state_def junit_row_def)
  with e show ?thesis by blast
qed

lemma failed_row_is_bad:
  assumes "e \<in> set (kept events)" and "row_state name w f e = Some ''failed''"
  shows "(ev_kind e = K_CASE \<and> bad_outcome e) \<or>
    (ev_kind e = K_PHASE_FINISHED \<and> data_str e ''state'' [] \<in> {''failed'', ''interrupted''})"
  using assms
  by (auto simp: row_state_def junit_row_def kept_def bad_outcome_def Let_def split: if_splits)

end
