(* ===== verification/Journal.thy ===== *)
theory Journal
  imports Events
begin

text \<open>
  \<^verbatim>\<open>src/pkgs/uml/uml/journal.py\<close>: a guest's journal, followed while the file grows.
  \<open>loads\<close> is \<open>json.loads\<close> (\<^const>\<open>None\<close> for \<open>JSONDecodeError\<close>), \<open>decode\<close> is
  \<open>bytes.decode("utf-8", "replace")\<close>; nothing is assumed of either. One \<open>read\<close> of the tail
  is a function of the size \<open>stat\<close> answered (\<^const>\<open>None\<close> for \<open>FileNotFoundError\<close>) and of the
  content found when the file was read.
\<close>

definition journal_FILE :: string where "journal_FILE = ''journal.jsonl''"

definition SETTLE :: string where "SETTLE = ''uml-settle''"

record entry =
  en_message :: string
  en_priority :: int
  en_unit :: "string option"
  en_identifier :: "string option"
  en_pid :: "int option"

definition entry_data :: "entry \<Rightarrow> jdict" where
  "entry_data e =
     [(''priority'', JInt (en_priority e))] @
     present [(''unit'', map_option JStr (en_unit e)),
              (''identifier'', map_option JStr (en_identifier e)),
              (''pid'', map_option JInt (en_pid e))]"

text \<open>\<open>isinstance(item, int)\<close>, which a \<open>bool\<close> is too.\<close>

definition as_int :: "json \<Rightarrow> int option" where
  "as_int v = (case v of JInt i \<Rightarrow> Some i | JBool b \<Rightarrow> Some (if b then 1 else 0) | _ \<Rightarrow> None)"

definition journal_text :: "(string \<Rightarrow> string) \<Rightarrow> json \<Rightarrow> string + string option" where
  "journal_text decode v =
     (case v of
        JNull \<Rightarrow> Inr None
      | JList xs \<Rightarrow>
          if list_all (\<lambda>x. as_int x \<noteq> None) xs then
            (let ns = map (\<lambda>x. the (as_int x)) xs in
             if list_all (\<lambda>n. 0 \<le> n \<and> n < 256) ns
             then Inr (Some (decode (map (\<lambda>n. char_of (nat n)) ns)))
             else Inl ''bytes must be in range(0, 256)'')
          else Inr (Some (join '' '' (map py_str xs)))
      | _ \<Rightarrow> Inr (Some (py_str v)))"

definition journal_int :: "json \<Rightarrow> int option" where
  "journal_int v = py_int (py_str v)"

definition journal_parse ::
  "(string \<Rightarrow> json option) \<Rightarrow> (string \<Rightarrow> string) \<Rightarrow> string \<Rightarrow> string + entry option" where
  "journal_parse loads decode line =
     (case loads line of
        None \<Rightarrow> Inr None
      | Some (JObj raw) \<Rightarrow>
          and_then (journal_text decode (jget raw ''MESSAGE'')) (\<lambda>message.
          and_then (journal_text decode (jget raw ''_SYSTEMD_UNIT'')) (\<lambda>unit.
          and_then (journal_text decode (jget raw ''SYSLOG_IDENTIFIER'')) (\<lambda>identifier.
            Inr (Some \<lparr> en_message = text_or message [],
                         en_priority = (case journal_int (jget raw ''PRIORITY'') of None \<Rightarrow> 6 | Some p \<Rightarrow> p),
                         en_unit = unit,
                         en_identifier = identifier,
                         en_pid = journal_int (jget raw ''_PID'') \<rparr>))))
      | Some _ \<Rightarrow> Inr None)"

definition journal_level :: "entry \<Rightarrow> level" where
  "journal_level e = (if en_priority e \<le> 3 then L_DETAIL else L_CONSOLE)"

text \<open>The complete lines of a buffer, and what comes after the last line feed.\<close>

definition journal_split :: "(string \<Rightarrow> string) \<Rightarrow> string \<Rightarrow> string list \<times> string" where
  "journal_split decode buffer =
     (let parts = split_on LF buffer in
      (map decode (filter (\<lambda>l. l \<noteq> []) (butlast parts)), last parts))"

record tail =
  tl_offset :: nat
  tl_rest :: string

definition fresh_tail :: tail where
  "fresh_tail = \<lparr> tl_offset = 0, tl_rest = [] \<rparr>"

definition streaming :: "tail \<Rightarrow> bool" where
  "streaming t = (tl_offset t > 0)"

definition tail_read ::
  "(string \<Rightarrow> string) \<Rightarrow> nat option \<Rightarrow> string \<Rightarrow> tail \<Rightarrow> string list \<times> tail" where
  "tail_read decode sz content t =
     (case sz of
        None \<Rightarrow> ([], t)
      | Some n \<Rightarrow>
         (let t = (if n < tl_offset t then fresh_tail else t) in
          if n = tl_offset t then ([], t)
          else
            (let data = take (n - tl_offset t) (drop (tl_offset t) content);
                 (lines, rest) = journal_split decode (tl_rest t @ data)
             in (lines, \<lparr> tl_offset = tl_offset t + length data, tl_rest = rest \<rparr>))))"

section \<open>Reading in pieces is reading at once\<close>

lemma journal_split_append:
  "journal_split decode (xs @ ys) =
     (case journal_split decode xs of (l1, r1) \<Rightarrow>
        (case journal_split decode (r1 @ ys) of (l2, r2) \<Rightarrow> (l1 @ l2, r2)))"
proof -
  obtain ps p where xs: "split_on LF xs = ps @ [p]"
    by (metis append_butlast_last_id split_on_nonempty)
  have p: "LF \<notin> set p" using split_on_fields [of p LF xs] xs by simp
  obtain q qs where ys: "split_on LF ys = q # qs"
    by (meson neq_Nil_conv split_on_nonempty)
  have "split_on LF (xs @ ys) = ps @ (p @ q) # qs"
    using xs ys by (simp add: split_on_app)
  moreover have "split_on LF (p @ ys) = (p @ q) # qs"
    using split_on_app [of LF p ys] p ys by (simp add: split_on_no_sep)
  ultimately show ?thesis using xs by (simp add: journal_split_def butlast_append)
qed

lemma journal_split_Nil [simp]: "journal_split decode [] = ([], [])"
  by (simp add: journal_split_def)

text \<open>Where the tail stands after following a file that holds \<open>content\<close>.\<close>

definition caught_up :: "(string \<Rightarrow> string) \<Rightarrow> string \<Rightarrow> tail \<Rightarrow> bool" where
  "caught_up decode content t =
     (tl_offset t = length content \<and> tl_rest t = snd (journal_split decode content))"

lemma caught_up_fresh [simp]: "caught_up decode [] fresh_tail"
  by (simp add: caught_up_def fresh_tail_def)

lemma tail_read_grown:
  assumes t: "caught_up decode old t"
  shows "tail_read decode (Some (length (old @ new))) (old @ new) t =
    (let (l, r) = journal_split decode (tl_rest t @ new)
     in (l, \<lparr> tl_offset = length (old @ new), tl_rest = r \<rparr>))"
proof (cases "new = []")
  case True
  have "LF \<notin> set (tl_rest t)"
    using t split_on_fields [of "last (split_on LF old)" LF old]
    by (simp add: caught_up_def journal_split_def Let_def)
  then have "journal_split decode (tl_rest t) = ([], tl_rest t)"
    by (simp add: journal_split_def split_on_no_sep)
  with True t show ?thesis by (cases t) (simp add: tail_read_def caught_up_def)
next
  case False
  with t show ?thesis by (simp add: tail_read_def caught_up_def Let_def split: prod.splits)
qed

lemma tail_read_step:
  assumes t: "caught_up decode old t"
    and read: "tail_read decode (Some (length (old @ new))) (old @ new) t = (ls, t')"
  shows "fst (journal_split decode old) @ ls = fst (journal_split decode (old @ new)) \<and>
    caught_up decode (old @ new) t'"
  using read t unfolding tail_read_grown [OF t]
  by (auto simp: journal_split_append [of decode old new] caught_up_def split: prod.splits)

text \<open>One read after each growth of the file.\<close>

fun follow_file :: "(string \<Rightarrow> string) \<Rightarrow> string \<Rightarrow> string list \<Rightarrow> tail \<Rightarrow> string list \<times> tail" where
  "follow_file decode content [] t = ([], t)"
| "follow_file decode content (new # pieces) t =
     (case tail_read decode (Some (length (content @ new))) (content @ new) t of
        (ls, t') \<Rightarrow> (case follow_file decode (content @ new) pieces t' of (ls', t'') \<Rightarrow> (ls @ ls', t'')))"

lemma follow_file_spec:
  "caught_up decode content t \<Longrightarrow> follow_file decode content pieces t = (ls, t') \<Longrightarrow>
     fst (journal_split decode content) @ ls = fst (journal_split decode (content @ concat pieces)) \<and>
     caught_up decode (content @ concat pieces) t'"
proof (induction pieces arbitrary: content t ls)
  case Nil
  then show ?case by simp
next
  case (Cons new pieces)
  obtain l1 t1 where r: "tail_read decode (Some (length (content @ new))) (content @ new) t = (l1, t1)"
    by (meson prod.exhaust)
  obtain l2 where f: "follow_file decode (content @ new) pieces t1 = (l2, t')" and ls: "ls = l1 @ l2"
    using Cons.prems(2) r by (auto split: prod.splits)
  from tail_read_step [OF Cons.prems(1) r]
  have "fst (journal_split decode content) @ l1 = fst (journal_split decode (content @ new))"
    and c: "caught_up decode (content @ new) t1" by auto
  with Cons.IH [OF c f] ls show ?case by (simp flip: append_assoc)
qed

end
