(* ===== verification/Monitor.thy ===== *)
theory Monitor
  imports Journal
begin

text \<open>
  \<^verbatim>\<open>src/pkgs/uml/uml/monitor.py\<close> and \<^verbatim>\<open>src/pkgs/uml/uml/junit_in.py\<close>: a run's events as a
  watcher of standard output sees them, and the JUnit documents a guest wrote, read back.
  The byte stream of the monitor's socket is the list of pieces \<open>receive\<close> answers; the list
  ends where the stream does.
\<close>

section \<open>monitor.py\<close>

definition terminal_events :: "string list" where
  "terminal_events = [''finished'', ''exited'']"

definition monitor_status :: "jdict \<Rightarrow> nat option" where
  "monitor_status event =
     (if jget event ''event'' = JStr ''finished''
      then Some (if jget event ''passed'' = JStr ''true'' then 0 else 1)
      else if jget event ''event'' = JStr ''exited'' then Some 2
      else None)"

definition monitor_line :: "(json \<Rightarrow> string) \<Rightarrow> jdict \<Rightarrow> bool \<Rightarrow> string" where
  "monitor_line dumps event as_js =
     (if as_js then dumps (JObj event)
      else
        (let head = join '' '' (map (\<lambda>k. py_str (jget event k))
                      (filter (\<lambda>k. truthy (jget event k)) [''run'', ''event'', ''phase'']));
             text = join '' | '' (map strip (filter (\<lambda>p. strip p \<noteq> [])
                      (splitlines (py_str (dict_get event ''text'' (JStr []))))))
         in if text = [] then head else head @ '': '' @ text))"

text \<open>
  \<open>locate\<close>: the run's directory, or its id under the temporary directory. The path \<open>/\<close> is
  \<open>Path.__truediv__\<close> for a relative second part.
\<close>

definition path_join :: "string \<Rightarrow> string \<Rightarrow> string" where
  "path_join a b = (if startswith b ''/'' then b else a @ ''/'' @ b)"

definition locate :: "(string \<Rightarrow> bool) \<Rightarrow> string \<Rightarrow> string \<Rightarrow> string" where
  "locate is_dir tempdir target =
     path_join (if is_dir target then target else path_join tempdir target) ''monitor.sock''"

text \<open>
  What \<open>follow\<close> printed and how it ended: an exit status, or the exception a line that is
  not a JSON object raises.
\<close>

datatype follow_end = Exit nat | Raised string

fun follow_lines ::
  "(string \<Rightarrow> json option) \<Rightarrow> (json \<Rightarrow> string) \<Rightarrow> bool \<Rightarrow> string list \<Rightarrow> string list \<times> follow_end option" where
  "follow_lines loads dumps as_js [] = ([], None)"
| "follow_lines loads dumps as_js (raw # raws) =
     (case loads raw of
        Some (JObj event) \<Rightarrow>
          (case monitor_status event of
             Some code \<Rightarrow> ([monitor_line dumps event as_js], Some (Exit code))
           | None \<Rightarrow>
              (case follow_lines loads dumps as_js raws of
                 (out, e) \<Rightarrow> (monitor_line dumps event as_js # out, e)))
      | Some v \<Rightarrow> (if as_js then [dumps v] else [], Some (Raised ''AttributeError''))
      | None \<Rightarrow> ([], Some (Raised ''JSONDecodeError'')))"

fun monitor_follow ::
  "(string \<Rightarrow> json option) \<Rightarrow> (json \<Rightarrow> string) \<Rightarrow> bool \<Rightarrow> string \<Rightarrow> string list \<Rightarrow> string list \<times> follow_end" where
  "monitor_follow loads dumps as_js buffer [] = ([], Exit 3)"
| "monitor_follow loads dumps as_js buffer (piece # pieces) =
     (let parts = split_on LF (buffer @ piece) in
      case follow_lines loads dumps as_js (butlast parts) of
        (out, Some e) \<Rightarrow> (out, e)
      | (out, None) \<Rightarrow>
          (case monitor_follow loads dumps as_js (last parts) pieces of (out', e) \<Rightarrow> (out @ out', e)))"

lemma follow_lines_append:
  "follow_lines loads dumps j (xs @ ys) =
     (case follow_lines loads dumps j xs of
        (out, Some e) \<Rightarrow> (out, Some e)
      | (out, None) \<Rightarrow> (case follow_lines loads dumps j ys of (out', e) \<Rightarrow> (out @ out', e)))"
  by (induction xs) (auto split: option.splits json.splits prod.splits)

text \<open>Where the stream was cut into pieces does not matter, only what it carried.\<close>

lemma monitor_follow_eq:
  assumes "LF \<notin> set buffer"
  shows "monitor_follow loads dumps j buffer pieces =
    (case follow_lines loads dumps j (butlast (split_on LF (buffer @ concat pieces))) of
       (out, Some e) \<Rightarrow> (out, e) | (out, None) \<Rightarrow> (out, Exit 3))"
  using assms
proof (induction pieces arbitrary: buffer)
  case Nil
  then show ?case by (simp add: split_on_no_sep)
next
  case (Cons p ps)
  obtain xs x where parts: "split_on LF (buffer @ p) = xs @ [x]"
    by (metis append_butlast_last_id split_on_nonempty)
  have x: "LF \<notin> set x" using split_on_fields [of x LF "buffer @ p"] parts by simp
  obtain q qs where rest: "split_on LF (concat ps) = q # qs"
    by (meson neq_Nil_conv split_on_nonempty)
  have whole: "split_on LF (buffer @ p @ concat ps) = xs @ (x @ q) # qs"
    using split_on_app [of LF "buffer @ p" "concat ps"] parts rest by simp
  have tl: "split_on LF (x @ concat ps) = (x @ q) # qs"
    using split_on_app [of LF x "concat ps"] rest x by (simp add: split_on_no_sep)
  let ?last = "butlast ((x @ q) # qs)"
  have "butlast (xs @ (x @ q) # qs) = xs @ ?last"
    by (simp add: butlast_append)
  moreover obtain o1 e1 where f1: "follow_lines loads dumps j xs = (o1, e1)"
    by (meson prod.exhaust)
  moreover obtain o2 e2 where f2: "follow_lines loads dumps j ?last = (o2, e2)"
    by (meson prod.exhaust)
  ultimately show ?case using Cons.IH [OF x] parts whole tl
    by (cases e1; cases e2) (simp_all add: follow_lines_append del: follow_lines.simps butlast.simps)
qed

section \<open>junit_in.py\<close>

text \<open>
  A parsed document: tag, attributes, text before the first child, children.
  \<open>fromstring\<close> is the standard library's XML parser and \<open>to_float\<close> its \<open>float\<close>; each
  answers \<^const>\<open>None\<close> where Python raises.
\<close>

datatype xml = Xml (xml_tag: string) (xml_attrs: "(string \<times> string) list")
  (xml_text: "string option") (xml_children: "xml list")

record guest_case =
  gc_name :: string
  gc_outcome :: string
  gc_seconds :: seconds
  gc_message :: "string option"
  gc_error :: "string option"
  gc_reason :: "string option"

definition xml_find :: "xml \<Rightarrow> string \<Rightarrow> xml option" where
  "xml_find x tag = List.find (\<lambda>c. xml_tag c = tag) (xml_children x)"

fun xml_iter :: "string \<Rightarrow> xml \<Rightarrow> xml list" where
  "xml_iter tag (Xml t a x cs) =
     (if t = tag then [Xml t a x cs] else []) @ concat (map (xml_iter tag) cs)"

text \<open>\<open>x or None\<close> of a string that may be absent.\<close>

definition or_none :: "string option \<Rightarrow> string option" where
  "or_none x = (if some_text x then x else None)"

definition junit_case :: "(string \<Rightarrow> seconds option) \<Rightarrow> xml \<Rightarrow> guest_case" where
  "junit_case to_float el =
     (let classname = dict_get (xml_attrs el) ''classname'' [];
          name = dict_get (xml_attrs el) ''name'' [];
          full = (if classname = [] then name else classname @ ''::'' @ name);
          time = dict_get (xml_attrs el) ''time'' ''0'';
          seconds = (if time = [] then 0 else (case to_float time of None \<Rightarrow> 0 | Some s \<Rightarrow> s));
          bad = (\<lambda>outcome f.
            \<lparr> gc_name = full, gc_outcome = outcome, gc_seconds = seconds,
              gc_message = or_none (map_of (xml_attrs f) ''message''),
              gc_error = or_none (Some (strip (text_or (xml_text f)
                            (text_or (map_of (xml_attrs f) ''message'') [])))),
              gc_reason = None \<rparr>)
      in case xml_find el ''failure'' of
           Some f \<Rightarrow> bad ''failed'' f
         | None \<Rightarrow>
            (case xml_find el ''error'' of
               Some f \<Rightarrow> bad ''error'' f
             | None \<Rightarrow>
                (case xml_find el ''skipped'' of
                   Some s \<Rightarrow> \<lparr> gc_name = full, gc_outcome = ''skipped'', gc_seconds = seconds,
                              gc_message = None, gc_error = None,
                              gc_reason = or_none (map_of (xml_attrs s) ''message'') \<rparr>
                 | None \<Rightarrow> \<lparr> gc_name = full, gc_outcome = ''passed'', gc_seconds = seconds,
                            gc_message = None, gc_error = None, gc_reason = None \<rparr>)))"

definition junit_parse ::
  "(string \<Rightarrow> string + xml) \<Rightarrow> (string \<Rightarrow> seconds option) \<Rightarrow> string \<Rightarrow> string + guest_case list" where
  "junit_parse fromstring to_float text =
     (case fromstring text of
        Inl error \<Rightarrow> Inl (''not JUnit XML: '' @ error)
      | Inr doc \<Rightarrow> Inr (map (junit_case to_float) (xml_iter ''testcase'' doc)))"

lemma junit_case_outcome:
  "gc_outcome (junit_case to_float el) = ''passed'' \<longleftrightarrow>
     xml_find el ''failure'' = None \<and> xml_find el ''error'' = None \<and> xml_find el ''skipped'' = None"
  by (auto simp: junit_case_def Let_def split: option.splits)

end
