(* ===== verification/Report.thy ===== *)
theory Report
  imports Json
begin

text \<open>
  \<^verbatim>\<open>src/pkgs/uml-runner/uml_runner/report.py\<close>: where a run spent its time. The clock is an
  argument, \<open>now\<close>, of every operation that reads it. Floats are exact rationals; the
  rounding the source applies to them is applied here.
\<close>

record rstep =
  rs_at :: seconds
  rs_machine :: string
  rs_kind :: string
  rs_what :: string
  rs_seconds :: seconds

record machine_facts =
  mf_facts :: jdict
  mf_boot_seconds :: seconds

record report =
  rp_started :: seconds
  rp_machines :: "(string, machine_facts) dict"
  rp_steps :: "rstep list"

definition report_width :: nat where "report_width = 200"

definition new_report :: "seconds \<Rightarrow> report" where
  "new_report now = \<lparr> rp_started = now, rp_machines = [], rp_steps = [] \<rparr>"

definition report_step ::
  "seconds \<Rightarrow> string \<Rightarrow> string \<Rightarrow> string \<Rightarrow> seconds \<Rightarrow> report \<Rightarrow> report" where
  "report_step now machine kind what secs r =
     r\<lparr>rp_steps := rp_steps r @
        [\<lparr> rs_at = py_round 3 (now - rp_started r - secs), rs_machine = machine, rs_kind = kind,
           rs_what = take report_width what, rs_seconds = py_round 3 secs \<rparr>]\<rparr>"

definition report_booted :: "seconds \<Rightarrow> string \<Rightarrow> seconds \<Rightarrow> jdict \<Rightarrow> report \<Rightarrow> report" where
  "report_booted now name secs facts r =
     report_step now name ''boot'' (''boot '' @ name) secs
       (r\<lparr>rp_machines := AList.update name
            \<lparr> mf_facts = facts, mf_boot_seconds = py_round 3 secs \<rparr> (rp_machines r)\<rparr>)"

text \<open>\<open>Report.waiting\<close>: the step is recorded when the block ends, however it ends.\<close>

definition report_waited :: "seconds \<Rightarrow> seconds \<Rightarrow> string \<Rightarrow> string \<Rightarrow> report \<Rightarrow> report" where
  "report_waited started now machine what r = report_step now machine ''wait'' what (now - started) r"

section \<open>Totals\<close>

text \<open>Round trips by the first two words of what they ran: calls and seconds.\<close>

definition command_key :: "string \<Rightarrow> string" where
  "command_key what = join '' '' (take 2 (py_split what))"

definition command_totals :: "rstep list \<Rightarrow> (string, nat \<times> seconds) dict" where
  "command_totals steps =
     fold (\<lambda>s t. if rs_kind s \<noteq> ''rpc'' then t
                 else (case dict_get t (command_key (rs_what s)) (0, 0) of
                         (n, x) \<Rightarrow> AList.update (command_key (rs_what s)) (n + 1, x + rs_seconds s) t))
       steps []"

definition by_command :: "rstep list \<Rightarrow> (string \<times> nat \<times> seconds) list" where
  "by_command steps =
     take 30 (sort_by (\<lambda>a b. snd (snd a) \<ge> snd (snd b))
       (map (\<lambda>(k, n, x). (k, n, py_round 3 x)) (command_totals steps)))"

text \<open>\<open>sorted(steps, key=lambda s: (s.at, -s.seconds))\<close>.\<close>

definition step_le :: "rstep \<Rightarrow> rstep \<Rightarrow> bool" where
  "step_le a b = (rs_at a < rs_at b \<or> (rs_at a = rs_at b \<and> rs_seconds a \<ge> rs_seconds b))"

fun toplevel_loop :: "seconds \<Rightarrow> seconds \<Rightarrow> rstep list \<Rightarrow> seconds" where
  "toplevel_loop elapsed fin [] = elapsed"
| "toplevel_loop elapsed fin (s # ss) =
     (if rs_at s \<ge> fin then toplevel_loop (elapsed + rs_seconds s) (rs_at s + rs_seconds s) ss
      else toplevel_loop elapsed fin ss)"

definition toplevel :: "rstep list \<Rightarrow> seconds" where
  "toplevel steps = toplevel_loop 0 (- 1) (sort_by step_le steps)"

definition boot_seconds :: "report \<Rightarrow> seconds" where
  "boot_seconds r = (if rp_machines r = [] then 0
     else Max (set (map (\<lambda>kv. mf_boot_seconds (snd kv)) (rp_machines r))))"

definition slowest_first :: "rstep \<Rightarrow> rstep \<Rightarrow> bool" where
  "slowest_first a b = (rs_seconds a \<ge> rs_seconds b)"

text \<open>The object \<open>Report.write\<close> prints.\<close>

definition step_json :: "rstep \<Rightarrow> json" where
  "step_json s = JObj
     [(''at'', JFloat (rs_at s)), (''machine'', JStr (rs_machine s)), (''kind'', JStr (rs_kind s)),
      (''what'', JStr (rs_what s)), (''seconds'', JFloat (rs_seconds s))]"

definition report_body :: "seconds \<Rightarrow> bool \<Rightarrow> string option \<Rightarrow> report \<Rightarrow> jdict" where
  "report_body now passed error r =
     (let elapsed = now - rp_started r;
          waited = sum_list (map rs_seconds (filter (\<lambda>s. rs_kind s = ''wait'') (rp_steps r)));
          accounted = toplevel (rp_steps r)
      in [(''passed'', JBool passed),
          (''error'', case error of None \<Rightarrow> JNull | Some e \<Rightarrow> JStr e),
          (''total_seconds'', JFloat (py_round 3 elapsed)),
          (''recorded_seconds'', JFloat (py_round 3 accounted)),
          (''unrecorded_seconds'', JFloat (py_round 3 (max (elapsed - accounted) 0))),
          (''boot_seconds'', JFloat (py_round 3 (boot_seconds r))),
          (''waiting_seconds'', JFloat (py_round 3 waited)),
          (''machines'', JObj (map (\<lambda>(n, m). (n, JObj (mf_facts m @ [(''boot_seconds'', JFloat (mf_boot_seconds m))])))
                             (rp_machines r))),
          (''by_command'', JList (map (\<lambda>(k, n, x). JObj [(''command'', JStr k), (''calls'', JInt (int n)),
                                    (''seconds'', JFloat x)]) (by_command (rp_steps r)))),
          (''slowest'', JList (map step_json (take 20 (sort_by slowest_first (rp_steps r))))),
          (''steps'', JList (map step_json (rp_steps r)))])"

definition report_summary :: "seconds \<Rightarrow> nat \<Rightarrow> report \<Rightarrow> string" where
  "report_summary now slowest r =
     (let elapsed = now - rp_started r;
          accounted = toplevel (rp_steps r);
          share = (if elapsed \<noteq> 0 then round_even (100 * accounted / elapsed) else 0)
      in join [LF]
         ((''[time] total '' @ fixed 1 elapsed @ ''s, recorded '' @ show_int share @ ''%, boot '' @
           fixed 1 (boot_seconds r) @ ''s'') #
          map (\<lambda>s. ''[time]   '' @ rjust 7 (fixed 1 (rs_seconds s)) @ ''s '' @ ljust 5 (rs_kind s) @ '' '' @
                   rs_what s @ '' ('' @ rs_machine s @ '')'')
            (take slowest (sort_by slowest_first (rp_steps r)))))"

section \<open>Nesting is counted once\<close>

definition step_end :: "rstep \<Rightarrow> seconds" where
  "step_end s = rs_at s + rs_seconds s"

text \<open>The steps the loop of \<open>toplevel\<close> adds up.\<close>

fun picked :: "seconds \<Rightarrow> rstep list \<Rightarrow> rstep list" where
  "picked fin [] = []"
| "picked fin (s # ss) = (if rs_at s \<ge> fin then s # picked (step_end s) ss else picked fin ss)"

definition outermost :: "rstep list \<Rightarrow> rstep list" where
  "outermost steps = picked (- 1) (sort_by step_le steps)"

lemma step_le_total: "step_le a b \<or> step_le b a"
  by (auto simp: step_le_def)

lemma step_le_trans: "step_le a b \<Longrightarrow> step_le b c \<Longrightarrow> step_le a c"
  by (auto simp: step_le_def)

lemma sorted_steps: "sorted_wrt step_le (sort_by step_le steps)"
  by (rule sorted_sort_by) (rule step_le_total, rule step_le_trans)

lemma toplevel_loop_picked:
  "toplevel_loop elapsed fin ss = elapsed + sum_list (map rs_seconds (picked fin ss))"
  by (induction ss arbitrary: elapsed fin) (auto simp: step_end_def)

lemma toplevel_eq: "toplevel steps = sum_list (map rs_seconds (outermost steps))"
  by (simp add: toplevel_def outermost_def toplevel_loop_picked)

lemma picked_subset: "set (picked fin ss) \<subseteq> set ss"
  by (induction ss arbitrary: fin) auto

lemma outermost_subset: "set (outermost steps) \<subseteq> set steps"
  using picked_subset by (fastforce simp: outermost_def)

lemma picked_after: "\<forall>s\<in>set ss. 0 \<le> rs_seconds s \<Longrightarrow> s \<in> set (picked fin ss) \<Longrightarrow> fin \<le> rs_at s"
  by (induction ss arbitrary: fin) (fastforce simp: step_end_def split: if_splits)+

lemma picked_disjoint:
  "\<forall>s\<in>set ss. 0 \<le> rs_seconds s \<Longrightarrow> sorted_wrt (\<lambda>a b. step_end a \<le> rs_at b) (picked fin ss)"
  by (induction ss arbitrary: fin) (auto dest: picked_after [rotated])

lemma picked_sum_bound:
  "\<forall>s\<in>set ss. 0 \<le> rs_seconds s \<and> step_end s \<le> hi \<Longrightarrow> fin \<le> hi \<Longrightarrow>
     sum_list (map rs_seconds (picked fin ss)) \<le> hi - fin"
proof (induction ss arbitrary: fin)
  case (Cons s ss)
  show ?case
  proof (cases "rs_at s \<ge> fin")
    case True
    have "sum_list (map rs_seconds (picked (step_end s) ss)) \<le> hi - step_end s"
      using Cons.prems by (intro Cons.IH) auto
    with True show ?thesis by (simp add: step_end_def)
  next
    case False
    with Cons show ?thesis by simp
  qed
qed simp

text \<open>
  Steps that nest or do not meet, as a wait and the round trips inside it do: of two,
  either one ends before the other begins or one lies inside the other.
\<close>

definition inside :: "rstep \<Rightarrow> rstep \<Rightarrow> bool" where
  "inside a b = (rs_at b \<le> rs_at a \<and> step_end a \<le> step_end b)"

definition apart_or_nested :: "rstep \<Rightarrow> rstep \<Rightarrow> bool" where
  "apart_or_nested a b =
     (step_end a \<le> rs_at b \<or> step_end b \<le> rs_at a \<or> inside a b \<or> inside b a)"

lemma picked_covers:
  assumes "sorted_wrt step_le ss"
    and "\<forall>s\<in>set ss. 0 \<le> rs_seconds s"
    and "\<forall>a\<in>insert o1 (set ss). \<forall>b\<in>insert o1 (set ss). apart_or_nested a b"
    and "fin = step_end o1" and "\<forall>s\<in>set ss. step_le o1 s" and "0 \<le> rs_seconds o1"
    and "s \<in> set ss"
  shows "inside s o1 \<or> (\<exists>p\<in>set (picked fin ss). inside s p)"
  using assms
proof (induction ss arbitrary: o1 fin)
  case Nil
  then show ?case by simp
next
  case (Cons x xs)
  show ?case
  proof (cases "rs_at x \<ge> fin")
    case True
    have "inside s x \<or> (\<exists>p\<in>set (picked (step_end x) xs). inside s p)"
    proof (cases "s = x")
      case False
      with Cons.prems show ?thesis by (intro Cons.IH) auto
    qed (simp add: inside_def)
    with True show ?thesis by auto
  next
    case False
    have in_o: "inside x o1"
    proof -
      have "apart_or_nested x o1" "step_le o1 x" "0 \<le> rs_seconds x" "0 \<le> rs_seconds o1"
        using Cons.prems by auto
      with False Cons.prems(4) show ?thesis
        by (auto simp: apart_or_nested_def inside_def step_le_def step_end_def)
    qed
    show ?thesis
    proof (cases "s = x")
      case True
      with in_o show ?thesis by blast
    next
      case neq: False
      with Cons.prems have "inside s o1 \<or> (\<exists>p\<in>set (picked fin xs). inside s p)"
        by (intro Cons.IH) auto
      with False show ?thesis by simp
    qed
  qed
qed

lemma outermost_covers:
  assumes pos: "\<forall>s\<in>set steps. 0 \<le> rs_seconds s \<and> - 1 \<le> rs_at s"
    and nest: "\<forall>a\<in>set steps. \<forall>b\<in>set steps. apart_or_nested a b"
    and s: "s \<in> set steps"
  shows "\<exists>p\<in>set (outermost steps). inside s p"
proof -
  obtain x xs where sorted: "sort_by step_le steps = x # xs"
    using s by (metis length_sort_by list.exhaust list.set_cases list.size(3) length_0_conv list.distinct(1))
  have in_steps: "set (x # xs) = set steps" using sorted by (metis set_sort_by)
  have "sorted_wrt step_le (x # xs)" using sorted_steps [of steps] sorted by simp
  moreover have "outermost steps = x # picked (step_end x) xs"
    using pos in_steps sorted by (auto simp: outermost_def)
  moreover have "inside s x \<or> (\<exists>p\<in>set (picked (step_end x) xs). inside s p)"
  proof (cases "s = x")
    case False
    with calculation(1) pos nest s in_steps show ?thesis
      by (intro picked_covers) auto
  qed (simp add: inside_def)
  ultimately show ?thesis by auto
qed

end
