(* ===== verification/Lan.thy ===== *)
theory Lan
  imports Py_Strings
begin

text \<open>
  \<^verbatim>\<open>src/pkgs/uml-runner/uml_runner/net.py\<close>: the L2 segments between guests. A socket is a
  number; the two ends of a pair are \<open>2 k\<close> and \<open>2 k + 1\<close>. The kernel holds, for each
  socket, the frames sent to it and not read yet, bounded as AF_UNIX bounds them, and which
  sockets have been closed. Reading an empty queue whose peer is closed is end of file.
\<close>

type_synonym sock = nat
type_synonym frame = string

definition peer :: "sock \<Rightarrow> sock" where
  "peer s = (if even s then s + 1 else s - 1)"

lemma peer_peer [simp]: "peer (peer s) = s"
  by (simp add: peer_def)

lemma peer_neq [simp]: "peer s \<noteq> s"
  by (simp add: peer_def) presburger

lemma peer_inject [simp]: "peer a = peer b \<longleftrightarrow> a = b"
  by (metis peer_peer)

record kernel =
  kn_next :: nat
  kn_queue :: "sock \<Rightarrow> frame list"
  kn_limit :: nat
  kn_closed :: "sock set"
  kn_readers :: "sock set"

definition FRAME_MAX :: nat where "FRAME_MAX = 65536"
definition BURST :: nat where "BURST = 64"

definition new_pair :: "kernel \<Rightarrow> (sock \<times> sock) \<times> kernel" where
  "new_pair k = ((2 * kn_next k, 2 * kn_next k + 1), k\<lparr>kn_next := kn_next k + 1\<rparr>)"

datatype recv_result = Frame frame | WouldBlock | Eof | RecvError

definition sock_recv :: "sock \<Rightarrow> kernel \<Rightarrow> recv_result \<times> kernel" where
  "sock_recv s k =
     (if s \<in> kn_closed k then (RecvError, k)
      else
        (case kn_queue k s of
           f # fs \<Rightarrow> (Frame (take FRAME_MAX f), k\<lparr>kn_queue := (kn_queue k)(s := fs)\<rparr>)
         | [] \<Rightarrow> (if peer s \<in> kn_closed k then Eof else WouldBlock, k)))"

text \<open>\<open>send\<close> answers whether the frame was taken: a full queue or a closed end is an \<open>OSError\<close>.\<close>

definition sock_send :: "sock \<Rightarrow> frame \<Rightarrow> kernel \<Rightarrow> bool \<times> kernel" where
  "sock_send s f k =
     (if s \<in> kn_closed k \<or> peer s \<in> kn_closed k \<or> length (kn_queue k (peer s)) \<ge> kn_limit k
      then (False, k)
      else (True, k\<lparr>kn_queue := (kn_queue k)(peer s := kn_queue k (peer s) @ [f])\<rparr>))"

section \<open>A segment\<close>

record lan =
  la_name :: string
  la_fds :: "(string, sock) dict"
  la_dropped :: nat
  la_guest_ends :: "sock list"
  la_ports :: "sock list"

fun hub_ports :: "string list \<Rightarrow> kernel \<Rightarrow> (string \<times> sock \<times> sock) list \<times> kernel" where
  "hub_ports [] k = ([], k)"
| "hub_ports (m # ms) k =
     (case new_pair k of ((host_end, guest_end), k') \<Rightarrow>
        case hub_ports ms k' of (ps, k'') \<Rightarrow> ((m, host_end, guest_end) # ps, k''))"

definition new_lan :: "string \<Rightarrow> string list \<Rightarrow> kernel \<Rightarrow> string + (lan \<times> kernel)" where
  "new_lan name members k =
     (case members of
        [] \<Rightarrow> Inl (''lan '' @ py_repr name @ '' has no machines on it'')
      | [m] \<Rightarrow>
          (case new_pair k of ((guest_end, host_end), k') \<Rightarrow>
             Inr (\<lparr> la_name = name, la_fds = [(m, guest_end)], la_dropped = 0,
                    la_guest_ends = [guest_end], la_ports = [host_end] \<rparr>, k'))
      | [m, n] \<Rightarrow>
          (case new_pair k of ((a, b), k') \<Rightarrow>
             Inr (\<lparr> la_name = name, la_fds = AList.update n b [(m, a)], la_dropped = 0,
                    la_guest_ends = [a, b], la_ports = [] \<rparr>, k'))
      | _ \<Rightarrow>
          (case hub_ports members k of (ps, k') \<Rightarrow>
             Inr (\<lparr> la_name = name,
                    la_fds = fold (\<lambda>(m, h, g). AList.update m g) ps [],
                    la_dropped = 0,
                    la_guest_ends = map (\<lambda>(m, h, g). g) ps,
                    la_ports = map (\<lambda>(m, h, g). h) ps \<rparr>, k')))"

definition others :: "lan \<Rightarrow> sock \<Rightarrow> sock list" where
  "others l port = filter (\<lambda>other. other \<noteq> port) (la_ports l)"

definition lan_start :: "lan \<Rightarrow> kernel \<Rightarrow> kernel" where
  "lan_start l k = k\<lparr>kn_readers := kn_readers k \<union> set (la_ports l)\<rparr>"

definition drop_port :: "sock \<Rightarrow> kernel \<Rightarrow> kernel" where
  "drop_port src k = k\<lparr>kn_readers := kn_readers k - {src}\<rparr>"

text \<open>One frame to every other port: what is dropped and the kernel after.\<close>

fun send_all :: "frame \<Rightarrow> sock list \<Rightarrow> nat \<Rightarrow> kernel \<Rightarrow> nat \<times> kernel" where
  "send_all f [] dropped k = (dropped, k)"
| "send_all f (d # ds) dropped k =
     (case sock_send d f k of (took, k') \<Rightarrow> send_all f ds (if took then dropped else dropped + 1) k')"

text \<open>The body of \<open>_flood\<close>, at most \<open>n\<close> frames of it.\<close>

fun flood_loop :: "nat \<Rightarrow> sock \<Rightarrow> sock list \<Rightarrow> nat \<Rightarrow> kernel \<Rightarrow> nat \<times> kernel" where
  "flood_loop 0 src ds dropped k = (dropped, k)"
| "flood_loop (Suc n) src ds dropped k =
     (case sock_recv src k of
        (WouldBlock, k') \<Rightarrow> (dropped, k')
      | (RecvError, k') \<Rightarrow> (dropped, drop_port src k')
      | (Eof, k') \<Rightarrow> (dropped, drop_port src k')
      | (Frame f, k') \<Rightarrow>
          (if f = [] then (dropped, drop_port src k')
           else (case send_all f ds dropped k' of (dropped', k'') \<Rightarrow> flood_loop n src ds dropped' k'')))"

definition flood :: "sock \<Rightarrow> lan \<Rightarrow> kernel \<Rightarrow> lan \<times> kernel" where
  "flood src l k =
     (case flood_loop BURST src (others l src) (la_dropped l) k of
        (dropped, k') \<Rightarrow> (l\<lparr>la_dropped := dropped\<rparr>, k'))"

definition lan_detach :: "lan \<Rightarrow> kernel \<Rightarrow> lan \<times> kernel" where
  "lan_detach l k =
     (l\<lparr>la_guest_ends := []\<rparr>, k\<lparr>kn_closed := kn_closed k \<union> set (la_guest_ends l)\<rparr>)"

definition lan_close :: "lan \<Rightarrow> kernel \<Rightarrow> string list \<times> lan \<times> kernel" where
  "lan_close l k =
     (let said = (if la_dropped l \<noteq> 0
          then [''[test] lan '' @ la_name l @ '': dropped '' @ show_nat (la_dropped l) @ '' frames on congested ports'']
          else []);
          k1 = k\<lparr>kn_readers := kn_readers k - set (la_ports l)\<rparr>
      in case lan_detach l k1 of (l2, k2) \<Rightarrow>
           (said, l2\<lparr>la_ports := []\<rparr>, k2\<lparr>kn_closed := kn_closed k2 \<union> set (la_ports l2)\<rparr>))"

fun build_each :: "(string \<times> string list) list \<Rightarrow> kernel \<Rightarrow> string + (lan list \<times> kernel)" where
  "build_each [] k = Inr ([], k)"
| "build_each ((name, members) # rest) k =
     and_then (new_lan name members k) (\<lambda>(l, k').
     and_then (build_each rest k') (\<lambda>(ls, k''). Inr (l # ls, k'')))"

definition build_lans :: "(string, string list) dict \<Rightarrow> kernel \<Rightarrow> string + (lan list \<times> kernel)" where
  "build_lans networks k = build_each (sort_by (\<lambda>a b. str_le (fst a) (fst b)) networks) k"

section \<open>Facts\<close>

text \<open>What reaches a socket's queue as a list of frames, whatever else is in it.\<close>

lemma sock_send_queue:
  "sock_send d f k = (took, k') \<Longrightarrow>
     kn_queue k' = (if took then (kn_queue k)(peer d := kn_queue k (peer d) @ [f]) else kn_queue k) \<and>
     kn_closed k' = kn_closed k \<and> kn_limit k' = kn_limit k \<and> kn_readers k' = kn_readers k \<and>
     kn_next k' = kn_next k"
  by (auto simp: sock_send_def split: if_splits)

text \<open>
  One frame sent to several ports: every receiver's queue grows by the frame or stays as it
  was, and the ports it stayed at are the ones counted.
\<close>

definition refused :: "kernel \<Rightarrow> sock \<Rightarrow> bool" where
  "refused k d = (d \<in> kn_closed k \<or> peer d \<in> kn_closed k \<or> length (kn_queue k (peer d)) \<ge> kn_limit k)"

lemma sock_send_refused: "fst (sock_send d f k) = (\<not> refused k d)"
  by (simp add: sock_send_def refused_def)

lemma send_all_spec:
  assumes "distinct ds" and "send_all f ds dropped k = (dropped', k')"
  shows "dropped' = dropped + length (filter (refused k) ds) \<and>
    (\<forall>q. kn_queue k' q = (if q \<in> peer ` {d \<in> set ds. \<not> refused k d} then kn_queue k q @ [f] else kn_queue k q)) \<and>
    kn_closed k' = kn_closed k \<and> kn_limit k' = kn_limit k \<and> kn_readers k' = kn_readers k \<and> kn_next k' = kn_next k"
  using assms
proof (induction ds arbitrary: dropped k)
  case Nil
  then show ?case by simp
next
  case (Cons d ds)
  obtain took k1 where s: "sock_send d f k = (took, k1)" by (meson prod.exhaust)
  have took: "took = (\<not> refused k d)" using sock_send_refused [of d f k] s by simp
  note k1 = sock_send_queue [OF s]
  have same: "refused k1 e = refused k e" if "e \<in> set ds" for e
    using k1 that Cons.prems(1) by (auto simp: refused_def)
  have filt: "filter (refused k1) ds = filter (refused k) ds"
    by (rule filter_cong) (auto simp: same)
  have sets: "{e \<in> set ds. \<not> refused k1 e} = {e \<in> set ds. \<not> refused k e}"
    using same by auto
  have rest: "send_all f ds (if took then dropped else dropped + 1) k1 = (dropped', k')"
    using Cons.prems(2) s by simp
  have d: "d \<notin> set ds" "distinct ds" using Cons.prems(1) by auto
  from Cons.IH [OF d(2) rest] show ?case
    using k1 took d(1) by (auto simp: filt sets image_iff)
qed

lemma hub_ports_spec:
  "hub_ports ms k = (ps, k') \<Longrightarrow>
     map fst ps = ms \<and>
     map (\<lambda>(m, h, g). h) ps = map (\<lambda>i. 2 * i) [kn_next k ..< kn_next k + length ms] \<and>
     (\<forall>(m, h, g)\<in>set ps. g = peer h) \<and> kn_next k' = kn_next k + length ms \<and>
     kn_queue k' = kn_queue k"
proof (induction ms arbitrary: k ps)
  case Nil
  then show ?case by simp
next
  case (Cons m ms)
  obtain qs where h: "hub_ports ms (k\<lparr>kn_next := kn_next k + 1\<rparr>) = (qs, k')"
    and ps: "ps = (m, 2 * kn_next k, 2 * kn_next k + 1) # qs"
    using Cons.prems by (auto simp: new_pair_def split: prod.splits)
  from Cons.IH [OF h] show ?case
    by (auto simp: ps peer_def upt_rec [of "kn_next k"] simp del: upt_Suc)
qed

text \<open>
  With room everywhere, flooding takes frames off the port's queue, oldest first, and puts each on the
  queue of every other guest; the sender hears nothing back and nothing is dropped.
\<close>

definition room_for :: "nat \<Rightarrow> kernel \<Rightarrow> sock \<Rightarrow> bool" where
  "room_for n k d =
     (d \<notin> kn_closed k \<and> peer d \<notin> kn_closed k \<and> length (kn_queue k (peer d)) + n \<le> kn_limit k)"

lemma send_all_roomy:
  assumes "distinct ds" "\<forall>d\<in>set ds. room_for (Suc n) k d" "send_all f ds dropped k = (dropped', k')"
  shows "dropped' = dropped \<and>
    kn_queue k' = (\<lambda>q. if q \<in> peer ` set ds then kn_queue k q @ [f] else kn_queue k q) \<and>
    kn_closed k' = kn_closed k \<and> (\<forall>d\<in>set ds. room_for n k' d)"
proof -
  have none: "filter (refused k) ds = []" "{d \<in> set ds. \<not> refused k d} = set ds"
    using assms(2) by (auto simp: filter_empty_conv refused_def room_for_def)
  from send_all_spec [OF assms(1,3)] assms(2) show ?thesis
    unfolding none by (auto simp: room_for_def fun_eq_iff)
qed

lemma flood_loop_delivers:
  assumes "distinct ds" "src \<notin> peer ` set ds" "src \<notin> kn_closed k" "\<forall>d\<in>set ds. room_for n k d"
    "\<forall>f\<in>set (kn_queue k src). f \<noteq> [] \<and> length f \<le> FRAME_MAX" "flood_loop n src ds dropped k = (dropped', k')"
  shows "dropped' = dropped \<and> kn_queue k' src = drop n (kn_queue k src) \<and>
    (\<forall>d\<in>set ds. kn_queue k' (peer d) = kn_queue k (peer d) @ take n (kn_queue k src)) \<and>
    (\<forall>q. q \<noteq> src \<longrightarrow> q \<notin> peer ` set ds \<longrightarrow> kn_queue k' q = kn_queue k q)"
  using assms
proof (induction n arbitrary: dropped k)
  case 0
  then show ?case by simp
next
  case (Suc n)
  show ?case
  proof (cases "kn_queue k src")
    case Nil
    with Suc.prems(3,6) show ?thesis
      by (auto simp: sock_recv_def drop_port_def split: if_splits)
  next
    case (Cons f fs)
    let ?k1 = "k\<lparr>kn_queue := (kn_queue k)(src := fs)\<rparr>"
    have f: "f \<noteq> []" "take FRAME_MAX f = f" using Suc.prems(5) Cons by auto
    obtain dr k2 where s: "send_all f ds dropped ?k1 = (dr, k2)" by (meson prod.exhaust)
    have rest: "flood_loop n src ds dr k2 = (dropped', k')"
      using Suc.prems(3,6) Cons f s by (simp add: sock_recv_def)
    have room: "\<forall>d\<in>set ds. room_for (Suc n) ?k1 d"
      using Suc.prems(2,4) by (auto simp: room_for_def)
    note sent = send_all_roomy [OF Suc.prems(1) room s]
    have q: "kn_queue k2 src = fs" using sent Suc.prems(2) by simp
    have ih: "dropped' = dr \<and> kn_queue k' src = drop n (kn_queue k2 src) \<and>
      (\<forall>d\<in>set ds. kn_queue k' (peer d) = kn_queue k2 (peer d) @ take n (kn_queue k2 src)) \<and>
      (\<forall>q. q \<noteq> src \<longrightarrow> q \<notin> peer ` set ds \<longrightarrow> kn_queue k' q = kn_queue k2 q)"
    proof (rule Suc.IH)
      show "\<forall>f\<in>set (kn_queue k2 src). f \<noteq> [] \<and> length f \<le> FRAME_MAX" using Suc.prems(5) Cons q by simp
    qed (use Suc.prems(1,2,3) sent rest in auto)
    have "peer d \<noteq> src" if "d \<in> set ds" for d using Suc.prems(2) that by auto
    then show ?thesis using ih sent q Cons by auto
  qed
qed

end
