(* ===== verification/Forward.thy ===== *)
theory Forward
  imports Json
begin

text \<open>
  \<^verbatim>\<open>src/pkgs/uml-runner/uml_runner/forward.py\<close>: turning port-forward rules into passt
  arguments. What the host answers is an argument: the text of the two files under
  \<open>/proc/sys/net/ipv4\<close> (\<^const>\<open>None\<close> when unreadable) and \<open>can_bind\<close>, whether a socket
  binds on an address and port. A bind of a port outside 0 to 65535 is Python's
  \<open>OverflowError\<close>, which is no \<open>OSError\<close> and so escapes the probe.
\<close>

datatype forward_error =
    ForwardError string
  | PyError string

record port_map =
  pm_host :: int
  pm_guest :: int

datatype ports = AllPorts | Ports "port_map list"

record rule =
  ru_address :: "string option"
  ru_ports :: ports
  ru_protocols :: "string list"
  ru_remap :: bool
  ru_offset :: int

section \<open>From JSON\<close>

definition int_field :: "jdict \<Rightarrow> string \<Rightarrow> forward_error + int" where
  "int_field d k = (case map_of d k of None \<Rightarrow> Inl (PyError ''KeyError'')
     | Some (JInt i) \<Rightarrow> Inr i | Some _ \<Rightarrow> Inl (PyError ''TypeError''))"

definition port_from_json :: "json \<Rightarrow> forward_error + port_map" where
  "port_from_json v =
     (case v of
        JInt i \<Rightarrow> Inr \<lparr> pm_host = i, pm_guest = i \<rparr>
      | JObj d \<Rightarrow> and_then (int_field d ''host'') (\<lambda>h. and_then (int_field d ''guest'')
                   (\<lambda>g. Inr \<lparr> pm_host = h, pm_guest = g \<rparr>))
      | _ \<Rightarrow> Inl (PyError ''TypeError''))"

definition port_str :: "port_map \<Rightarrow> string" where
  "port_str p = (if pm_host p = pm_guest p then show_int (pm_host p)
     else show_int (pm_host p) @ '':'' @ show_int (pm_guest p))"

definition opt_text :: "json \<Rightarrow> forward_error + string option" where
  "opt_text v = (case v of JNull \<Rightarrow> Inr None | JStr s \<Rightarrow> Inr (Some s) | _ \<Rightarrow> Inl (PyError ''TypeError''))"

definition str_item :: "json \<Rightarrow> forward_error + string" where
  "str_item v = (case v of JStr s \<Rightarrow> Inr s | _ \<Rightarrow> Inl (PyError ''TypeError''))"

definition rule_from_json :: "jdict \<Rightarrow> forward_error + rule" where
  "rule_from_json d =
     and_then (opt_text (jget d ''address'')) (\<lambda>address.
     and_then (case dict_get d ''ports'' (JStr ''all'') of
                 JStr s \<Rightarrow> if s = ''all'' then Inr AllPorts else Inl (PyError ''TypeError'')
               | JList xs \<Rightarrow> and_then (map_result port_from_json xs) (\<lambda>ps. Inr (Ports ps))
               | _ \<Rightarrow> Inl (PyError ''TypeError'')) (\<lambda>ports.
     and_then (case dict_get d ''protocols'' (JList [JStr ''tcp'']) of
                 JList xs \<Rightarrow> map_result str_item xs
               | _ \<Rightarrow> Inl (PyError ''TypeError'')) (\<lambda>protocols.
     and_then (case map_of d ''privilegedOffset'' of None \<Rightarrow> Inr 10000
               | Some _ \<Rightarrow> int_field d ''privilegedOffset'') (\<lambda>offset.
       Inr \<lparr> ru_address = address, ru_ports = ports, ru_protocols = protocols,
             ru_remap = truthy (dict_get d ''remapPrivileged'' (JBool True)), ru_offset = offset \<rparr>))))"

definition wide :: "rule \<Rightarrow> bool" where
  "wide r = (ru_ports r = AllPorts)"

definition sentinel_port :: int where "sentinel_port = 65534"

definition host_ports :: "rule \<Rightarrow> int list" where
  "host_ports r = (case ru_ports r of AllPorts \<Rightarrow> [sentinel_port] | Ports ps \<Rightarrow> map pm_host ps)"

section \<open>The host's limits\<close>

definition read_ints :: "string option \<Rightarrow> int list \<Rightarrow> int list" where
  "read_ints content fallback =
     (case content of None \<Rightarrow> fallback
      | Some t \<Rightarrow> (let fields = map py_int (py_split t) in
          if list_all (\<lambda>f. f \<noteq> None) fields then map the fields else fallback))"

definition unprivileged_start :: "string option \<Rightarrow> forward_error + int" where
  "unprivileged_start content =
     (case read_ints content [1024] of [] \<Rightarrow> Inl (PyError ''IndexError'') | i # _ \<Rightarrow> Inr i)"

definition ephemeral_range :: "string option \<Rightarrow> int \<times> int" where
  "ephemeral_range content =
     (case read_ints content [32768, 60999] of [lo, hi] \<Rightarrow> (lo, hi) | _ \<Rightarrow> (32768, 60999))"

section \<open>Resolution\<close>

fun remap_ports :: "bool \<Rightarrow> int \<Rightarrow> int \<Rightarrow> port_map list \<Rightarrow> port_map list \<times> string list" where
  "remap_ports remap offset start [] = ([], [])"
| "remap_ports remap offset start (p # ps) =
     (case remap_ports remap offset start ps of (kept, notes) \<Rightarrow>
        if pm_host p \<ge> start then (p # kept, notes)
        else if remap then
          (let moved = p\<lparr>pm_host := pm_host p + offset\<rparr> in
           (moved # kept,
            (''host port '' @ show_int (pm_host p) @ '' needs privileges we do not have; forwarding '' @
             show_int (pm_host moved) @ '' -> guest '' @ show_int (pm_guest p) @ '' instead'') # notes))
        else
          (kept,
           (''host port '' @ show_int (pm_host p) @
            '' needs privileges we do not have and remapPrivileged is off; guest '' @
            show_int (pm_guest p) @ '' is unreachable'') # notes))"

definition remap_rule :: "rule \<Rightarrow> int \<Rightarrow> rule \<times> string list" where
  "remap_rule r start =
     (if start \<le> 1 then (r, [])
      else
        (case ru_ports r of
           AllPorts \<Rightarrow>
             (if \<not> ru_remap r then
                (r, [''ports below '' @ show_int start @ '' are not forwarded (remapPrivileged is off)''])
              else
                (r, [''ports 1-'' @ show_int (start - 1) @
                     '' need privileges the host will not give us; reaching them on '' @
                     show_int (ru_offset r + 1) @ ''-'' @ show_int (ru_offset r + start - 1) @ '' instead'']))
         | Ports ps \<Rightarrow>
             (case remap_ports (ru_remap r) (ru_offset r) start ps of
                (kept, notes) \<Rightarrow> (r\<lparr>ru_ports := Ports kept\<rparr>, notes))))"

text \<open>\<open>_probe\<close>: the first port that will not bind.\<close>

fun probe_ports :: "(string \<Rightarrow> int \<Rightarrow> bool) \<Rightarrow> string \<Rightarrow> int list \<Rightarrow> forward_error + int option" where
  "probe_ports can_bind address [] = Inr None"
| "probe_ports can_bind address (p # ps) =
     (if p < 0 \<or> p > 65535 then Inl (PyError ''OverflowError'')
      else if can_bind address p then probe_ports can_bind address ps
      else Inr (Some p))"

definition octet_address :: "nat \<Rightarrow> string" where
  "octet_address n = ''127.0.0.'' @ show_nat n"

fun assign_loop ::
  "(string \<Rightarrow> int \<Rightarrow> bool) \<Rightarrow> int list \<Rightarrow> string set \<Rightarrow> nat list \<Rightarrow> forward_error + string" where
  "assign_loop can_bind wants taken [] =
     Inl (ForwardError (''no free address in 127.0.0.2-254 for ports '' @ join '', '' (map show_int wants)))"
| "assign_loop can_bind wants taken (n # ns) =
     (if octet_address n \<in> taken then assign_loop can_bind wants taken ns
      else and_then (probe_ports can_bind (octet_address n) wants)
             (\<lambda>clash. if clash = None then Inr (octet_address n)
                      else assign_loop can_bind wants taken ns))"

definition assign :: "(string \<Rightarrow> int \<Rightarrow> bool) \<Rightarrow> rule list \<Rightarrow> string set \<Rightarrow> forward_error + string" where
  "assign can_bind rules taken =
     assign_loop can_bind (sort_by (\<le>) (remdups (concat (map host_ports rules)))) taken [2 ..< 255]"

fun remap_all :: "int \<Rightarrow> rule list \<Rightarrow> rule list \<times> string list" where
  "remap_all start [] = ([], [])"
| "remap_all start (r # rs) =
     (case remap_rule r start of (r', said) \<Rightarrow>
        case remap_all start rs of (rs', notes) \<Rightarrow>
          ((if wide r' \<or> ru_ports r' \<noteq> Ports [] then r' # rs' else rs'),
           map (\<lambda>note. (case ru_address r' of None \<Rightarrow> ''None'' | Some a \<Rightarrow> a) @ '': '' @ note) said @ notes))"

definition with_address :: "string \<Rightarrow> rule \<Rightarrow> rule" where
  "with_address a r = (if ru_address r = None then r\<lparr>ru_address := Some a\<rparr> else r)"

text \<open>The rules, the notes and the set of addresses taken, which is updated in place.\<close>

definition resolve ::
  "(string \<Rightarrow> int \<Rightarrow> bool) \<Rightarrow> int \<Rightarrow> rule list \<Rightarrow> string set \<Rightarrow>
     forward_error + (rule list \<times> string list \<times> string set)" where
  "resolve can_bind start rules taken =
     (let unaddressed = filter (\<lambda>r. ru_address r = None) rules in
      if unaddressed = [] then
        (case remap_all start rules of (rs, notes) \<Rightarrow> Inr (rs, notes, taken))
      else
        and_then (assign can_bind unaddressed taken) (\<lambda>address.
          case remap_all start (map (with_address address) rules) of
            (rs, notes) \<Rightarrow> Inr (rs, notes, insert address taken)))"

fun probe_rules :: "(string \<Rightarrow> int \<Rightarrow> bool) \<Rightarrow> rule list \<Rightarrow> forward_error + unit" where
  "probe_rules can_bind [] = Inr ()"
| "probe_rules can_bind (r # rs) =
     (case ru_address r of
        None \<Rightarrow> Inl (PyError ''AssertionError'')
      | Some a \<Rightarrow>
          and_then (probe_ports can_bind a (host_ports r)) (\<lambda>clash.
            case clash of
              None \<Rightarrow> probe_rules can_bind rs
            | Some p \<Rightarrow> Inl (ForwardError (''cannot forward '' @
                (if wide r then ''every port'' else ''port '' @ show_int p) @ '' on '' @ a @ '': '' @
                a @ '':'' @ show_int p @ '' is already bound''))))"

section \<open>passt arguments\<close>

text \<open>
  The specs of a rule, as passt reads them, and how they print. A \<open>WideSpec\<close> binds every port
  outside the excluded ranges to the same guest port; a \<open>BlockSpec\<close> binds a block to the guest
  ports from 1 on.
\<close>

datatype passt_spec =
    NarrowSpec "port_map list"
  | WideSpec "(int \<times> int) list"
  | BlockSpec int int int

definition show_range :: "int \<Rightarrow> int \<Rightarrow> string" where
  "show_range lo hi = show_int lo @ ''-'' @ show_int hi"

fun show_spec :: "passt_spec \<Rightarrow> string" where
  "show_spec (NarrowSpec ps) = join '','' (map port_str ps)"
| "show_spec (WideSpec rs) = join '','' (map (\<lambda>(lo, hi). ''~'' @ show_range lo hi) rs)"
| "show_spec (BlockSpec lo hi n) = show_range lo hi @ '':1-'' @ show_int n"

definition spec_list :: "rule \<Rightarrow> int \<Rightarrow> int \<times> int \<Rightarrow> passt_spec list" where
  "spec_list r start ephemeral =
     (case ru_ports r of
        Ports ps \<Rightarrow> [NarrowSpec (sort_by (\<lambda>a b. pm_host a \<le> pm_host b) ps)]
      | AllPorts \<Rightarrow>
          if start > 1 \<and> ru_remap r then
            [WideSpec [ephemeral, (ru_offset r + 1, ru_offset r + start - 1)],
             BlockSpec (ru_offset r + 1) (ru_offset r + start - 1) (start - 1)]
          else [WideSpec [ephemeral]])"

definition address_text :: "rule \<Rightarrow> string" where
  "address_text r = (case ru_address r of None \<Rightarrow> ''None'' | Some a \<Rightarrow> a)"

definition specs :: "rule \<Rightarrow> int \<Rightarrow> int \<times> int \<Rightarrow> string list" where
  "specs r start ephemeral = map (\<lambda>s. address_text r @ ''/'' @ show_spec s) (spec_list r start ephemeral)"

definition protocol_flag :: "string \<Rightarrow> forward_error + string" where
  "protocol_flag p = (if p = ''tcp'' then Inr ''--tcp-ports''
     else if p = ''udp'' then Inr ''--udp-ports'' else Inl (PyError ''KeyError''))"

definition rule_args :: "int \<Rightarrow> int \<times> int \<Rightarrow> rule \<Rightarrow> forward_error + string list" where
  "rule_args start ephemeral r =
     and_then (map_result (\<lambda>s. and_then (map_result (\<lambda>p. and_then (protocol_flag p) (\<lambda>f. Inr [f, s]))
         (ru_protocols r)) (\<lambda>xs. Inr (concat xs))) (specs r start ephemeral)) (\<lambda>xss. Inr (concat xss))"

definition to_args :: "int \<Rightarrow> int \<times> int \<Rightarrow> rule list \<Rightarrow> forward_error + string list" where
  "to_args start ephemeral rules =
     and_then (map_result (rule_args start ephemeral) rules) (\<lambda>xss. Inr (concat xss))"

definition rule_reachable :: "int \<Rightarrow> int \<Rightarrow> int \<times> int \<Rightarrow> rule \<Rightarrow> int list" where
  "rule_reachable guest_port start ephemeral r =
     (case ru_ports r of
        AllPorts \<Rightarrow>
          (if fst ephemeral \<le> guest_port \<and> guest_port \<le> snd ephemeral then []
           else if guest_port \<ge> start then [guest_port]
           else if ru_remap r then [guest_port + ru_offset r]
           else [])
      | Ports ps \<Rightarrow> map pm_host (filter (\<lambda>p. pm_guest p = guest_port) ps))"

definition reachable :: "rule list \<Rightarrow> int \<Rightarrow> int \<Rightarrow> int \<times> int \<Rightarrow> string list" where
  "reachable rules guest_port start ephemeral =
     concat (map (\<lambda>r. map (\<lambda>p. address_text r @ '':'' @ show_int p)
                       (rule_reachable guest_port start ephemeral r)) rules)"

definition uplink_args :: "string option \<Rightarrow> bool \<Rightarrow> string list" where
  "uplink_args env_dns offline =
     (let upstream = (case env_dns of None \<Rightarrow> ''1.1.1.1'' | Some d \<Rightarrow> if d = [] then ''1.1.1.1'' else d) in
      [''--address'', ''10.0.2.15'', ''--netmask'', ''24'', ''--gateway'', ''10.0.2.2'',
       ''--dns-forward'', ''10.0.2.3'', ''--dns-host'', upstream] @
      (if offline then [''--outbound'', ''127.0.0.1''] else []))"

section \<open>What passt does with a spec\<close>

text \<open>
  The forwarding passt documents for each kind of spec: the guest port a host port leads to.
  An exclusion-only spec is weak, so below \<open>start\<close>, where a bind fails, it forwards nothing.
\<close>

definition spec_forwards :: "int \<Rightarrow> passt_spec \<Rightarrow> int \<Rightarrow> int \<Rightarrow> bool" where
  "spec_forwards start s host guest =
     (case s of
        NarrowSpec ps \<Rightarrow> \<lparr> pm_host = host, pm_guest = guest \<rparr> \<in> set ps
      | WideSpec rs \<Rightarrow> host = guest \<and> start \<le> host \<and> list_all (\<lambda>(lo, hi). \<not> (lo \<le> host \<and> host \<le> hi)) rs
      | BlockSpec lo hi n \<Rightarrow> lo \<le> host \<and> host \<le> hi \<and> guest = host - lo + 1 \<and> guest \<le> n)"

definition rule_forwards :: "int \<Rightarrow> int \<times> int \<Rightarrow> rule \<Rightarrow> int \<Rightarrow> int \<Rightarrow> bool" where
  "rule_forwards start ephemeral r host guest =
     list_ex (\<lambda>s. spec_forwards start s host guest) (spec_list r start ephemeral)"

text \<open>The guest ports whose own number is inside the block the privileged ports moved to.\<close>

definition shadowed :: "int \<Rightarrow> rule \<Rightarrow> int \<Rightarrow> bool" where
  "shadowed start r guest =
     (wide r \<and> ru_remap r \<and> start > 1 \<and> ru_offset r + 1 \<le> guest \<and> guest \<le> ru_offset r + start - 1)"

section \<open>Facts\<close>

lemma remap_ports_kept:
  "remap_ports remap offset start ps = (kept, said) \<Longrightarrow> q \<in> set kept \<Longrightarrow>
     \<exists>p\<in>set ps. pm_guest q = pm_guest p \<and>
       (q = p \<and> start \<le> pm_host p \<or> remap \<and> pm_host p < start \<and> pm_host q = pm_host p + offset)"
  by (induction ps arbitrary: kept said) (fastforce split: prod.splits if_splits simp: Let_def)+

lemma remap_rule_fields:
  "remap_rule r start = (r', said) \<Longrightarrow>
     ru_address r' = ru_address r \<and> ru_protocols r' = ru_protocols r \<and> ru_remap r' = ru_remap r \<and>
     ru_offset r' = ru_offset r \<and> wide r' = wide r"
  by (auto simp: remap_rule_def wide_def split: if_splits ports.splits prod.splits)

lemma remap_rule_ports:
  assumes "remap_rule r start = (r', said)" and "ru_ports r' = Ports kept" and "q \<in> set kept"
    and "1 < start"
  shows "\<exists>ps. ru_ports r = Ports ps \<and> (\<exists>p\<in>set ps. pm_guest q = pm_guest p \<and>
    (q = p \<and> start \<le> pm_host p \<or> ru_remap r \<and> pm_host p < start \<and> pm_host q = pm_host p + ru_offset r))"
  using assms
  by (auto simp: remap_rule_def split: if_splits ports.splits prod.splits dest: remap_ports_kept)

lemma remap_all_from:
  "remap_all start rs = (rs', said) \<Longrightarrow> r' \<in> set rs' \<Longrightarrow>
     \<exists>r\<in>set rs. (\<exists>n. remap_rule r start = (r', n)) \<and> ru_ports r' \<noteq> Ports []"
  by (induction rs arbitrary: rs' said)
    (fastforce split: prod.splits if_splits simp: wide_def)+

lemma probe_ports_free:
  "probe_ports can_bind a ps = Inr None \<Longrightarrow> p \<in> set ps \<Longrightarrow> can_bind a p"
  by (induction ps) (auto split: if_splits)

lemma assign_loop_ok:
  "assign_loop can_bind wants taken ns = Inr a \<Longrightarrow>
     a \<notin> taken \<and> (\<exists>n\<in>set ns. a = octet_address n) \<and> (\<forall>p\<in>set wants. can_bind a p)"
  by (induction ns) (auto simp: and_then_Inr dest: probe_ports_free split: if_splits)

lemma assign_ok:
  assumes "assign can_bind rules taken = Inr a"
  shows "a \<notin> taken \<and> (\<exists>n. 2 \<le> n \<and> n < 255 \<and> a = octet_address n) \<and>
    (\<forall>r\<in>set rules. \<forall>p\<in>set (host_ports r). can_bind a p)"
proof -
  let ?w = "sort_by (\<le>) (remdups (concat (map host_ports rules)))"
  have "assign_loop can_bind ?w taken [2 ..< 255] = Inr a"
    using assms by (simp only: assign_def)
  then have "a \<notin> taken \<and> (\<exists>n\<in>set [2 ..< 255]. a = octet_address n) \<and> (\<forall>p\<in>set ?w. can_bind a p)"
    by (rule assign_loop_ok)
  then show ?thesis unfolding set_upt by auto
qed

lemma resolve_none:
  assumes "resolve can_bind start rules taken = Inr (rs, said, taken')"
    and "filter (\<lambda>r. ru_address r = None) rules = []"
  shows "taken' = taken \<and> remap_all start rules = (rs, said)"
  using assms by (simp add: resolve_def split: prod.splits)

lemma resolve_some:
  assumes "resolve can_bind start rules taken = Inr (rs, said, taken')"
    and "filter (\<lambda>r. ru_address r = None) rules \<noteq> []"
  shows "\<exists>a. assign can_bind (filter (\<lambda>r. ru_address r = None) rules) taken = Inr a \<and>
    taken' = insert a taken \<and> remap_all start (map (with_address a) rules) = (rs, said)"
  using assms unfolding resolve_def Let_def
  by (simp only: if_False and_then_Inr) (force split: prod.split_asm)

lemma rule_forwards_narrow:
  "ru_ports r = Ports ps \<Longrightarrow>
     rule_forwards start eph r host guest \<longleftrightarrow> \<lparr> pm_host = host, pm_guest = guest \<rparr> \<in> set ps"
  by (simp add: rule_forwards_def spec_list_def spec_forwards_def)

lemma rule_reachable_narrow:
  assumes "ru_ports r = Ports ps"
  shows "host \<in> set (rule_reachable guest start eph r) \<longleftrightarrow> \<lparr> pm_host = host, pm_guest = guest \<rparr> \<in> set ps"
proof -
  have "host \<in> set (rule_reachable guest start eph r) \<longleftrightarrow>
      (\<exists>p\<in>set ps. pm_host p = host \<and> pm_guest p = guest)"
    using assms by (auto simp: rule_reachable_def)
  also have "\<dots> \<longleftrightarrow> \<lparr> pm_host = host, pm_guest = guest \<rparr> \<in> set ps"
    by (metis port_map.surjective port_map.select_convs old.unit.exhaust)
  finally show ?thesis .
qed

end
