(* ===== verification/Machine_Spec.thy ===== *)
theory Machine_Spec
  imports Forward
begin

text \<open>
  \<^verbatim>\<open>src/pkgs/uml-runner/uml_runner/machine.py\<close>, the part that is data: \<open>Toolchain\<close> and
  \<open>MachineSpec\<close>, read from the dictionaries Nix wrote. A missing required key is Python's
  \<open>KeyError\<close>; a value of a type Nix never writes there is a \<open>TypeError\<close>.
\<close>

definition text_field :: "jdict \<Rightarrow> string \<Rightarrow> string \<Rightarrow> forward_error + string" where
  "text_field d k v = (case map_of d k of None \<Rightarrow> Inr v | Some x \<Rightarrow> str_item x)"

definition num_field :: "jdict \<Rightarrow> string \<Rightarrow> int \<Rightarrow> forward_error + int" where
  "num_field d k v = (case map_of d k of None \<Rightarrow> Inr v | Some _ \<Rightarrow> int_field d k)"

definition required :: "jdict \<Rightarrow> string \<Rightarrow> forward_error + string" where
  "required d k = (case map_of d k of None \<Rightarrow> Inl (PyError ''KeyError'') | Some x \<Rightarrow> str_item x)"

record toolchain =
  tc_passt :: string
  tc_kernel :: "string option"
  tc_bridge :: "string option"
  tc_qemu :: "string option"
  tc_qemu_img :: "string option"
  tc_virtiofsd :: "string option"
  tc_crun :: "string option"
  tc_setpriv :: "string option"

definition maybe_path :: "(string, string) dict \<Rightarrow> string \<Rightarrow> string option" where
  "maybe_path d k = (case map_of d k of None \<Rightarrow> None | Some v \<Rightarrow> if v = [] then None else Some v)"

definition toolchain_from_json :: "(string, string) dict \<Rightarrow> forward_error + toolchain" where
  "toolchain_from_json d =
     (case map_of d ''passt'' of
        None \<Rightarrow> Inl (PyError ''KeyError'')
      | Some passt \<Rightarrow>
          Inr \<lparr> tc_passt = passt, tc_kernel = maybe_path d ''kernel'', tc_bridge = maybe_path d ''bridge'',
                tc_qemu = maybe_path d ''qemu'', tc_qemu_img = maybe_path d ''qemuImg'',
                tc_virtiofsd = maybe_path d ''virtiofsd'', tc_crun = maybe_path d ''crun'',
                tc_setpriv = maybe_path d ''setpriv'' \<rparr>)"

record machine_spec =
  mp_name :: string
  mp_backend :: string
  mp_index :: int
  mp_image :: "string option"
  mp_memory :: string
  mp_seccomp :: string
  mp_cpus :: int
  mp_ssh_port :: int
  mp_mtu :: int
  mp_network :: "string option"
  mp_address :: "string option"
  mp_store :: string
  mp_boot :: jdict
  mp_forward :: "rule list"

definition object_field :: "jdict \<Rightarrow> string \<Rightarrow> forward_error + jdict" where
  "object_field d k = (case map_of d k of None \<Rightarrow> Inr [] | Some (JObj o1) \<Rightarrow> Inr o1
     | Some _ \<Rightarrow> Inl (PyError ''TypeError''))"

definition rule_item :: "json \<Rightarrow> forward_error + rule" where
  "rule_item v = (case v of JObj d \<Rightarrow> rule_from_json d | _ \<Rightarrow> Inl (PyError ''AttributeError''))"

definition forward_field :: "jdict \<Rightarrow> forward_error + rule list" where
  "forward_field d = (case map_of d ''forward'' of None \<Rightarrow> Inr []
     | Some (JList xs) \<Rightarrow> map_result rule_item xs | Some _ \<Rightarrow> Inl (PyError ''TypeError''))"

definition machine_from_json :: "jdict \<Rightarrow> forward_error + machine_spec" where
  "machine_from_json d =
     and_then (opt_text (jget d ''image'')) (\<lambda>image.
     and_then (required d ''name'') (\<lambda>name.
     and_then (text_field d ''backend'' ''uml'') (\<lambda>backend.
     and_then (num_field d ''index'' 0) (\<lambda>index.
     and_then (text_field d ''memory'' ''128M'') (\<lambda>memory.
     and_then (text_field d ''seccomp'' ''auto'') (\<lambda>seccomp.
     and_then (num_field d ''cpus'' 1) (\<lambda>cpus.
     and_then (num_field d ''sshPort'' 4325) (\<lambda>ssh_port.
     and_then (num_field d ''mtu'' 65000) (\<lambda>mtu.
     and_then (opt_text (jget d ''network'')) (\<lambda>network.
     and_then (opt_text (jget d ''address'')) (\<lambda>address.
     and_then (text_field d ''store'' ''/nix'') (\<lambda>store.
     and_then (object_field d ''boot'') (\<lambda>boot.
     and_then (forward_field d) (\<lambda>fwd.
       Inr \<lparr> mp_name = name, mp_backend = backend, mp_index = index,
             mp_image = (case image of None \<Rightarrow> None | Some i \<Rightarrow> if i = [] then None else Some i),
             mp_memory = memory, mp_seccomp = seccomp, mp_cpus = cpus, mp_ssh_port = ssh_port,
             mp_mtu = mtu, mp_network = network, mp_address = address, mp_store = store,
             mp_boot = boot, mp_forward = fwd \<rparr>))))))))))))))"

text \<open>\<open>MachineSpec.ip\<close>: the address without its prefix length.\<close>

definition machine_ip :: "machine_spec \<Rightarrow> string option" where
  "machine_ip m = (case mp_address m of None \<Rightarrow> None
     | Some a \<Rightarrow> if a = [] then None else Some (hd (split_on (CHR ''/'') a)))"

definition machine_mac :: "machine_spec \<Rightarrow> nat \<Rightarrow> string" where
  "machine_mac m nic = ''52:54:00:12:'' @ hex2 nic @ '':'' @ hex2 (nat (mp_index m))"

end
