(* ===== verification/Pytest_Plugin.thy ===== *)
theory Pytest_Plugin
  imports Events
begin

text \<open>
  \<^verbatim>\<open>src/pkgs/uml/uml/pytest_plugin.py\<close>: pytest as a phase. pytest is not part of the
  repository: what it reports about a test is a record, and the plugin is a fold over the
  reports it is handed. Events it sends go through the session's \<open>emit\<close>, so they are
  collected here in order.
\<close>

record test_report =
  tr_nodeid :: string
  tr_when :: string
  tr_outcome :: string
  tr_duration :: seconds
  tr_sections :: "(string \<times> string) list"
  tr_longreprtext :: string
  tr_crash :: "string option"
  tr_reason :: "string option"

record plugin =
  pl_phase :: string
  pl_by_hand :: bool
  pl_outcomes :: "(string, nat) dict"
  pl_sent :: "event list"

definition new_plugin :: "string \<Rightarrow> bool \<Rightarrow> plugin" where
  "new_plugin phase by_hand =
     \<lparr> pl_phase = phase, pl_by_hand = by_hand, pl_outcomes = [], pl_sent = [] \<rparr>"

definition plugin_marks :: "plugin \<Rightarrow> jdict" where
  "plugin_marks p = (if pl_by_hand p then [(''by_hand'', JBool True)] else [])"

definition plugin_emit :: "kind \<Rightarrow> string \<Rightarrow> level \<Rightarrow> seconds option \<Rightarrow> jdict \<Rightarrow> plugin \<Rightarrow> plugin" where
  "plugin_emit k text l secs said p =
     p\<lparr>pl_sent := pl_sent p @ [mk_event k text l None (Some (pl_phase p)) secs (plugin_marks p @ said)]\<rparr>"

definition bad_word :: "string \<Rightarrow> bool" where
  "bad_word outcome = (outcome = ''failed'' \<or> outcome = ''error'')"

definition plugin_case ::
  "string \<Rightarrow> string \<Rightarrow> string \<Rightarrow> seconds \<Rightarrow> test_report \<Rightarrow> plugin \<Rightarrow> plugin" where
  "plugin_case nodeid outcome stage secs r p =
     (let p1 = p\<lparr>pl_outcomes := AList.update outcome (dict_get (pl_outcomes p) outcome 0 + 1) (pl_outcomes p)\<rparr>;
          bad = bad_word outcome;
          said = [(''outcome'', JStr outcome), (''when'', JStr stage)] @
            (if bad then (''error'', JStr (tr_longreprtext r)) #
                         (case tr_crash r of None \<Rightarrow> [] | Some m \<Rightarrow> [(''message'', JStr m)])
             else if outcome = ''skipped'' then
                         (case tr_reason r of None \<Rightarrow> [] | Some m \<Rightarrow> [(''reason'', JStr m)])
             else []);
          p2 = plugin_emit K_CASE nodeid (if bad then L_ERROR else L_INFO) (Some secs) said p1
      in if bad then plugin_emit K_ERROR (tr_longreprtext r) L_ERROR None [(''case'', JStr nodeid)] p2
         else p2)"

definition report_output :: "test_report \<Rightarrow> plugin \<Rightarrow> plugin" where
  "report_output r p =
     fold (\<lambda>(title, content) p.
             if title = ''Captured stdout '' @ tr_when r then
               fold (\<lambda>line p. if strip line = [] then p
                       else plugin_emit K_OUTPUT line L_INFO None [(''case'', JStr (tr_nodeid r))] p)
                 (splitlines content) p
             else p)
       (tr_sections r) p"

text \<open>What a report says of its test: nothing, for the phases of a test that went well.\<close>

definition report_verdict :: "test_report \<Rightarrow> string option" where
  "report_verdict r =
     (if tr_when r = ''call'' then Some (tr_outcome r)
      else if tr_outcome r = ''failed'' then Some ''error''
      else if tr_outcome r = ''skipped'' \<and> tr_when r = ''setup'' then Some ''skipped''
      else None)"

definition logreport :: "test_report \<Rightarrow> plugin \<Rightarrow> plugin" where
  "logreport r p =
     (let p1 = report_output r p in
      case report_verdict r of
        None \<Rightarrow> p1
      | Some outcome \<Rightarrow> plugin_case (tr_nodeid r) outcome (tr_when r) (tr_duration r) r p1)"

definition collectreport :: "test_report \<Rightarrow> plugin \<Rightarrow> plugin" where
  "collectreport r p =
     (if tr_outcome r = ''failed''
      then plugin_case (if tr_nodeid r = [] then pl_phase p else tr_nodeid r) ''error'' ''collect'' 0 r p
      else p)"

definition plugin_summary :: "plugin \<Rightarrow> string" where
  "plugin_summary p =
     (let parts = concat (map (\<lambda>n. let c = dict_get (pl_outcomes p) n 0 in
                                   if c = 0 then [] else [show_nat c @ '' '' @ n])
                           [''failed'', ''error'', ''passed'', ''skipped''])
      in if parts = [] then ''no tests ran'' else join '', '' parts)"

definition arguments :: "string \<Rightarrow> string list \<Rightarrow> string list" where
  "arguments tests extra =
     [tests, ''-p'', ''no:terminal'', ''-p'', ''no:cacheprovider'', ''--capture=sys'',
      ''--import-mode=importlib''] @ extra"

section \<open>Facts\<close>

text \<open>The counter and the \<open>case\<close> events agree: every test counted is one event, marked alike.\<close>

definition cases_sent :: "plugin \<Rightarrow> string \<Rightarrow> nat" where
  "cases_sent p outcome =
     length (filter (\<lambda>e. ev_kind e = K_CASE \<and> jget (ev_data e) ''outcome'' = JStr outcome) (pl_sent p))"

definition counts_agree :: "plugin \<Rightarrow> bool" where
  "counts_agree p =
     (\<forall>outcome. dict_get (pl_outcomes p) outcome 0 = cases_sent p outcome)"

definition marks_ok :: "plugin \<Rightarrow> bool" where
  "marks_ok p = (\<forall>e\<in>set (pl_sent p). truthy (jget (ev_data e) ''by_hand'') = pl_by_hand p)"

lemma cases_sent_emit:
  "cases_sent (plugin_emit k t l s fs p) outcome =
     cases_sent p outcome +
     (if k = K_CASE \<and> jget (plugin_marks p @ fs) ''outcome'' = JStr outcome then 1 else 0)"
  by (simp add: cases_sent_def plugin_emit_def)

lemma plugin_emit_fields [simp]:
  "pl_outcomes (plugin_emit k t l s fs p) = pl_outcomes p"
  "pl_by_hand (plugin_emit k t l s fs p) = pl_by_hand p"
  "pl_phase (plugin_emit k t l s fs p) = pl_phase p"
  "plugin_marks (plugin_emit k t l s fs p) = plugin_marks p"
  by (simp_all add: plugin_emit_def plugin_marks_def)

lemma marks_ok_emit:
  "marks_ok p \<Longrightarrow> ''by_hand'' \<notin> fst ` set fs \<Longrightarrow> marks_ok (plugin_emit k t l s fs p)"
  by (force simp: marks_ok_def plugin_emit_def plugin_marks_def jget_def dict_get_def
      split: option.splits dest: map_of_SomeD)

text \<open>What the plugin has sent and counted, from any report on.\<close>

definition plugin_ok :: "plugin \<Rightarrow> plugin \<Rightarrow> bool" where
  "plugin_ok p0 p =
     (counts_agree p \<and> marks_ok p \<and> pl_phase p = pl_phase p0 \<and> pl_by_hand p = pl_by_hand p0 \<and>
      prefix (pl_sent p0) (pl_sent p))"

lemma plugin_ok_refl: "counts_agree p \<Longrightarrow> marks_ok p \<Longrightarrow> plugin_ok p p"
  by (simp add: plugin_ok_def)

lemma plugin_ok_new: "plugin_ok (new_plugin phase by_hand) (new_plugin phase by_hand)"
  by (simp add: plugin_ok_def new_plugin_def counts_agree_def marks_ok_def cases_sent_def dict_get_def)

lemma plugin_ok_trans: "plugin_ok p q \<Longrightarrow> plugin_ok q r \<Longrightarrow> plugin_ok p r"
  by (auto simp: plugin_ok_def intro: prefix_order.trans)

lemma plugin_emit_prefix: "prefix xs (pl_sent p) \<Longrightarrow> prefix xs (pl_sent (plugin_emit k t l s fs p))"
  by (simp add: plugin_emit_def)

lemma plugin_ok_emit:
  assumes "plugin_ok p0 p" "k \<noteq> K_CASE" "''by_hand'' \<notin> fst ` set fs"
  shows "plugin_ok p0 (plugin_emit k t l s fs p)"
  using assms marks_ok_emit [of p fs k t l s]
  by (simp add: plugin_ok_def counts_agree_def cases_sent_emit plugin_emit_prefix)

lemma jget_marks: "k \<noteq> ''by_hand'' \<Longrightarrow> jget (plugin_marks p @ fs) k = jget fs k"
  by (simp add: plugin_marks_def jget_def dict_get_def)

lemma plugin_ok_case:
  assumes "plugin_ok p0 p"
  shows "plugin_ok p0 (plugin_case nodeid outcome stage secs r p)"
proof -
  define p1 where "p1 = p\<lparr>pl_outcomes := AList.update outcome (dict_get (pl_outcomes p) outcome 0 + 1) (pl_outcomes p)\<rparr>"
  have same: "pl_sent p1 = pl_sent p" "pl_by_hand p1 = pl_by_hand p" "pl_phase p1 = pl_phase p"
    by (simp_all add: p1_def)
  have counted: "plugin_ok p0 (plugin_emit K_CASE nodeid l (Some secs) fs p1)"
    if o: "jget fs ''outcome'' = JStr outcome" and fs: "''by_hand'' \<notin> fst ` set fs" for fs l
  proof -
    have "counts_agree (plugin_emit K_CASE nodeid l (Some secs) fs p1)"
      using assms o by (auto simp: plugin_ok_def counts_agree_def cases_sent_emit jget_marks)
        (auto simp: p1_def cases_sent_def dict_get_update)
    moreover have "marks_ok p1" using assms same by (simp add: plugin_ok_def marks_ok_def)
    ultimately show ?thesis using assms same marks_ok_emit [OF _ fs]
      by (simp add: plugin_ok_def plugin_emit_prefix)
  qed
  show ?thesis
    unfolding plugin_case_def Let_def p1_def [symmetric]
    by (auto intro!: plugin_ok_emit counted split: option.split simp: jget_def dict_get_def)
qed

lemma plugin_ok_output: "plugin_ok p0 p \<Longrightarrow> plugin_ok p0 (report_output r p)"
  unfolding report_output_def
  by (rule fold_keeps [where P = "plugin_ok p0"])
    (auto intro!: fold_keeps [where P = "plugin_ok p0"] plugin_ok_emit split: prod.split)

lemma plugin_ok_reports:
  "plugin_ok p0 p \<Longrightarrow> plugin_ok p0 (logreport r p)" "plugin_ok p0 p \<Longrightarrow> plugin_ok p0 (collectreport r p)"
  by (auto simp: logreport_def collectreport_def Let_def intro: plugin_ok_case plugin_ok_output split: option.split)

end
