(* ===== verification/Session.thy ===== *)
theory Session
  imports Phases Journal Monitor Report Lan Machine_Spec Pytest_Plugin
begin

text \<open>
  \<^verbatim>\<open>src/pkgs/uml/uml/session.py\<close>, first part: the state of a run and what speaks through it.

  A \<open>session\<close> holds the attributes of the class, and beside them the world its methods look at:
  the monotonic clock (\<open>se_now\<close>), the journal files of the guests as the host sees them
  (\<open>se_files\<close>), the sockets of the segments (\<open>se_sockets\<close>), what reached the real standard
  output (\<open>se_printed\<close>), \<open>sys.path\<close> and \<open>sys.modules\<close>. The sink is the stream of events it was handed
  (\<^const>\<open>None\<close> for a session without one); \<open>Sinks\<close> says what each sink makes of a stream.

  A method that may raise returns the exception, if any, beside the session it leaves.
\<close>

datatype exn = Exn (ex_type: string) (ex_text: string) | Cancelled

definition is_exception :: "exn \<Rightarrow> bool" where
  "is_exception e = (case e of Exn _ _ \<Rightarrow> True | Cancelled \<Rightarrow> False)"

text \<open>\<open>OSError\<close> and the classes of the standard library below it.\<close>

definition OS_ERRORS :: "string list" where
  "OS_ERRORS = [''OSError'', ''BlockingIOError'', ''ChildProcessError'', ''ConnectionError'', ''BrokenPipeError'',
     ''ConnectionAbortedError'', ''ConnectionRefusedError'', ''ConnectionResetError'', ''FileExistsError'',
     ''FileNotFoundError'', ''InterruptedError'', ''IsADirectoryError'', ''NotADirectoryError'', ''PermissionError'',
     ''ProcessLookupError'', ''TimeoutError'']"

definition is_os_error :: "exn \<Rightarrow> bool" where
  "is_os_error e = (case e of Exn n _ \<Rightarrow> n \<in> set OS_ERRORS | Cancelled \<Rightarrow> False)"

abbreviation SessionError :: "string \<Rightarrow> exn" where "SessionError m \<equiv> Exn ''SessionError'' m"
abbreviation CasesFailed :: "string \<Rightarrow> exn" where "CasesFailed m \<equiv> Exn ''CasesFailed'' m"
abbreviation MachineError :: "string \<Rightarrow> exn" where "MachineError m \<equiv> Exn ''MachineError'' m"

record guest =
  gu_spec :: machine_spec
  gu_history :: "string list"
  gu_alive :: bool

record session =
  se_spec :: spec
  se_kernel :: "string option"
  se_out :: string
  se_offline :: bool
  se_sink :: "event list option"
  se_pytest_args :: "string list"
  se_case :: "string option"
  se_started :: seconds
  se_state :: states
  se_errors :: "(string, string) dict"
  se_running :: "(string, string) dict"
  se_captures :: nat
  se_stdout_lines :: bool
  se_vms :: "(string, guest) dict option"
  se_report :: report
  se_lans :: "lan list"
  se_booted :: bool
  se_journals :: "(string, tail) dict"
  se_settled :: "string set"
  se_junit_seen :: "((string \<times> string) \<times> int) set"
  se_now :: seconds
  se_files :: "(string, string) dict"
  se_sockets :: kernel
  se_printed :: string
  se_path :: "string list"
  se_written :: "(string, string) dict"

type_synonym outcome = "exn option \<times> session"

text \<open>\<open>sys.path\<close> gains the spec's directories, in order, each unless it is there already.\<close>

definition add_path :: "string list \<Rightarrow> string list \<Rightarrow> string list" where
  "add_path dirs path = fold (\<lambda>d p. if d \<in> set p then p else d # p) (rev dirs) path"

definition initial_states :: "phase_spec list \<Rightarrow> states" where
  "initial_states ps = fold (\<lambda>p st. AList.update (ph_name p) PENDING st) ps []"

definition new_session ::
  "spec \<Rightarrow> string \<Rightarrow> bool \<Rightarrow> bool \<Rightarrow> string list \<Rightarrow> string option \<Rightarrow> seconds \<Rightarrow> string list \<Rightarrow> kernel \<Rightarrow> session" where
  "new_session sp out offline has_sink pytest_args krn now path sockets =
     \<lparr> se_spec = sp, se_kernel = krn, se_out = out, se_offline = offline,
       se_sink = (if has_sink then Some [] else None), se_pytest_args = pytest_args,
       se_case = None, se_started = now, se_state = initial_states (sp_phases sp),
       se_errors = [], se_running = [], se_captures = 0, se_stdout_lines = False,
       se_vms = None, se_report = new_report now, se_lans = [], se_booted = False,
       se_journals = [], se_settled = {}, se_junit_seen = {}, se_now = now, se_files = [],
       se_sockets = sockets, se_printed = [], se_path = add_path (sp_pythonPath sp) path,
       se_written = [] \<rparr>"

section \<open>Events\<close>

definition emit :: "event \<Rightarrow> session \<Rightarrow> session" where
  "emit e s = (case se_sink s of None \<Rightarrow> s
     | Some es \<Rightarrow> s\<lparr>se_sink := Some (es @ [e\<lparr>ev_at := se_now s - se_started s\<rparr>])\<rparr>)"

definition emits :: "event list \<Rightarrow> session \<Rightarrow> session" where
  "emits es s = fold emit es s"

definition in_case :: "session \<Rightarrow> jdict" where
  "in_case s = (case se_case s of None \<Rightarrow> [] | Some c \<Rightarrow> [(''case'', JStr c)])"

text \<open>The callbacks a guest is given: \<open>_console\<close> and \<open>_command\<close>.\<close>

definition on_console :: "string \<Rightarrow> string \<Rightarrow> session \<Rightarrow> session" where
  "on_console machine line = emit (mk_event K_CONSOLE line L_CONSOLE (Some machine) None None [])"

definition on_command :: "string \<Rightarrow> string \<Rightarrow> seconds \<Rightarrow> session \<Rightarrow> session" where
  "on_command machine what secs s =
     emit (mk_event K_RPC what L_DETAIL (Some machine) (map_of (se_running s) machine) (Some secs)
             (in_case s)) s"

section \<open>Printing\<close>

text \<open>
  \<open>_Lines.write\<close> and \<open>_capture\<close>. \<open>sys.stdout\<close> is process-wide: \<open>se_stdout_lines\<close> says that it is the
  writer that turns lines into events. Which phase is printing is a context variable of the
  task that prints, so it is an argument of \<open>task_print\<close>.
\<close>

definition lines_write :: "string option \<Rightarrow> string \<Rightarrow> session \<Rightarrow> session" where
  "lines_write phase text s =
     emits (map (\<lambda>line. mk_event K_OUTPUT line L_INFO None phase None [])
                (filter (\<lambda>line. strip line \<noteq> []) (splitlines text))) s"

definition task_print :: "string option \<Rightarrow> string \<Rightarrow> session \<Rightarrow> session" where
  "task_print phase text s =
     (if se_stdout_lines s then lines_write phase text s
      else s\<lparr>se_printed := se_printed s @ text\<rparr>)"

definition capture_enter :: "session \<Rightarrow> session" where
  "capture_enter s =
     (let s1 = (if se_captures s = 0 then s\<lparr>se_stdout_lines := True\<rparr> else s)
      in s1\<lparr>se_captures := se_captures s1 + 1\<rparr>)"

definition capture_exit :: "session \<Rightarrow> session" where
  "capture_exit s =
     (let s1 = s\<lparr>se_captures := se_captures s - 1\<rparr>
      in if se_captures s1 = 0 then s1\<lparr>se_stdout_lines := False\<rparr> else s1)"

text \<open>\<open>_replay\<close>: the end of each guest's console, as errors.\<close>

definition wanted_node :: "string list option \<Rightarrow> string \<Rightarrow> bool" where
  "wanted_node nodes name = (case nodes of None \<Rightarrow> True | Some ns \<Rightarrow> name \<in> set ns)"

definition replay_events :: "nat \<Rightarrow> string list option \<Rightarrow> (string, guest) dict \<Rightarrow> event list" where
  "replay_events n nodes vms =
     concat (map (\<lambda>(name, vm).
       if \<not> wanted_node nodes name then []
       else let tl = filter (\<lambda>l. l \<noteq> []) (last_n n (gu_history vm)) in
         if tl = [] then []
         else mk_event K_ERROR (''the last '' @ show_nat (length tl) @ '' console lines from '' @ name @ '':'')
                L_ERROR (Some name) None None [] #
              map (\<lambda>line. mk_event K_ERROR (''  '' @ line) L_ERROR (Some name) None None []) tl) vms)"

definition replay :: "string list option \<Rightarrow> session \<Rightarrow> session" where
  "replay nodes s = (case se_vms s of None \<Rightarrow> s | Some vms \<Rightarrow> emits (replay_events 20 nodes vms) s)"

section \<open>The guests' journals\<close>

text \<open>
  \<open>drain\<close>: what each tail reads, entry by entry. \<open>loads\<close> is \<open>json.loads\<close>, \<open>decode\<close> decodes bytes. An
  entry whose text is a list of numbers that are no bytes makes \<open>parse\<close> raise.
\<close>

definition journal_event :: "string \<Rightarrow> entry \<Rightarrow> session \<Rightarrow> event" where
  "journal_event name entry s =
     mk_event K_JOURNAL (en_message entry) (journal_level entry) (Some name)
       (map_of (se_running s) name) None (entry_data entry @ in_case s)"

definition drain_entry :: "string \<Rightarrow> entry \<Rightarrow> session \<Rightarrow> session" where
  "drain_entry name entry s =
     (if en_identifier entry = Some SETTLE
      then s\<lparr>se_settled := insert (en_message entry) (se_settled s)\<rparr>
      else emit (journal_event name entry s) s)"

fun drain_lines ::
  "(string \<Rightarrow> json option) \<Rightarrow> (string \<Rightarrow> string) \<Rightarrow> string \<Rightarrow> string list \<Rightarrow> session \<Rightarrow> outcome" where
  "drain_lines loads decode name [] s = (None, s)"
| "drain_lines loads decode name (line # ls) s =
     (case journal_parse loads decode line of
        Inl error \<Rightarrow> (Some (Exn ''ValueError'' error), s)
      | Inr None \<Rightarrow> drain_lines loads decode name ls s
      | Inr (Some entry) \<Rightarrow> drain_lines loads decode name ls (drain_entry name entry s))"

fun drain_tails ::
  "(string \<Rightarrow> json option) \<Rightarrow> (string \<Rightarrow> string) \<Rightarrow> (string \<times> tail) list \<Rightarrow> session \<Rightarrow> outcome" where
  "drain_tails loads decode [] s = (None, s)"
| "drain_tails loads decode ((name, t) # rest) s =
     (case tail_read decode (map_option length (map_of (se_files s) name))
             (dict_get (se_files s) name []) t of
        (ls, t') \<Rightarrow>
          (case drain_lines loads decode name ls
                  (s\<lparr>se_journals := AList.update name t' (se_journals s)\<rparr>) of
             (None, s') \<Rightarrow> drain_tails loads decode rest s'
           | (Some e, s') \<Rightarrow> (Some e, s')))"

definition drain :: "(string \<Rightarrow> json option) \<Rightarrow> (string \<Rightarrow> string) \<Rightarrow> session \<Rightarrow> outcome" where
  "drain loads decode s = drain_tails loads decode (se_journals s) s"

text \<open>
  \<open>settle\<close>: a token through every live, streaming guest, then draining until all have arrived or the
  deadline passes. What happens outside the session meanwhile is data: what the clock and the guest
  answer for each token (\<open>sw_ns\<close>, \<open>sw_echo\<close>), how many tokens were sent before the deadline
  (\<open>sw_sends\<close>), what the rest of the world did during each sleep before it (\<open>sw_rounds\<close>), and after how
  many of them the task was cancelled, if it was (\<open>sw_cancel\<close>).
\<close>

record settle_world =
  sw_ns :: "string \<Rightarrow> nat"
  sw_echo :: "string \<Rightarrow> bool"
  sw_sends :: nat
  sw_rounds :: "(session \<Rightarrow> session) list"
  sw_cancel :: "nat option"

definition settles :: "string list option \<Rightarrow> session \<Rightarrow> string \<times> tail \<Rightarrow> bool" where
  "settles nodes s = (\<lambda>(name, t). wanted_node nodes name \<and>
     (case se_vms s of None \<Rightarrow> False
      | Some vms \<Rightarrow> (case map_of vms name of None \<Rightarrow> False | Some vm \<Rightarrow> streaming t \<and> gu_alive vm)))"

definition settle_token :: "settle_world \<Rightarrow> string \<Rightarrow> string" where
  "settle_token w name = name @ ''-'' @ show_nat (sw_ns w name)"

definition settle_sends :: "settle_world \<Rightarrow> string list option \<Rightarrow> session \<Rightarrow> string list" where
  "settle_sends w nodes s = map fst (filter (settles nodes s) (se_journals s))"

definition settle_tokens :: "settle_world \<Rightarrow> string list option \<Rightarrow> session \<Rightarrow> string set" where
  "settle_tokens w nodes s =
     set (map (settle_token w) (filter (sw_echo w) (settle_sends w nodes s)))"

fun settle_wait ::
  "(string \<Rightarrow> json option) \<Rightarrow> (string \<Rightarrow> string) \<Rightarrow> string set \<Rightarrow> (session \<Rightarrow> session) list \<Rightarrow> session \<Rightarrow> outcome" where
  "settle_wait loads decode tokens [] s = (None, s)"
| "settle_wait loads decode tokens (world # rounds) s =
     (if tokens \<subseteq> se_settled s then (None, s)
      else (case drain loads decode s of
              (Some e, s') \<Rightarrow> (Some e, s')
            | (None, s') \<Rightarrow> settle_wait loads decode tokens rounds (world s')))"

definition settle ::
  "(string \<Rightarrow> json option) \<Rightarrow> (string \<Rightarrow> string) \<Rightarrow> settle_world \<Rightarrow> string list option \<Rightarrow> session \<Rightarrow> outcome" where
  "settle loads decode w nodes s =
     (if se_vms s = None then (None, s)
      else
        (case sw_cancel w of
           Some n \<Rightarrow>
             (case settle_wait loads decode (settle_tokens w nodes s) (take n (sw_rounds w)) s of
                (Some e, s') \<Rightarrow> (Some e, s') | (None, s') \<Rightarrow> (Some Cancelled, s'))
         | None \<Rightarrow>
             (case (if sw_sends w < length (settle_sends w nodes s) then (None, s)
                    else settle_wait loads decode (settle_tokens w nodes s) (sw_rounds w) s) of
                (Some e, s') \<Rightarrow> (Some e, s')
              | (None, s') \<Rightarrow> drain loads decode s')))"

text \<open>\<open>begin_case\<close> and \<open>end_case\<close>.\<close>

definition begin_case ::
  "(string \<Rightarrow> json option) \<Rightarrow> (string \<Rightarrow> string) \<Rightarrow> string \<Rightarrow> session \<Rightarrow> outcome" where
  "begin_case loads decode nodeid s =
     (case drain loads decode s of
        (None, s') \<Rightarrow> (None, s'\<lparr>se_case := Some nodeid\<rparr>) | (Some e, s') \<Rightarrow> (Some e, s'))"

definition end_case :: "(string \<Rightarrow> json option) \<Rightarrow> (string \<Rightarrow> string) \<Rightarrow> session \<Rightarrow> outcome" where
  "end_case loads decode s =
     (case drain loads decode s of
        (None, s') \<Rightarrow> (None, s'\<lparr>se_case := None\<rparr>) | (Some e, s') \<Rightarrow> (Some e, s'))"

section \<open>Cases the guests wrote\<close>

text \<open>
  \<open>_cases_from_guests\<close>. A file under \<open>artifacts/<machine>/junit/\<close>: whose it is, its name, what \<open>stat\<close> answers
  (\<^const>\<open>None\<close> for \<open>OSError\<close>), its text.
\<close>

record guest_file =
  gf_machine :: string
  gf_name :: string
  gf_mtime :: "int option"
  gf_text :: string

definition file_le :: "guest_file \<Rightarrow> guest_file \<Rightarrow> bool" where
  "file_le a b = (gf_machine a = gf_machine b \<and> str_le (gf_name a) (gf_name b) \<or>
     gf_machine a \<noteq> gf_machine b \<and> str_le (gf_machine a) (gf_machine b))"

definition guest_case_event :: "string \<Rightarrow> guest_file \<Rightarrow> guest_case \<Rightarrow> event" where
  "guest_case_event phase f c =
     mk_event K_CASE (gc_name c) (if bad_word (gc_outcome c) then L_ERROR else L_DETAIL)
       (Some (gf_machine f)) (Some phase) (Some (gc_seconds c))
       ([(''outcome'', JStr (gc_outcome c)), (''when'', JStr ''guest''), (''file'', JStr (gf_name f))] @
        present [(''message'', map_option JStr (gc_message c)), (''error'', map_option JStr (gc_error c)),
                 (''reason'', map_option JStr (gc_reason c))])"

definition cases_from_file ::
  "(string \<Rightarrow> string + xml) \<Rightarrow> (string \<Rightarrow> seconds option) \<Rightarrow> string \<Rightarrow> string list option \<Rightarrow> guest_file \<Rightarrow> session \<Rightarrow> session" where
  "cases_from_file fromstring to_float phase nodes f s =
     (if \<not> wanted_node nodes (gf_machine f) then s
      else (case gf_mtime f of
        None \<Rightarrow> s
      | Some mtime \<Rightarrow>
         (let key = ((gf_machine f, gf_name f), mtime) in
          if key \<in> se_junit_seen s then s
          else
            (let s1 = s\<lparr>se_junit_seen := insert key (se_junit_seen s)\<rparr> in
             case junit_parse fromstring to_float (gf_text f) of
               Inl error \<Rightarrow>
                 emit (mk_event K_ERROR (gf_name f @ '' from '' @ gf_machine f @ '': '' @ error) L_ERROR
                         (Some (gf_machine f)) (Some phase) None []) s1
             | Inr cases \<Rightarrow> emits (map (guest_case_event phase f) cases) s1))))"

definition cases_from_guests ::
  "(string \<Rightarrow> string + xml) \<Rightarrow> (string \<Rightarrow> seconds option) \<Rightarrow> guest_file list \<Rightarrow> string \<Rightarrow> string list option \<Rightarrow>
     session \<Rightarrow> session" where
  "cases_from_guests fromstring to_float files phase nodes s =
     fold (cases_from_file fromstring to_float phase nodes) (sort_by file_le files) s"

section \<open>What events leave alone\<close>

definition stream :: "session \<Rightarrow> event list" where
  "stream s = (case se_sink s of None \<Rightarrow> [] | Some es \<Rightarrow> es)"

definition stamped :: "session \<Rightarrow> event \<Rightarrow> event" where
  "stamped s e = e\<lparr>ev_at := se_now s - se_started s\<rparr>"

lemma emit_eq:
  "emit e s = s\<lparr>se_sink := map_option (\<lambda>es. es @ [stamped s e]) (se_sink s)\<rparr>"
  by (cases "se_sink s") (simp_all add: emit_def stamped_def)

lemma emit_fields [simp]:
  "se_spec (emit e s) = se_spec s" "se_state (emit e s) = se_state s"
  "se_errors (emit e s) = se_errors s" "se_running (emit e s) = se_running s"
  "se_captures (emit e s) = se_captures s" "se_stdout_lines (emit e s) = se_stdout_lines s"
  "se_vms (emit e s) = se_vms s" "se_report (emit e s) = se_report s"
  "se_lans (emit e s) = se_lans s" "se_booted (emit e s) = se_booted s"
  "se_journals (emit e s) = se_journals s" "se_settled (emit e s) = se_settled s"
  "se_junit_seen (emit e s) = se_junit_seen s" "se_now (emit e s) = se_now s"
  "se_started (emit e s) = se_started s" "se_files (emit e s) = se_files s"
  "se_sockets (emit e s) = se_sockets s" "se_printed (emit e s) = se_printed s"
  "se_path (emit e s) = se_path s" "se_written (emit e s) = se_written s"
  "se_case (emit e s) = se_case s" "se_out (emit e s) = se_out s"
  "se_kernel (emit e s) = se_kernel s" "se_pytest_args (emit e s) = se_pytest_args s"
  "se_offline (emit e s) = se_offline s"
  "(se_sink (emit e s) = None) = (se_sink s = None)"
  by (simp_all add: emit_eq)

lemma stamped_fields [simp]:
  "ev_kind (stamped s e) = ev_kind e" "ev_level (stamped s e) = ev_level e"
  "ev_text (stamped s e) = ev_text e" "ev_machine (stamped s e) = ev_machine e"
  "ev_phase (stamped s e) = ev_phase e" "ev_seconds (stamped s e) = ev_seconds e"
  "ev_data (stamped s e) = ev_data e" "ev_at (stamped s e) = se_now s - se_started s"
  by (simp_all add: stamped_def)

lemma stream_emit: "stream (emit e s) = (if se_sink s = None then [] else stream s @ [stamped s e])"
  by (simp add: stream_def emit_eq split: option.split)

lemma stamped_cong: "se_now s' = se_now s \<Longrightarrow> se_started s' = se_started s \<Longrightarrow> stamped s' = stamped s"
  by (simp add: stamped_def fun_eq_iff)

lemma emits_simps [simp]: "emits [] s = s" "emits (e # es) s = emits es (emit e s)"
  by (simp_all add: emits_def)

lemma emits_eq:
  "emits es s = s\<lparr>se_sink := map_option (\<lambda>old. old @ map (stamped s) es) (se_sink s)\<rparr>"
proof (induction es arbitrary: s)
  case Nil
  then show ?case by (cases "se_sink s") simp_all
next
  case (Cons e es)
  have "stamped (emit e s) = stamped s" by (rule stamped_cong) simp_all
  with Cons.IH [of "emit e s"] show ?case by (cases "se_sink s") (simp_all add: emit_eq)
qed

lemma emits_fields [simp]:
  "se_spec (emits es s) = se_spec s" "se_state (emits es s) = se_state s"
  "se_errors (emits es s) = se_errors s" "se_running (emits es s) = se_running s"
  "se_captures (emits es s) = se_captures s" "se_stdout_lines (emits es s) = se_stdout_lines s"
  "se_vms (emits es s) = se_vms s" "se_report (emits es s) = se_report s"
  "se_lans (emits es s) = se_lans s" "se_booted (emits es s) = se_booted s"
  "se_journals (emits es s) = se_journals s" "se_settled (emits es s) = se_settled s"
  "se_junit_seen (emits es s) = se_junit_seen s" "se_now (emits es s) = se_now s"
  "se_started (emits es s) = se_started s" "se_files (emits es s) = se_files s"
  "se_sockets (emits es s) = se_sockets s" "se_printed (emits es s) = se_printed s"
  "se_path (emits es s) = se_path s" "se_written (emits es s) = se_written s"
  "se_case (emits es s) = se_case s" "se_out (emits es s) = se_out s"
  "se_kernel (emits es s) = se_kernel s" "se_pytest_args (emits es s) = se_pytest_args s"
  "se_offline (emits es s) = se_offline s"
  "(se_sink (emits es s) = None) = (se_sink s = None)"
  by (simp_all add: emits_eq)

lemma stream_emits:
  "stream (emits es s) = (if se_sink s = None then [] else stream s @ map (stamped s) es)"
  by (simp add: stream_def emits_eq split: option.split)

section \<open>Draining hears every line once\<close>

text \<open>
  What the lines of a journal say, and what the stream of a session has heard from one guest.
  \<open>followed\<close>: every tail stands at some prefix of its file, and what was heard is what that prefix
  says. Files only grow, so the world keeps it.
\<close>

definition line_entries :: "(string \<Rightarrow> json option) \<Rightarrow> (string \<Rightarrow> string) \<Rightarrow> string list \<Rightarrow> entry list" where
  "line_entries loads decode ls =
     concat (map (\<lambda>l. case journal_parse loads decode l of Inr (Some e) \<Rightarrow> [e] | _ \<Rightarrow> []) ls)"

definition lines_say :: "(string \<Rightarrow> json option) \<Rightarrow> (string \<Rightarrow> string) \<Rightarrow> string list \<Rightarrow> string list" where
  "lines_say loads decode ls =
     map en_message (filter (\<lambda>e. en_identifier e \<noteq> Some SETTLE) (line_entries loads decode ls))"

definition file_says :: "(string \<Rightarrow> json option) \<Rightarrow> (string \<Rightarrow> string) \<Rightarrow> string \<Rightarrow> string list" where
  "file_says loads decode content = lines_say loads decode (fst (journal_split decode content))"

definition heard :: "string \<Rightarrow> session \<Rightarrow> string list" where
  "heard name s =
     map ev_text (filter (\<lambda>e. ev_kind e = K_JOURNAL \<and> ev_machine e = Some name) (stream s))"

definition followed :: "(string \<Rightarrow> json option) \<Rightarrow> (string \<Rightarrow> string) \<Rightarrow> session \<Rightarrow> bool" where
  "followed loads decode s =
     (se_sink s \<noteq> None \<and> distinct (dict_keys (se_journals s)) \<and>
      (\<forall>name t. map_of (se_journals s) name = Some t \<longrightarrow>
         (\<exists>old. prefix old (dict_get (se_files s) name []) \<and> caught_up decode old t \<and>
                heard name s = file_says loads decode old)))"

definition files_grew :: "session \<Rightarrow> session \<Rightarrow> bool" where
  "files_grew s s' =
     (se_journals s' = se_journals s \<and> (\<forall>name. heard name s' = heard name s) \<and> (se_sink s' = None) = (se_sink s = None) \<and>
      (\<forall>name. prefix (dict_get (se_files s) name []) (dict_get (se_files s') name [])))"

lemma followed_grew: "followed loads decode s \<Longrightarrow> files_grew s s' \<Longrightarrow> followed loads decode s'"
  unfolding followed_def files_grew_def by (metis prefix_order.trans)

lemma line_entries_append: "line_entries loads decode (xs @ ys) = line_entries loads decode xs @ line_entries loads decode ys"
  by (simp add: line_entries_def)

lemma lines_say_append: "lines_say loads decode (xs @ ys) = lines_say loads decode xs @ lines_say loads decode ys"
  by (simp add: lines_say_def line_entries_append)

lemma heard_emit:
  "se_sink s \<noteq> None \<Longrightarrow>
     heard n (emit e s) = heard n s @
       (if ev_kind e = K_JOURNAL \<and> ev_machine e = Some n then [ev_text e] else [])"
  by (auto simp: heard_def stream_emit)

lemma drain_entry_frame [simp]:
  "se_journals (drain_entry name e s) = se_journals s" "se_files (drain_entry name e s) = se_files s"
  "(se_sink (drain_entry name e s) = None) = (se_sink s = None)"
  "se_vms (drain_entry name e s) = se_vms s" "se_state (drain_entry name e s) = se_state s"
  "se_running (drain_entry name e s) = se_running s" "se_spec (drain_entry name e s) = se_spec s"
  "se_errors (drain_entry name e s) = se_errors s" "se_booted (drain_entry name e s) = se_booted s"
  by (simp_all add: drain_entry_def)

lemma heard_sink: "se_sink s' = se_sink s \<Longrightarrow> heard n s' = heard n s"
  by (simp add: heard_def stream_def)

lemma heard_drain_entry:
  "se_sink s \<noteq> None \<Longrightarrow>
     heard n (drain_entry name e s) = heard n s @
       (if n = name \<and> en_identifier e \<noteq> Some SETTLE then [en_message e] else [])"
  by (auto simp: drain_entry_def heard_emit journal_event_def intro: heard_sink)

text \<open>What a drain leaves alone, exception or not.\<close>

definition drain_frame :: "session \<Rightarrow> session \<Rightarrow> bool" where
  "drain_frame s s' =
     (se_files s' = se_files s \<and> (se_sink s' = None) = (se_sink s = None) \<and> se_vms s' = se_vms s \<and>
      se_state s' = se_state s \<and> se_running s' = se_running s \<and> se_spec s' = se_spec s \<and>
      se_errors s' = se_errors s \<and> se_booted s' = se_booted s)"

lemma drain_frame_refl [simp]: "drain_frame s s"
  by (simp add: drain_frame_def)

lemma drain_frame_trans: "drain_frame s t \<Longrightarrow> drain_frame t u \<Longrightarrow> drain_frame s u"
  by (simp add: drain_frame_def)

lemma drain_lines_frame:
  "drain_lines loads decode name ls s = (r, s') \<Longrightarrow> drain_frame s s' \<and> se_journals s' = se_journals s"
  by (induction loads decode name ls s rule: drain_lines.induct)
    (auto simp: drain_frame_def split: sum.splits option.splits)

lemma drain_tails_frame: "drain_tails loads decode ts s = (r, s') \<Longrightarrow> drain_frame s s'"
proof (induction loads decode ts s rule: drain_tails.induct)
  case (2 loads decode name t rest s)
  then show ?case
    by (auto split: prod.splits option.splits dest!: drain_lines_frame)
      (auto simp: drain_frame_def)
qed simp

lemma drain_drain_frame: "drain loads decode s = (r, s') \<Longrightarrow> drain_frame s s'"
  by (simp add: drain_def drain_tails_frame)

lemma drain_lines_heard:
  "drain_lines loads decode name ls s = (None, s') \<Longrightarrow> se_sink s \<noteq> None \<Longrightarrow>
     heard n s' = heard n s @ (if n = name then lines_say loads decode ls else [])"
proof (induction loads decode name ls s rule: drain_lines.induct)
  case (1 loads decode name s)
  then show ?case by (simp add: lines_say_def line_entries_def)
next
  case (2 loads decode name line ls s)
  then show ?case
    by (cases "journal_parse loads decode line")
      (auto simp: heard_drain_entry lines_say_def line_entries_def split: option.splits)
qed

lemma drain_tails_spec:
  "drain_tails loads decode ts s = (None, s') \<Longrightarrow> se_sink s \<noteq> None \<Longrightarrow> distinct (map fst ts) \<Longrightarrow>
     (case map_of ts n of
        None \<Rightarrow> map_of (se_journals s') n = map_of (se_journals s) n \<and> heard n s' = heard n s
      | Some t \<Rightarrow>
         (case tail_read decode (map_option length (map_of (se_files s) n)) (dict_get (se_files s) n []) t of
            (ls, t') \<Rightarrow> map_of (se_journals s') n = Some t' \<and>
                        heard n s' = heard n s @ lines_say loads decode ls)) \<and>
     dict_keys (se_journals s') =
       fold (\<lambda>k ks. if k \<in> set ks then ks else ks @ [k]) (map fst ts) (dict_keys (se_journals s))"
proof (induction loads decode ts s rule: drain_tails.induct)
  case (1 loads decode s)
  then show ?case by simp
next
  case (2 loads decode name t rest s)
  obtain ls t' where r: "tail_read decode (map_option length (map_of (se_files s) name))
      (dict_get (se_files s) name []) t = (ls, t')" by (meson prod.exhaust)
  let ?s1 = "s\<lparr>se_journals := AList.update name t' (se_journals s)\<rparr>"
  obtain s2 where l: "drain_lines loads decode name ls ?s1 = (None, s2)"
    and rest: "drain_tails loads decode rest s2 = (None, s')"
    using "2.prems"(1) r by (auto split: prod.splits option.splits)
  have h1: "heard m ?s1 = heard m s" for m by (rule heard_sink) simp
  have h2: "heard m s2 = heard m s @ (if m = name then lines_say loads decode ls else [])" for m
    using drain_lines_heard [OF l] "2.prems"(2) h1 by simp
  have f: "se_files s2 = se_files s" "se_journals s2 = AList.update name t' (se_journals s)"
    "se_sink s2 \<noteq> None"
    using drain_lines_frame [OF l] "2.prems"(2) by (auto simp: drain_frame_def)
  have "name \<notin> fst ` set rest" using "2.prems"(3) by simp
  then have n: "map_of rest name = None" by (simp add: map_of_eq_None_iff)
  show ?case
    using "2.IH" [OF r [symmetric] l [symmetric] refl rest f(3)] "2.prems"(3) r h2 f n
    by (auto simp: dict_keys_update simp del: map_of_eq_Some_iff split: option.splits prod.splits)
qed

lemma fold_insert_known:
  "set ks \<subseteq> set ms \<Longrightarrow> fold (\<lambda>k ks. if k \<in> set ks then ks else ks @ [k]) ks ms = ms"
  by (induction ks) auto

text \<open>After a drain, every guest has been heard to the last complete line of its file.\<close>

definition heard_all :: "(string \<Rightarrow> json option) \<Rightarrow> (string \<Rightarrow> string) \<Rightarrow> session \<Rightarrow> bool" where
  "heard_all loads decode s =
     (\<forall>name t. map_of (se_journals s) name = Some t \<longrightarrow>
        caught_up decode (dict_get (se_files s) name []) t \<and>
        heard name s = file_says loads decode (dict_get (se_files s) name []))"

lemma drain_hears:
  assumes d: "drain loads decode s = (None, s')" and f: "followed loads decode s"
  shows "followed loads decode s' \<and> heard_all loads decode s' \<and> files_grew (s\<lparr>se_sink := se_sink s', se_journals := se_journals s'\<rparr>) s' "
proof -
  have sink: "se_sink s \<noteq> None" and dist: "distinct (map fst (se_journals s))"
    using f by (auto simp: followed_def dict_keys_def)
  have fr: "drain_frame s s'" using d by (rule drain_drain_frame)
  note spec = drain_tails_spec [OF d [unfolded drain_def] sink dist]
  have keys: "dict_keys (se_journals s') = dict_keys (se_journals s)"
    using spec by (simp add: fold_insert_known dict_keys_def)
  have all: "heard_all loads decode s'"
    unfolding heard_all_def
  proof (intro allI impI)
    fix n t' assume t': "map_of (se_journals s') n = Some t'"
    then have "n \<in> set (dict_keys (se_journals s))"
      using keys set_dict_keys by (metis domI)
    then obtain t where t: "map_of (se_journals s) n = Some t"
      by (auto simp: set_dict_keys)
    then obtain old where old: "prefix old (dict_get (se_files s) n [])" "caught_up decode old t"
      and h: "heard n s = file_says loads decode old"
      using f by (auto simp: followed_def)
    obtain new where new: "dict_get (se_files s) n [] = old @ new"
      using old(1) by (auto simp: prefix_def)
    have files: "se_files s' = se_files s" using fr by (simp add: drain_frame_def)
    show "caught_up decode (dict_get (se_files s') n []) t' \<and>
          heard n s' = file_says loads decode (dict_get (se_files s') n [])"
    proof (cases "map_of (se_files s) n")
      case None
      then have "old = []" using new by (simp add: dict_get_def)
      moreover have "t' = t" "heard n s' = heard n s"
        using spec [of n] t t' None by (simp_all add: tail_read_def lines_say_def line_entries_def)
      ultimately show ?thesis using old h None files by (simp add: dict_get_def)
    next
      case (Some c)
      then have c: "c = old @ new" using new by (simp add: dict_get_def)
      obtain ls t'' where r: "tail_read decode (Some (length (old @ new))) (old @ new) t = (ls, t'')"
        by (meson prod.exhaust)
      with spec [of n] t t' Some c have "t'' = t'" "heard n s' = heard n s @ lines_say loads decode ls"
        by (simp_all add: dict_get_def)
      moreover note tail_read_step [OF old(2) r]
      ultimately show ?thesis using h Some c files
        by (simp add: file_says_def dict_get_def flip: lines_say_append)
    qed
  qed
  moreover have "followed loads decode s'"
    using all keys fr f by (auto simp: followed_def heard_all_def drain_frame_def)
  ultimately show ?thesis using fr
    by (auto simp: files_grew_def drain_frame_def heard_def stream_def)
qed

text \<open>Settling, whatever the world does to the files meanwhile, ends with everything heard.\<close>

lemma settle_wait_hears:
  "settle_wait loads decode tokens rounds s = (None, s') \<Longrightarrow> followed loads decode s \<Longrightarrow>
     (\<And>w t. w \<in> set rounds \<Longrightarrow> files_grew t (w t)) \<Longrightarrow> followed loads decode s'"
proof (induction loads decode tokens rounds s rule: settle_wait.induct)
  case (2 loads decode tokens world rounds s)
  show ?case
  proof (cases "tokens \<subseteq> se_settled s")
    case True
    with 2 show ?thesis by simp
  next
    case False
    then obtain s1 where d: "drain loads decode s = (None, s1)"
      and w: "settle_wait loads decode tokens rounds (world s1) = (None, s')"
      using "2.prems"(1) by (auto split: prod.splits option.splits)
    have "followed loads decode (world s1)"
      using drain_hears [OF d "2.prems"(2)] "2.prems"(3) by (auto intro: followed_grew)
    with False d w "2.IH" "2.prems"(3) show ?thesis by simp
  qed
qed simp

lemma settle_hears:
  assumes "settle loads decode w nodes s = (None, s')" "followed loads decode s"
    and "\<And>world t. world \<in> set (sw_rounds w) \<Longrightarrow> files_grew t (world t)" "se_vms s \<noteq> None"
  shows "followed loads decode s' \<and> heard_all loads decode s'"
proof -
  obtain s1 where "followed loads decode s1" "drain loads decode s1 = (None, s')"
    using assms settle_wait_hears [of loads decode "settle_tokens w nodes s" "sw_rounds w" s]
    by (auto simp: settle_def split: prod.splits option.splits if_splits)
  then show ?thesis using drain_hears by blast
qed

end
