(* ===== verification/Run_Phase.thy ===== *)
theory Run_Phase
  imports Session
begin

text \<open>
  \<^verbatim>\<open>src/pkgs/uml/uml/session.py\<close>, second part: one phase, from \<open>run\<close>'s first line to its last.

  What a phase's script or test does to the run is a list of actions over the interface the session
  gives it: time passes, it prints, it sends commands, guests write to their consoles and journals.
  How it ends is an exception or none. pytest itself is not part of the repository: a run of it is
  the hooks it calls, in order, and its exit code.

  \<open>run\<close> awaits in three places: before it has started (\<open>drain\<close>), in the body, and in \<open>settle\<close>. The
  pieces between are definitions of their own (\<open>run_enter\<close>, \<open>run_failed\<close>, \<open>run_passed\<close>,
  \<open>run_interrupted\<close>), each atomic, so that the scheduler can interleave them.
\<close>

definition CONSOLE_HISTORY :: nat where "CONSOLE_HISTORY = 2000"

datatype action =
    Elapse seconds
  | Print string
  | Command string string seconds
  | Console string string
  | Log_line string string
  | Follow

definition push_history :: "string \<Rightarrow> guest \<Rightarrow> guest" where
  "push_history line g = g\<lparr>gu_history := last_n CONSOLE_HISTORY (gu_history g @ [line])\<rparr>"

fun act ::
  "(string \<Rightarrow> json option) \<Rightarrow> (string \<Rightarrow> string) \<Rightarrow> string option \<Rightarrow> action \<Rightarrow> session \<Rightarrow> session" where
  "act loads decode phase (Elapse d) s = s\<lparr>se_now := se_now s + d\<rparr>"
| "act loads decode phase (Print text) s = task_print phase text s"
| "act loads decode phase (Command machine what secs) s = on_command machine what secs s"
| "act loads decode phase (Console machine line) s =
     on_console machine line
       (s\<lparr>se_vms := map_option (map (\<lambda>(n, g). (n, if n = machine then push_history line g else g))) (se_vms s)\<rparr>)"
| "act loads decode phase (Log_line machine text) s =
     s\<lparr>se_files := AList.update machine (dict_get (se_files s) machine [] @ text) (se_files s)\<rparr>"
| "act loads decode phase Follow s = snd (drain loads decode s)"

definition acts ::
  "(string \<Rightarrow> json option) \<Rightarrow> (string \<Rightarrow> string) \<Rightarrow> string option \<Rightarrow> action list \<Rightarrow> session \<Rightarrow> session" where
  "acts loads decode phase xs s = fold (act loads decode phase) xs s"

section \<open>Loading a phase\<close>

text \<open>\<open>load_phase\<close>: what importing the script comes to. Importing runs the script, so it is data here.\<close>

datatype import_result =
    No_loader
  | Import_raises exn
  | No_test
  | Not_callable
  | Test "action list" "exn option"

definition load_phase :: "string \<Rightarrow> import_result \<Rightarrow> exn + (action list \<times> exn option)" where
  "load_phase script found =
     (case found of
        No_loader \<Rightarrow> Inl (SessionError (''cannot import a phase from '' @ script))
      | Import_raises e \<Rightarrow> Inl e
      | No_test \<Rightarrow> Inl (SessionError (script @ '' exports no `test`''))
      | Not_callable \<Rightarrow> Inl (SessionError (''`test` in '' @ script @ '' is not callable''))
      | Test xs e \<Rightarrow> Inr (xs, e))"

text \<open>\<open>_forget\<close>: the modules of \<open>names\<close> loaded from under a directory leave \<open>sys.modules\<close>.\<close>

definition is_under :: "string \<Rightarrow> string \<Rightarrow> bool" where
  "is_under path dir = prefix (filter (\<lambda>x. x \<noteq> []) (split_on (CHR ''/'') dir))
                               (filter (\<lambda>x. x \<noteq> []) (split_on (CHR ''/'') path))"

definition forget ::
  "(string \<Rightarrow> string) \<Rightarrow> string set \<Rightarrow> string \<Rightarrow> (string, string option) dict \<Rightarrow> (string, string option) dict" where
  "forget resolved names dir modules =
     filter (\<lambda>(name, file). \<not> (name \<in> names \<and>
       (case file of None \<Rightarrow> False | Some f \<Rightarrow> is_under (resolved f) (resolved dir)))) modules"

text \<open>\<open>with_kernel\<close>.\<close>

definition swap_boot :: "string \<Rightarrow> jdict \<Rightarrow> jdict" where
  "swap_boot krn machine =
     (case map_of machine ''boot'' of
        Some (JObj boot) \<Rightarrow> AList.update ''boot'' (JObj (AList.update ''kernel'' (JStr krn) boot)) machine
      | _ \<Rightarrow> machine)"

definition with_kernel ::
  "(string, string) dict \<Rightarrow> jdict list \<Rightarrow> string \<Rightarrow> (string, string) dict \<times> jdict list" where
  "with_kernel tools machines krn =
     ((if ''kernel'' \<in> set (dict_keys tools) then AList.update ''kernel'' krn tools else tools),
      map (swap_boot krn) machines)"

section \<open>The guests a phase is given\<close>

definition phase_nodes :: "phase_spec \<Rightarrow> (string, guest) dict \<Rightarrow> string list" where
  "phase_nodes phase vms = (if ph_nodes phase = [] then dict_keys vms else ph_nodes phase)"

definition view :: "phase_spec \<Rightarrow> session \<Rightarrow> exn + (string, guest) dict" where
  "view phase s =
     (case se_vms s of
        None \<Rightarrow> Inl (SessionError ''run before boot'')
      | Some vms \<Rightarrow>
         (let wanted = phase_nodes phase vms;
              missing = filter (\<lambda>n. n \<notin> set (dict_keys vms)) wanted
          in if missing \<noteq> [] then
               Inl (SessionError (''phase '' @ ph_name phase @ '' names '' @ join '', '' missing @
                 '' in `nodes`; the guests are '' @ join '', '' (dict_keys vms)))
             else Inr (fold (\<lambda>n d. case map_of vms n of None \<Rightarrow> d | Some g \<Rightarrow> AList.update n g d) wanted [])))"

section \<open>pytest\<close>

datatype hook =
    Log_start string
  | Log_finish
  | Log_report test_report
  | Collect_report test_report
  | Test_acts "action list"

record pytest_run =
  pr_hooks :: "hook list"
  pr_code :: int

text \<open>The events a step of the plugin sends reach the session as they are sent.\<close>

definition plugin_step :: "(plugin \<Rightarrow> plugin) \<Rightarrow> plugin \<times> session \<Rightarrow> plugin \<times> session" where
  "plugin_step f = (\<lambda>(p, s). let p' = f p in (p', emits (drop (length (pl_sent p)) (pl_sent p')) s))"

fun run_hook ::
  "(string \<Rightarrow> json option) \<Rightarrow> (string \<Rightarrow> string) \<Rightarrow> hook \<Rightarrow> plugin \<times> session \<Rightarrow> plugin \<times> session" where
  "run_hook loads decode (Log_start nodeid) (p, s) = (p, snd (begin_case loads decode nodeid s))"
| "run_hook loads decode Log_finish (p, s) = (p, snd (end_case loads decode s))"
| "run_hook loads decode (Log_report r) ps = plugin_step (logreport r) ps"
| "run_hook loads decode (Collect_report r) ps = plugin_step (collectreport r) ps"
| "run_hook loads decode (Test_acts xs) (p, s) = (p, acts loads decode None xs s)"

definition run_hooks ::
  "(string \<Rightarrow> json option) \<Rightarrow> (string \<Rightarrow> string) \<Rightarrow> hook list \<Rightarrow> plugin \<times> session \<Rightarrow> plugin \<times> session" where
  "run_hooks loads decode hs ps = fold (run_hook loads decode) hs ps"

definition pytest_args_of :: "pytest_spec \<Rightarrow> bool \<Rightarrow> session \<Rightarrow> string list" where
  "pytest_args_of ps by_hand s =
     arguments (ps_tests ps) (if by_hand then ps_args ps else ps_args ps @ se_pytest_args s)"

text \<open>\<open>_pytest\<close>: the summary, or the exception that ends the phase.\<close>

definition session_pytest ::
  "(string \<Rightarrow> json option) \<Rightarrow> (string \<Rightarrow> string) \<Rightarrow> (string \<Rightarrow> bool) \<Rightarrow> pytest_run \<Rightarrow> string \<Rightarrow> pytest_spec \<Rightarrow> bool \<Rightarrow>
     session \<Rightarrow> (exn + string) \<times> session" where
  "session_pytest loads decode is_dir pr name ps by_hand s =
     (let here = (if is_dir (ps_tests ps) then ps_tests ps else path_parent (ps_tests ps));
          args = pytest_args_of ps by_hand s;
          s1 = s\<lparr>se_path := here # se_path s\<rparr>
      in case run_hooks loads decode (pr_hooks pr) (new_plugin name by_hand, s1) of
           (p, s2) \<Rightarrow>
            (let s3 = s2\<lparr>se_path := remove1 here (se_path s2)\<rparr> in
             if pr_code pr = 5 then (Inl (CasesFailed ''no tests were collected''), s3)
             else if pr_code pr = 4 then
               (Inl (CasesFailed (''pytest rejected its arguments: '' @ json_repr (JList (map JStr (tl args))))), s3)
             else if pr_code pr \<noteq> 0 then
               (Inl (CasesFailed (if pl_outcomes p \<noteq> [] then plugin_summary p
                                  else ''pytest exited '' @ show_int (pr_code pr))), s3)
             else (Inr (plugin_summary p),
                   emit (mk_event K_NOTE (plugin_summary p) L_INFO None (Some name) None []) s3)))"

section \<open>run\<close>

record run_world =
  rw_import :: import_result
  rw_pytest :: pytest_run
  rw_is_dir :: "string \<Rightarrow> bool"
  rw_settle :: settle_world
  rw_files :: "guest_file list"

record env =
  cx_loads :: "string \<Rightarrow> json option"
  cx_decode :: "string \<Rightarrow> string"
  cx_fromstring :: "string \<Rightarrow> string + xml"
  cx_float :: "string \<Rightarrow> seconds option"
  cx_traceback :: "exn \<Rightarrow> string"

definition run_enter :: "phase_spec \<Rightarrow> string list \<Rightarrow> session \<Rightarrow> session" where
  "run_enter phase nodes s =
     emit (mk_event K_PHASE_STARTED (ph_name phase) L_INFO None (Some (ph_name phase)) None
             [(''nodes'', JList (map JStr nodes))])
       (s\<lparr>se_state := AList.update (ph_name phase) RUNNING (se_state s),
          se_running := dict_set_all nodes (ph_name phase) (se_running s)\<rparr>)"

text \<open>The body: \<^const>\<open>None\<close> when it ended well.\<close>

definition run_body :: "env \<Rightarrow> run_world \<Rightarrow> phase_spec \<Rightarrow> session \<Rightarrow> outcome" where
  "run_body cx w phase s =
     (case view phase s of
        Inl e \<Rightarrow> (Some e, s)
      | Inr _ \<Rightarrow>
         (case ph_pytest phase of
            Some ps \<Rightarrow>
              (case session_pytest (cx_loads cx) (cx_decode cx) (rw_is_dir w) (rw_pytest w) (ph_name phase) ps False s of
                 (Inl e, s') \<Rightarrow> (Some e, s') | (Inr _, s') \<Rightarrow> (None, s'))
          | None \<Rightarrow>
              (case ph_script phase of
                 None \<Rightarrow> (None, s)
               | Some script \<Rightarrow>
                  (case load_phase script (rw_import w) of
                     Inl e \<Rightarrow> (Some e, s)
                   | Inr (xs, e) \<Rightarrow>
                       (e, capture_exit (acts (cx_loads cx) (cx_decode cx) (Some (ph_name phase)) xs
                             (capture_enter s)))))))"

definition release :: "string list \<Rightarrow> session \<Rightarrow> session" where
  "release nodes s = s\<lparr>se_running := dict_pop_all nodes (se_running s)\<rparr>"

definition record_phase :: "phase_spec \<Rightarrow> seconds \<Rightarrow> session \<Rightarrow> session" where
  "record_phase phase started s =
     s\<lparr>se_report := report_step (se_now s) ''-'' ''phase'' (ph_name phase) (se_now s - started) (se_report s)\<rparr>"

definition set_state :: "string \<Rightarrow> phase_state \<Rightarrow> session \<Rightarrow> session" where
  "set_state name st s = s\<lparr>se_state := AList.update name st (se_state s)\<rparr>"

text \<open>
  The dependents of a failed phase. Python iterates over a set here, in no order the language
  promises; the order of the phases is one of them.
\<close>

definition skip_event :: "string \<Rightarrow> string \<Rightarrow> event" where
  "skip_event name failed =
     mk_event K_PHASE_FINISHED (name @ '' skipped, it needs '' @ failed) L_INFO None (Some name) None
       [(''state'', JStr (state_text SKIPPED)), (''reason'', JStr (failed @ '' failed''))]"

definition skip_one :: "string \<Rightarrow> string \<Rightarrow> session \<Rightarrow> session" where
  "skip_one failed name s =
     (if map_of (se_state s) name = Some PENDING
      then emit (skip_event name failed) (set_state name SKIPPED s) else s)"

definition skip_dependents :: "string \<Rightarrow> session \<Rightarrow> session" where
  "skip_dependents failed s =
     fold (skip_one failed)
       (filter (\<lambda>n. n \<in> skipped_by failed (sp_phases (se_spec s))) (remdups (phase_names (sp_phases (se_spec s))))) s"

definition error_text :: "exn \<Rightarrow> string" where
  "error_text e = ex_type e @ '': '' @ ex_text e"

definition run_failed ::
  "env \<Rightarrow> guest_file list \<Rightarrow> phase_spec \<Rightarrow> string list \<Rightarrow> seconds \<Rightarrow> seconds \<Rightarrow> exn \<Rightarrow> session \<Rightarrow> session" where
  "run_failed cx files phase nodes started took e s =
     (let name = ph_name phase;
          s1 = cases_from_guests (cx_fromstring cx) (cx_float cx) files name (Some nodes) s;
          s2 = set_state name FAILED (record_phase phase started s1);
          s3 = s2\<lparr>se_errors := AList.update name (error_text e) (se_errors s2)\<rparr>;
          s4 = emit (mk_event K_PHASE_FINISHED (name @ '' FAILED: '' @ ex_text e) L_ERROR None (Some name) (Some took)
                       [(''state'', JStr (state_text FAILED)), (''error'', JStr (error_text e))]) s3;
          s5 = (if ex_type e = ''CasesFailed'' then s4
                else emit (mk_event K_ERROR (rstrip (cx_traceback cx e)) L_ERROR None (Some name) None []) s4)
      in release nodes (skip_dependents name (replay (Some nodes) s5)))"

definition run_interrupted :: "phase_spec \<Rightarrow> string list \<Rightarrow> seconds \<Rightarrow> session \<Rightarrow> session" where
  "run_interrupted phase nodes started s =
     (let name = ph_name phase in
      release nodes
        (emit (mk_event K_PHASE_FINISHED (name @ '' interrupted'') L_ERROR None (Some name) (Some (se_now s - started))
                 [(''state'', JStr (state_text INTERRUPTED)),
                  (''error'', JStr ''the run was stopped while this phase ran'')])
           (set_state name INTERRUPTED s)))"

definition run_passed ::
  "env \<Rightarrow> guest_file list \<Rightarrow> phase_spec \<Rightarrow> string list \<Rightarrow> seconds \<Rightarrow> seconds \<Rightarrow> session \<Rightarrow> session" where
  "run_passed cx files phase nodes started took s =
     (let name = ph_name phase;
          s1 = cases_from_guests (cx_fromstring cx) (cx_float cx) files name (Some nodes) s;
          s2 = set_state name PASSED (record_phase phase started (release nodes s1))
      in emit (mk_event K_PHASE_FINISHED (name @ '' passed in '' @ fixed 1 took @ ''s'') L_INFO None (Some name) (Some took)
                 [(''state'', JStr (state_text PASSED))]) s2)"

definition run_finish ::
  "env \<Rightarrow> run_world \<Rightarrow> phase_spec \<Rightarrow> string list \<Rightarrow> seconds \<Rightarrow> exn option \<Rightarrow> session \<Rightarrow> (exn + phase_state) \<times> session" where
  "run_finish cx w phase nodes started ended s =
     (let took = se_now s - started;
          settled = settle (cx_loads cx) (cx_decode cx) (rw_settle w) (Some nodes) s
      in case ended of
           Some Cancelled \<Rightarrow> (Inl Cancelled, run_interrupted phase nodes started s)
         | Some e \<Rightarrow>
             (case settled of
                (Some e', s') \<Rightarrow> (Inl e', s')
              | (None, s') \<Rightarrow> (Inr FAILED, run_failed cx (rw_files w) phase nodes started took e s'))
         | None \<Rightarrow>
             (case settled of
                (Some e', s') \<Rightarrow> (Inl e', s')
              | (None, s') \<Rightarrow> (Inr PASSED, run_passed cx (rw_files w) phase nodes started took s')))"

definition run :: "env \<Rightarrow> run_world \<Rightarrow> phase_spec \<Rightarrow> session \<Rightarrow> (exn + phase_state) \<times> session" where
  "run cx w phase s =
     (case se_vms s of
        None \<Rightarrow> (Inl (SessionError ''run before boot''), s)
      | Some vms \<Rightarrow>
         (let nodes = phase_nodes phase vms in
          case drain (cx_loads cx) (cx_decode cx) s of
            (Some e, s1) \<Rightarrow> (Inl e, s1)
          | (None, s1) \<Rightarrow>
             (let s2 = run_enter phase nodes s1 in
              case run_body cx w phase s2 of
                (ended, s3) \<Rightarrow> run_finish cx w phase nodes (se_now s2) ended s3)))"

section \<open>The evidence\<close>

definition session_passed :: "session \<Rightarrow> bool" where
  "session_passed s = passed (se_state s)"

definition pending :: "session \<Rightarrow> phase_spec list" where
  "pending s = runnable (sp_phases (se_spec s)) (se_state s)"

definition phases_json :: "session \<Rightarrow> json" where
  "phases_json s = JObj
     [(''passed'', JBool (session_passed s)),
      (''phases'', JList (map (\<lambda>(n, st). JObj
         [(''name'', JStr n), (''state'', JStr (state_text st)),
          (''error'', case map_of (se_errors s) n of None \<Rightarrow> JNull | Some e \<Rightarrow> JStr e)]) (se_state s)))]"

definition write_output :: "(json \<Rightarrow> string) \<Rightarrow> session \<Rightarrow> session" where
  "write_output dumps s =
     (let ok1 = session_passed s;
          first = (case se_errors s of [] \<Rightarrow> None | (n, e) # _ \<Rightarrow> Some e);
          status = (if ok1 then ''0'' @ [LF] else ''1'' @ [LF]);
          files = AList.update ''report.json'' (dumps (JObj (report_body (se_now s) ok1 first (se_report s))) @ [LF])
                    (AList.update ''phases.json'' (dumps (phases_json s) @ [LF])
                      (AList.update ''status'' status (se_written s)))
      in emit (mk_event K_RUN_FINISHED (if ok1 then ''passed'' else ''failed'') (if ok1 then L_INFO else L_ERROR)
                 None None None
                 [(''passed'', JBool ok1),
                  (''states'', JObj (map (\<lambda>(n, st). (n, JStr (state_text st))) (se_state s)))])
           (s\<lparr>se_written := files\<rparr>))"

section \<open>What the body of a phase leaves alone\<close>

text \<open>
  Nothing a phase does through the session touches the states of the phases, what holds which
  guest, the errors or the spec; only the pieces of \<open>run\<close> do.
\<close>

definition keeps :: "session \<Rightarrow> session \<Rightarrow> bool" where
  "keeps s s' =
     (se_state s' = se_state s \<and> se_spec s' = se_spec s \<and> se_running s' = se_running s \<and>
      se_errors s' = se_errors s \<and> se_booted s' = se_booted s \<and>
      (se_sink s' = None) = (se_sink s = None) \<and>
      map_option dict_keys (se_vms s') = map_option dict_keys (se_vms s))"

lemma keeps_refl [simp]: "keeps s s"
  by (simp add: keeps_def)

lemma keeps_trans: "keeps s t \<Longrightarrow> keeps t u \<Longrightarrow> keeps s u"
  by (simp add: keeps_def)

lemma keeps_emit: "keeps s (emit e s)"
  by (simp add: keeps_def)

lemma keeps_emits: "keeps s (emits es s)"
  by (simp add: keeps_def)

lemma keeps_drain: "keeps s (snd (drain loads decode s))"
  using drain_drain_frame [of loads decode s] by (cases "drain loads decode s")
    (auto simp: keeps_def drain_frame_def)

lemma keeps_fold: "(\<And>x s. keeps s (f x s)) \<Longrightarrow> keeps s (fold f xs s)"
  by (induction xs arbitrary: s) (auto intro: keeps_trans)

lemma keeps_act: "keeps s (act loads decode phase a s)"
proof (cases a)
  case (Console machine line)
  show ?thesis unfolding Console
    by (cases "se_vms s") (auto simp: keeps_def on_console_def dict_keys_def)
qed (auto simp: keeps_def task_print_def lines_write_def on_command_def keeps_drain [unfolded keeps_def])

lemma keeps_acts: "keeps s (acts loads decode phase xs s)"
  unfolding acts_def by (rule keeps_fold) (rule keeps_act)

lemma keeps_case:
  "keeps s (snd (begin_case loads decode n s))" "keeps s (snd (end_case loads decode s))"
  using keeps_drain [of s loads decode]
  by (auto simp: begin_case_def end_case_def keeps_def split: prod.splits option.splits)

lemma keeps_hook: "keeps s (snd (run_hook loads decode h (p, s)))"
  by (cases h) (auto simp: plugin_step_def Let_def intro: keeps_case keeps_emits keeps_acts)

lemma keeps_hooks: "keeps s (snd (run_hooks loads decode hs (p, s)))"
  unfolding run_hooks_def
proof (induction hs arbitrary: p s)
  case Nil
  then show ?case by simp
next
  case (Cons h hs)
  obtain p1 s1 where r: "run_hook loads decode h (p, s) = (p1, s1)"
    by (meson prod.exhaust)
  with keeps_hook [of s loads decode h p] have "keeps s s1" by simp
  with Cons.IH [of s1 p1] r show ?case by (auto intro: keeps_trans)
qed

lemma keeps_path: "keeps s (s\<lparr>se_path := p\<rparr>)"
  by (simp add: keeps_def)

lemma keeps_hooks_pair:
  "run_hooks loads decode hs (p, s) = (p', s') \<Longrightarrow> keeps s s'"
  using keeps_hooks [of s loads decode hs p] by simp

lemma keeps_pytest:
  assumes "session_pytest loads decode is_dir pr name ps by_hand s = (r, s')"
  shows "keeps s s'"
proof -
  obtain here p s2 where h:
      "run_hooks loads decode (pr_hooks pr) (new_plugin name by_hand, s\<lparr>se_path := here # se_path s\<rparr>) = (p, s2)"
    and s': "s' = s2\<lparr>se_path := remove1 here (se_path s2)\<rparr> \<or>
      (\<exists>e. s' = emit e (s2\<lparr>se_path := remove1 here (se_path s2)\<rparr>))"
    using assms by (simp add: session_pytest_def Let_def split: prod.splits if_split_asm) blast+
  have "keeps s s2"
    using keeps_hooks_pair [OF h] by (simp add: keeps_def)
  then have "keeps s (s2\<lparr>se_path := remove1 here (se_path s2)\<rparr>)"
    by (simp add: keeps_def)
  with s' show ?thesis by (auto intro: keeps_trans keeps_emit)
qed

lemma keeps_capture: "keeps s (capture_enter s)" "keeps s (capture_exit s)"
  by (simp_all add: keeps_def capture_enter_def capture_exit_def Let_def)

lemma keeps_script:
  "keeps s (capture_exit (acts loads decode phase xs (capture_enter s)))"
  by (meson keeps_acts keeps_capture keeps_trans)

lemma keeps_body:
  assumes "run_body cx w phase s = (r, s')"
  shows "keeps s s'"
proof (cases "view phase s")
  case (Inl e)
  with assms show ?thesis by (simp add: run_body_def)
next
  case (Inr v)
  show ?thesis
  proof (cases "ph_pytest phase")
    case None
    with Inr assms show ?thesis
      by (auto simp: run_body_def keeps_script split: option.splits sum.splits prod.splits)
  next
    case (Some ps)
    obtain x t where t: "session_pytest (cx_loads cx) (cx_decode cx) (rw_is_dir w) (rw_pytest w)
        (ph_name phase) ps False s = (x, t)" by (meson prod.exhaust)
    with Inr Some assms have "t = s'" by (simp add: run_body_def split: sum.splits)
    with keeps_pytest [OF t] show ?thesis by simp
  qed
qed

lemma keeps_cases: "keeps s (cases_from_guests fromstring to_float files phase nodes s)"
  unfolding cases_from_guests_def
  by (rule keeps_fold)
    (auto simp: cases_from_file_def keeps_def Let_def split: option.splits sum.splits)

section \<open>What the pieces of a run do to the states\<close>

lemma set_state_fields [simp]:
  "se_state (set_state n st s) = AList.update n st (se_state s)"
  "se_spec (set_state n st s) = se_spec s" "se_running (set_state n st s) = se_running s"
  "se_errors (set_state n st s) = se_errors s" "se_vms (set_state n st s) = se_vms s"
  "se_sink (set_state n st s) = se_sink s" "se_booted (set_state n st s) = se_booted s"
  by (simp_all add: set_state_def)

lemma release_fields [simp]:
  "se_state (release ns s) = se_state s" "se_spec (release ns s) = se_spec s"
  "se_errors (release ns s) = se_errors s" "se_vms (release ns s) = se_vms s"
  "se_sink (release ns s) = se_sink s" "se_booted (release ns s) = se_booted s"
  "se_running (release ns s) = dict_pop_all ns (se_running s)"
  by (simp_all add: release_def)

lemma record_phase_fields [simp]:
  "se_state (record_phase p x s) = se_state s" "se_spec (record_phase p x s) = se_spec s"
  "se_errors (record_phase p x s) = se_errors s" "se_vms (record_phase p x s) = se_vms s"
  "se_sink (record_phase p x s) = se_sink s" "se_booted (record_phase p x s) = se_booted s"
  "se_running (record_phase p x s) = se_running s"
  by (simp_all add: record_phase_def)

lemma skip_one_fields [simp]:
  "se_spec (skip_one f n s) = se_spec s" "se_running (skip_one f n s) = se_running s"
  "se_errors (skip_one f n s) = se_errors s" "se_vms (skip_one f n s) = se_vms s"
  "se_booted (skip_one f n s) = se_booted s" "(se_sink (skip_one f n s) = None) = (se_sink s = None)"
  by (simp_all add: skip_one_def)

lemma skip_fold_state:
  "distinct ns \<Longrightarrow>
     map_of (se_state (fold (skip_one f) ns s)) n =
       (if n \<in> set ns \<and> map_of (se_state s) n = Some PENDING then Some SKIPPED
        else map_of (se_state s) n)"
  by (induction ns arbitrary: s) (auto simp: skip_one_def)

lemma skip_fold_fields [simp]:
  "se_spec (fold (skip_one f) ns s) = se_spec s" "se_running (fold (skip_one f) ns s) = se_running s"
  "se_errors (fold (skip_one f) ns s) = se_errors s" "se_vms (fold (skip_one f) ns s) = se_vms s"
  "se_booted (fold (skip_one f) ns s) = se_booted s"
  "(se_sink (fold (skip_one f) ns s) = None) = (se_sink s = None)"
  by (induction ns arbitrary: s) simp_all

lemma skipped_by_phases: "n \<in> skipped_by f ps \<Longrightarrow> n \<in> set (phase_names ps)"
  using needs_phase by (fastforce simp: skipped_by_def dependents_iff phase_names_def)

lemma skip_dependents_state:
  "map_of (se_state (skip_dependents f s)) n =
     (if n \<in> skipped_by f (sp_phases (se_spec s)) \<and> map_of (se_state s) n = Some PENDING then Some SKIPPED
      else map_of (se_state s) n)"
  using skipped_by_phases by (auto simp: skip_dependents_def skip_fold_state)

lemma skip_dependents_fields [simp]:
  "se_spec (skip_dependents f s) = se_spec s" "se_running (skip_dependents f s) = se_running s"
  "se_errors (skip_dependents f s) = se_errors s" "se_vms (skip_dependents f s) = se_vms s"
  "se_booted (skip_dependents f s) = se_booted s"
  "(se_sink (skip_dependents f s) = None) = (se_sink s = None)"
  by (simp_all add: skip_dependents_def)

lemma keeps_replay: "keeps s (replay nodes s)"
  by (simp add: replay_def keeps_emits split: option.split)

lemma run_enter_state:
  "se_state (run_enter p ns s) = AList.update (ph_name p) RUNNING (se_state s)"
  "se_running (run_enter p ns s) = dict_set_all ns (ph_name p) (se_running s)"
  "se_spec (run_enter p ns s) = se_spec s" "se_vms (run_enter p ns s) = se_vms s"
  "se_errors (run_enter p ns s) = se_errors s" "se_booted (run_enter p ns s) = se_booted s"
  by (simp_all add: run_enter_def)

lemma cases_keep [simp]:
  "se_state (cases_from_guests a b c d e s) = se_state s"
  "se_spec (cases_from_guests a b c d e s) = se_spec s"
  "se_running (cases_from_guests a b c d e s) = se_running s"
  "se_errors (cases_from_guests a b c d e s) = se_errors s"
  "(se_sink (cases_from_guests a b c d e s) = None) = (se_sink s = None)"
  "se_booted (cases_from_guests a b c d e s) = se_booted s"
  "map_option dict_keys (se_vms (cases_from_guests a b c d e s)) = map_option dict_keys (se_vms s)"
  using keeps_cases [of s a b c d e] by (simp_all add: keeps_def)

lemma replay_keep [simp]:
  "se_state (replay ns s) = se_state s" "se_spec (replay ns s) = se_spec s"
  "se_running (replay ns s) = se_running s" "se_errors (replay ns s) = se_errors s"
  "se_booted (replay ns s) = se_booted s"
  "map_option dict_keys (se_vms (replay ns s)) = map_option dict_keys (se_vms s)"
  using keeps_replay [of s ns] by (simp_all add: keeps_def)

lemma run_failed_state:
  "map_of (se_state (run_failed cx fs p ns t0 took e s)) n =
     (if n = ph_name p then Some FAILED
      else if n \<in> skipped_by (ph_name p) (sp_phases (se_spec s)) \<and> map_of (se_state s) n = Some PENDING
      then Some SKIPPED else map_of (se_state s) n)"
  by (auto simp: run_failed_def Let_def skip_dependents_state skipped_by_def dependents_def)

lemma run_failed_fields:
  "se_spec (run_failed cx fs p ns t0 took e s) = se_spec s"
  "se_running (run_failed cx fs p ns t0 took e s) = dict_pop_all ns (se_running s)"
  "se_errors (run_failed cx fs p ns t0 took e s) = AList.update (ph_name p) (error_text e) (se_errors s)"
  by (simp_all add: run_failed_def Let_def)

lemma run_passed_fields:
  "se_state (run_passed cx fs p ns t0 took s) = AList.update (ph_name p) PASSED (se_state s)"
  "se_spec (run_passed cx fs p ns t0 took s) = se_spec s"
  "se_running (run_passed cx fs p ns t0 took s) = dict_pop_all ns (se_running s)"
  "se_errors (run_passed cx fs p ns t0 took s) = se_errors s"
  by (simp_all add: run_passed_def Let_def)

lemma run_interrupted_fields:
  "se_state (run_interrupted p ns t0 s) = AList.update (ph_name p) INTERRUPTED (se_state s)"
  "se_spec (run_interrupted p ns t0 s) = se_spec s"
  "se_running (run_interrupted p ns t0 s) = dict_pop_all ns (se_running s)"
  "se_errors (run_interrupted p ns t0 s) = se_errors s"
  by (simp_all add: run_interrupted_def Let_def)

text \<open>No piece changes which guests there are.\<close>

lemma run_pieces_guests:
  "map_option dict_keys (se_vms (run_failed cx fs p ns t0 took e s)) = map_option dict_keys (se_vms s)"
  "map_option dict_keys (se_vms (run_passed cx fs p ns t0 took s)) = map_option dict_keys (se_vms s)"
  "map_option dict_keys (se_vms (run_interrupted p ns t0 s)) = map_option dict_keys (se_vms s)"
  by (simp_all add: run_failed_def run_passed_def run_interrupted_def Let_def)

lemmas run_pieces = run_pieces_guests run_enter_state run_failed_state run_failed_fields run_passed_fields run_interrupted_fields

lemma run_verdict:
  assumes "se_vms s = Some vms" "fst (drain (cx_loads cx) (cx_decode cx) s) = None"
    and "s2 = run_enter p (phase_nodes p vms) (snd (drain (cx_loads cx) (cx_decode cx) s))"
    and "fst (run_body cx w p s2) = e" "e \<noteq> Some Cancelled"
    and "fst (settle (cx_loads cx) (cx_decode cx) (rw_settle w) (Some (phase_nodes p vms)) (snd (run_body cx w p s2))) = None"
  shows "fst (run cx w p s) = Inr (if e = None then PASSED else FAILED)"
  using assms
  by (auto simp: run_def run_finish_def Let_def split: prod.splits option.splits exn.splits)

section \<open>The cases of a pytest phase\<close>

definition is_case :: "string \<Rightarrow> event \<Rightarrow> bool" where
  "is_case outcome e = (ev_kind e = K_CASE \<and> jget (ev_data e) ''outcome'' = JStr outcome)"

definition case_count :: "string \<Rightarrow> session \<Rightarrow> nat" where
  "case_count outcome s = length (filter (is_case outcome) (stream s))"

text \<open>What a session does on its own is no test case.\<close>

definition no_cases :: "session \<Rightarrow> session \<Rightarrow> bool" where
  "no_cases s s' = ((se_sink s' = None) = (se_sink s = None) \<and> (\<forall>outcome. case_count outcome s' = case_count outcome s))"

lemma no_cases_refl [simp]: "no_cases s s"
  by (simp add: no_cases_def)

lemma no_cases_trans: "no_cases s t \<Longrightarrow> no_cases t u \<Longrightarrow> no_cases s u"
  by (simp add: no_cases_def)

lemma no_cases_sink: "se_sink s' = se_sink s \<Longrightarrow> no_cases s s'"
  by (simp add: no_cases_def case_count_def stream_def)

lemma is_case_stamped [simp]: "is_case o1 (stamped s e) = is_case o1 e"
  by (simp add: is_case_def)

lemma case_count_emits:
  "se_sink s \<noteq> None \<Longrightarrow> case_count o1 (emits es s) = case_count o1 s + length (filter (is_case o1) es)"
  by (auto simp: case_count_def stream_emits filter_map_comp)

lemma no_cases_emits: "\<forall>e\<in>set es. ev_kind e \<noteq> K_CASE \<Longrightarrow> no_cases s (emits es s)"
proof (cases "se_sink s = None")
  case True
  then show ?thesis by (simp add: emits_eq no_cases_sink)
next
  case False
  moreover assume "\<forall>e\<in>set es. ev_kind e \<noteq> K_CASE"
  ultimately show ?thesis by (simp add: no_cases_def case_count_emits is_case_def filter_empty_conv)
qed

lemma no_cases_emit: "ev_kind e \<noteq> K_CASE \<Longrightarrow> no_cases s (emit e s)"
  using no_cases_emits [of "[e]" s] by simp

lemma no_cases_drain_lines: "no_cases s (snd (drain_lines loads decode name ls s))"
proof (induction loads decode name ls s rule: drain_lines.induct)
  case (2 loads decode name line ls s)
  have d: "no_cases s (drain_entry name e s)" for e
    by (auto simp: drain_entry_def journal_event_def intro: no_cases_emit no_cases_sink)
  from 2 show ?case by (auto split: sum.split option.split intro: no_cases_trans [OF d])
qed simp

lemma no_cases_drain_tails: "no_cases s (snd (drain_tails loads decode ts s))"
proof (induction loads decode ts s rule: drain_tails.induct)
  case (2 loads decode name t rest s)
  obtain ls t' where r: "tail_read decode (map_option length (map_of (se_files s) name))
      (dict_get (se_files s) name []) t = (ls, t')" by (meson prod.exhaust)
  let ?s1 = "s\<lparr>se_journals := AList.update name t' (se_journals s)\<rparr>"
  obtain e s2 where l: "drain_lines loads decode name ls ?s1 = (e, s2)" by (meson prod.exhaust)
  have "no_cases s ?s1" by (rule no_cases_sink) simp
  moreover have "no_cases ?s1 s2" using no_cases_drain_lines [of ?s1 loads decode name ls] l by simp
  ultimately have s2: "no_cases s s2" by (rule no_cases_trans)
  show ?case
  proof (cases e)
    case None
    have "no_cases s2 (snd (drain_tails loads decode rest s2))"
      using "2.IH" [OF r [symmetric] l [symmetric]] None by simp
    with r l None s2 show ?thesis by (simp add: no_cases_trans)
  next
    case (Some x)
    with r l s2 show ?thesis by simp
  qed
qed simp

lemma no_cases_drain: "no_cases s (snd (drain loads decode s))"
  by (simp add: drain_def no_cases_drain_tails)

lemma no_cases_act: "no_cases s (act loads decode phase a s)"
proof (cases a)
  case (Print said)
  have "no_cases s (lines_write phase said s)" unfolding lines_write_def by (rule no_cases_emits) simp
  then show ?thesis unfolding Print by (simp add: task_print_def no_cases_sink)
next
  case (Console machine line)
  let ?s1 = "s\<lparr>se_vms := map_option (map (\<lambda>(n, g). (n, if n = machine then push_history line g else g))) (se_vms s)\<rparr>"
  have "no_cases s ?s1" by (rule no_cases_sink) simp
  moreover have "no_cases ?s1 (on_console machine line ?s1)" by (simp add: on_console_def no_cases_emit)
  ultimately show ?thesis unfolding Console by (simp add: no_cases_trans)
qed (auto simp: on_command_def no_cases_drain intro: no_cases_emit no_cases_sink)

lemma no_cases_acts: "no_cases s (acts loads decode phase xs s)"
  unfolding acts_def by (rule fold_keeps [where P = "no_cases s"]) (auto intro: no_cases_trans no_cases_act)

lemma no_cases_case:
  "no_cases s (snd (begin_case loads decode n s))" "no_cases s (snd (end_case loads decode s))"
  using no_cases_drain [of s loads decode]
  by (auto simp: begin_case_def end_case_def no_cases_def case_count_def stream_def split: prod.splits option.splits)

text \<open>The plugin's counter agrees with the cases in the stream of the run.\<close>

definition cases_agree :: "plugin \<Rightarrow> session \<Rightarrow> plugin \<times> session \<Rightarrow> bool" where
  "cases_agree p0 s0 = (\<lambda>(p, s). plugin_ok p0 p \<and> se_sink s \<noteq> None \<and>
     (\<forall>outcome. case_count outcome s + cases_sent p0 outcome = case_count outcome s0 + cases_sent p outcome))"

lemma cases_agree_session: "cases_agree p0 s0 (p, s) \<Longrightarrow> no_cases s s' \<Longrightarrow> cases_agree p0 s0 (p, s')"
  by (auto simp: cases_agree_def no_cases_def)

lemma cases_agree_plugin:
  assumes a: "cases_agree p0 s0 (p, s)" and f: "plugin_ok p (f p)"
  shows "cases_agree p0 s0 (plugin_step f (p, s))"
proof -
  obtain new where new: "pl_sent (f p) = pl_sent p @ new"
    using f by (auto simp: plugin_ok_def prefix_def)
  have "cases_sent (f p) o1 = cases_sent p o1 + length (filter (is_case o1) new)" for o1
    by (simp add: cases_sent_def is_case_def [abs_def] new)
  moreover have "se_sink s \<noteq> None" using a by (simp add: cases_agree_def)
  moreover have "plugin_ok p0 (f p)" using a f plugin_ok_trans by (auto simp: cases_agree_def)
  moreover have "se_sink (emits new s) \<noteq> None" using calculation(2) emits_fields(26) [of new s] by simp
  ultimately show ?thesis using a
    by (simp add: cases_agree_def plugin_step_def Let_def new case_count_emits del: not_None_eq)
qed

lemma cases_agree_hook:
  assumes "cases_agree p0 s0 (p, s)"
  shows "cases_agree p0 s0 (run_hook loads decode h (p, s))"
proof -
  have "plugin_ok p p" using assms by (auto simp: cases_agree_def plugin_ok_def)
  then show ?thesis using assms
    by (cases h) (auto intro: cases_agree_session no_cases_case no_cases_acts cases_agree_plugin plugin_ok_reports)
qed

lemma run_hooks_counts:
  assumes "run_hooks loads decode hs (new_plugin name by_hand, s) = (p, s')" "se_sink s \<noteq> None"
  shows "case_count outcome s' = case_count outcome s + dict_get (pl_outcomes p) outcome 0 \<and> marks_ok p \<and>
    pl_by_hand p = by_hand"
proof -
  have "cases_agree (new_plugin name by_hand) s (run_hooks loads decode hs (new_plugin name by_hand, s))"
    unfolding run_hooks_def
  proof (rule fold_keeps)
    show "cases_agree (new_plugin name by_hand) s (new_plugin name by_hand, s)"
      using assms(2) plugin_ok_new by (simp add: cases_agree_def)
  qed (auto intro: cases_agree_hook)
  with assms show ?thesis
    by (auto simp: cases_agree_def plugin_ok_def counts_agree_def) (simp_all add: new_plugin_def cases_sent_def)
qed

section \<open>Standard output\<close>

text \<open>The writer that turns lines into events is in place exactly while some phase is captured.\<close>

definition stdout_ok :: "session \<Rightarrow> bool" where
  "stdout_ok s = (se_stdout_lines s = (se_captures s > 0))"

lemma stdout_ok_capture: "stdout_ok s \<Longrightarrow> stdout_ok (capture_enter s)" "stdout_ok s \<Longrightarrow> stdout_ok (capture_exit s)"
  by (auto simp: stdout_ok_def capture_enter_def capture_exit_def Let_def)

end
