(* ===== verification/Boot.thy ===== *)
theory Boot
  imports Run_Phase
begin

text \<open>
  \<^verbatim>\<open>src/pkgs/uml/uml/session.py\<close>, third part: \<open>boot\<close> and \<open>teardown\<close>, with
  \<open>Machine.resolve_forward\<close> of \<^verbatim>\<open>src/pkgs/uml-runner/uml_runner/machine.py\<close>, which \<open>boot\<close> calls for
  every guest before any is spawned. What spawning comes to is data: which guests failed, in the
  order they did, and what the guests said on the way up.
\<close>

record boot_world =
  bw_can_bind :: "string \<Rightarrow> int \<Rightarrow> bool"
  bw_start :: int
  bw_acts :: "action list"
  bw_starts :: "(string \<times> exn option) list"

definition fault :: "forward_error \<Rightarrow> exn" where
  "fault e = (case e of ForwardError m \<Rightarrow> Exn ''ForwardError'' m | PyError n \<Rightarrow> Exn n [])"

text \<open>\<open>Machine.resolve_forward\<close>: the guest with its forwards settled, and the set of addresses taken.\<close>

definition forward_lines :: "rule list \<Rightarrow> string list" where
  "forward_lines rules =
     map (\<lambda>r. ''forwarding '' @
       (case ru_ports r of AllPorts \<Rightarrow> ''all ports'' | Ports ps \<Rightarrow> join '', '' (map port_str ps)) @
       '' on '' @ opt_str (ru_address r)) rules"

definition resolve_forward ::
  "(string \<Rightarrow> int \<Rightarrow> bool) \<Rightarrow> int \<Rightarrow> guest \<Rightarrow> string set \<Rightarrow> session \<Rightarrow>
     (exn + (guest \<times> string set)) \<times> session" where
  "resolve_forward can_bind start g taken s =
     (let name = mp_name (gu_spec g);
          log = (\<lambda>ls s. fold (on_console name) ls s)
      in case resolve can_bind start (mp_forward (gu_spec g)) taken of
           Inl e \<Rightarrow> (Inl (fault e), s)
         | Inr (rules, notes, taken') \<Rightarrow>
            (let s1 = log (map (\<lambda>n. ''warning: '' @ n) notes) s in
             case probe_rules can_bind rules of
               Inl e \<Rightarrow> (Inl (fault e), s1)
             | Inr _ \<Rightarrow> (Inr (g\<lparr>gu_spec := (gu_spec g)\<lparr>mp_forward := rules\<rparr>\<rparr>, taken'), log (forward_lines rules) s1)))"

fun resolve_guests ::
  "(string \<Rightarrow> int \<Rightarrow> bool) \<Rightarrow> int \<Rightarrow> (string, guest) dict \<Rightarrow> string set \<Rightarrow> session \<Rightarrow>
     (exn + (string, guest) dict) \<times> session" where
  "resolve_guests can_bind start [] taken s = (Inr [], s)"
| "resolve_guests can_bind start ((n, g) # gs) taken s =
     (case resolve_forward can_bind start g taken s of
        (Inl e, s') \<Rightarrow> (Inl e, s')
      | (Inr (g', taken'), s') \<Rightarrow>
          (case resolve_guests can_bind start gs taken' s' of
             (Inl e, s'') \<Rightarrow> (Inl e, s'')
           | (Inr gs', s'') \<Rightarrow> (Inr ((n, g') # gs'), s'')))"

text \<open>The segments: the members of each network, in the order of the machines.\<close>

definition segments :: "machine_spec list \<Rightarrow> (string, string list) dict" where
  "segments guests =
     fold (\<lambda>m d. case mp_network m of None \<Rightarrow> d
                 | Some n \<Rightarrow> if n = [] then d else AList.update n (dict_get d n [] @ [mp_name m]) d) guests []"

definition lan_fds :: "lan list \<Rightarrow> (string, sock) dict" where
  "lan_fds lans = fold (\<lambda>l d. fold (\<lambda>(n, fd). AList.update n fd) (la_fds l) d) lans []"

text \<open>\<open>_start_all\<close>: every guest is started, and the failures are collected as they come.\<close>

definition start_all :: "(string \<times> exn option) list \<Rightarrow> exn list" where
  "start_all starts = concat (map (\<lambda>(n, e). case e of None \<Rightarrow> [] | Some x \<Rightarrow> [x]) starts)"

definition detach_lans :: "session \<Rightarrow> session" where
  "detach_lans s =
     (case fold (\<lambda>l (ls, k). case lan_detach l k of (l', k') \<Rightarrow> (ls @ [l'], k')) (se_lans s) ([], se_sockets s) of
        (ls, k) \<Rightarrow> s\<lparr>se_lans := ls, se_sockets := k\<rparr>)"

definition new_guest :: "machine_spec \<Rightarrow> guest" where
  "new_guest m = \<lparr> gu_spec = m, gu_history = [], gu_alive = False \<rparr>"

definition boot_config :: "session \<Rightarrow> (string, string) dict \<times> jdict list" where
  "boot_config s =
     (case se_kernel s of
        None \<Rightarrow> (Run_Spec.toolchain (se_spec s), sp_machines (se_spec s))
      | Some krn \<Rightarrow> with_kernel (Run_Spec.toolchain (se_spec s)) (sp_machines (se_spec s)) krn)"

definition kernel_note :: "session \<Rightarrow> session" where
  "kernel_note s =
     (case se_kernel s of None \<Rightarrow> s
      | Some krn \<Rightarrow>
          emit (mk_event K_NOTE (''booting '' @ krn @ '', not the kernel Nix built; this is not the check'')
                  L_ERROR None None None [(''kernel'', JStr krn)]) s)"

definition fresh_journals :: "machine_spec list \<Rightarrow> session \<Rightarrow> session" where
  "fresh_journals guests s =
     s\<lparr>se_files := fold (\<lambda>m. AList.delete (mp_name m)) guests (se_files s),
       se_journals := fold (\<lambda>m. AList.update (mp_name m) fresh_tail) guests []\<rparr>"

definition guests_up :: "(string \<times> exn option) list \<Rightarrow> (string, guest) dict \<Rightarrow> (string, guest) dict" where
  "guests_up starts vms =
     map (\<lambda>(n, g). (n, g\<lparr>gu_alive := (map_of starts n = Some None)\<rparr>)) vms"

text \<open>The part of \<open>boot\<close> that awaits: everything is spawned, and each guest settles.\<close>

definition boot_start ::
  "env \<Rightarrow> boot_world \<Rightarrow> (string, guest) dict \<Rightarrow> session \<Rightarrow> outcome" where
  "boot_start cx w vms s =
     (let s1 = s\<lparr>se_sockets := fold lan_start (se_lans s) (se_sockets s), se_vms := Some vms\<rparr>;
          s2 = acts (cx_loads cx) (cx_decode cx) None (bw_acts w) (capture_enter s1);
          s3 = detach_lans (capture_exit (s2\<lparr>se_vms := map_option (guests_up (bw_starts w)) (se_vms s2)\<rparr>))
      in case start_all (bw_starts w) of
           e # _ \<Rightarrow> (Some e, s3)
         | [] \<Rightarrow> (None, s3\<lparr>se_booted := True\<rparr>))"

definition boot :: "env \<Rightarrow> boot_world \<Rightarrow> session \<Rightarrow> outcome" where
  "boot cx w s =
     (if se_booted s then (Some (SessionError ''already booted''), s)
      else
        (let (tools, machines) = boot_config s; s1 = kernel_note s in
         case toolchain_from_json tools of
           Inl e \<Rightarrow> (Some (fault e), s1)
         | Inr _ \<Rightarrow>
          (case map_result machine_from_json machines of
             Inl e \<Rightarrow> (Some (fault e), s1)
           | Inr guests \<Rightarrow>
            (case build_lans (segments guests) (se_sockets s1) of
               Inl m \<Rightarrow> (Some (Exn ''ValueError'' m), s1)
             | Inr (lans, k) \<Rightarrow>
                (let s2 = emit (mk_event K_BOOT (''booting '' @ join '', '' (map mp_name guests)) L_INFO None None None [])
                            (s1\<lparr>se_lans := lans, se_sockets := k\<rparr>);
                     s3 = fresh_journals guests s2;
                     vms = fold (\<lambda>m. AList.update (mp_name m) (new_guest m)) guests []
                 in case resolve_guests (bw_can_bind w) (bw_start w) vms {} s3 of
                      (Inl e, s4) \<Rightarrow> (Some e, s4)
                    | (Inr vms', s4) \<Rightarrow> boot_start cx w vms' s4)))))"

section \<open>teardown\<close>

text \<open>\<open>_shutdown\<close> prints what a guest raised and goes on; which guests raise is data.\<close>

definition shutdown_one :: "(string \<Rightarrow> string option) \<Rightarrow> string \<Rightarrow> session \<Rightarrow> session" where
  "shutdown_one raises name s =
     (case raises name of None \<Rightarrow> s
      | Some e \<Rightarrow> task_print None (''[uml] '' @ name @ '' did not shut down cleanly: '' @ e @ [LF]) s)"

definition close_lans :: "session \<Rightarrow> session" where
  "close_lans s =
     fold (\<lambda>l s. case lan_close l (se_sockets s) of
             (said, l', k) \<Rightarrow> fold (\<lambda>m. task_print None (m @ [LF])) said (s\<lparr>se_sockets := k\<rparr>))
       (se_lans s) s"

definition teardown :: "(string \<Rightarrow> string option) \<Rightarrow> session \<Rightarrow> session" where
  "teardown raises s =
     (let s1 = (case se_vms s of None \<Rightarrow> s
                | Some vms \<Rightarrow> (fold (shutdown_one raises) (dict_keys vms) s)\<lparr>se_vms := None\<rparr>)
      in (close_lans s1)\<lparr>se_lans := [], se_booted := False\<rparr>)"

section \<open>Addresses\<close>

text \<open>The addresses a guest's forwards ended up on.\<close>

definition guest_addresses :: "guest \<Rightarrow> string set" where
  "guest_addresses g = {a. \<exists>r\<in>set (mp_forward (gu_spec g)). ru_address r = Some a}"

lemma resolve_fresh:
  assumes "resolve can_bind start rules taken = Inr (rs, said, taken')"
    and "\<forall>r\<in>set rules. ru_address r = None"
  shows "taken \<subseteq> taken' \<and> (\<forall>r\<in>set rs. \<exists>a. ru_address r = Some a \<and> a \<in> taken' - taken)"
proof (cases "filter (\<lambda>r. ru_address r = None) rules = []")
  case True
  with assms(2) have "rules = []" by (auto simp: filter_empty_conv)
  with resolve_none [OF assms(1) True] show ?thesis by simp
next
  case False
  then obtain a where a: "assign can_bind (filter (\<lambda>r. ru_address r = None) rules) taken = Inr a"
    "taken' = insert a taken" "remap_all start (map (with_address a) rules) = (rs, said)"
    using resolve_some [OF assms(1)] by blast
  have "ru_address r' = Some a" if r': "r' \<in> set rs" for r'
  proof -
    obtain r n where r: "r \<in> set rules" "remap_rule (with_address a r) start = (r', n)"
      using remap_all_from [OF a(3) r'] by fastforce
    with remap_rule_fields [OF r(2)] assms(2) show ?thesis by (simp add: with_address_def)
  qed
  with a assign_ok [OF a(1)] show ?thesis by auto
qed

lemma resolve_forward_fresh:
  assumes "resolve_forward can_bind start g taken s = (Inr (g', taken'), s')"
    and "\<forall>r\<in>set (mp_forward (gu_spec g)). ru_address r = None"
  shows "taken \<subseteq> taken' \<and> guest_addresses g' \<subseteq> taken' - taken"
proof -
  obtain rules said where r: "resolve can_bind start (mp_forward (gu_spec g)) taken = Inr (rules, said, taken')"
    and g': "mp_forward (gu_spec g') = rules"
    using assms(1) by (auto simp: resolve_forward_def Let_def split: sum.splits prod.splits)
  note f = resolve_fresh [OF r assms(2)]
  have "a \<in> taken' - taken" if "r \<in> set rules" "ru_address r = Some a" for r a
    using f that by fastforce
  with f g' show ?thesis by (auto simp: guest_addresses_def)
qed

lemma resolve_guests_apart:
  "resolve_guests can_bind start vms taken s = (Inr vms', s') \<Longrightarrow>
     \<forall>(n, g)\<in>set vms. \<forall>r\<in>set (mp_forward (gu_spec g)). ru_address r = None \<Longrightarrow>
     sorted_wrt (\<lambda>(n, g) (m, h). guest_addresses g \<inter> guest_addresses h = {}) vms' \<and>
     (\<forall>(n, g)\<in>set vms'. guest_addresses g \<inter> taken = {})"
proof (induction vms arbitrary: taken s vms')
  case Nil
  then show ?case by simp
next
  case (Cons x vms)
  obtain n g where x: "x = (n, g)" by force
  obtain g' taken1 s1 where r: "resolve_forward can_bind start g taken s = (Inr (g', taken1), s1)"
    using Cons.prems(1) x by (auto split: prod.splits sum.splits)
  then obtain gs where gs: "resolve_guests can_bind start vms taken1 s1 = (Inr gs, s')" "vms' = (n, g') # gs"
    using Cons.prems(1) x by (auto split: prod.splits sum.splits)
  have f: "taken \<subseteq> taken1 \<and> guest_addresses g' \<subseteq> taken1 - taken"
    using resolve_forward_fresh [OF r] Cons.prems(2) x by simp
  have ih: "sorted_wrt (\<lambda>(n, g) (m, h). guest_addresses g \<inter> guest_addresses h = {}) gs"
    "\<And>m h. (m, h) \<in> set gs \<Longrightarrow> guest_addresses h \<inter> taken1 = {}"
    using Cons.IH [OF gs(1)] Cons.prems(2) by auto
  have "guest_addresses g' \<inter> guest_addresses h = {}" "guest_addresses h \<inter> taken = {}"
    if "(m, h) \<in> set gs" for m h
    using ih(2) [OF that] f by blast+
  moreover have "guest_addresses g' \<inter> taken = {}" using f by blast
  ultimately show ?case using ih(1) unfolding gs(2) by fastforce
qed

end
