(* ===== verification/Scheduler.thy ===== *)
theory Scheduler
  imports Boot
begin

text \<open>
  \<^verbatim>\<open>src/pkgs/uml/uml/cli.py\<close>: \<open>_schedule\<close>, which starts every phase that may start and asks again each
  time one ends, and the part of \<open>Controller.pause\<close> it waits in.

  The coroutine and the tasks it starts interleave only where they await. So \<open>sched_turn\<close> is one
  pass of the \<open>while\<close> loop from its top to the next await, and a task is where it stands in
  \<open>Session.run\<close>: started but not in yet (\<open>Launched\<close>), in the body (\<open>Inside\<close>), or waiting for the
  guests' journals with the outcome already decided (\<open>Settling\<close>). \<open>sched_step\<close> takes the steps in
  any order; before each step anything the tasks and the follower do may happen (\<open>work\<close>).
\<close>

datatype sched_mode = Deciding | Waiting | Paused string | Finished | Stopped

datatype task =
    Launched
  | Inside "string list" seconds
  | Settling "string list" seconds seconds "exn option"

record sched_config =
  sg_control :: bool
  sg_breaks :: "string set"
  sg_break_on_failure :: bool
  sg_serial :: bool
  sg_every :: "string set"

record sched =
  sc_session :: session
  sc_running :: "(string, phase_spec) dict"
  sc_failed :: "string list"
  sc_paused_before :: "string set"
  sc_changed :: bool
  sc_mode :: sched_mode
  sc_tasks :: "(string, task) dict"

definition sched_phases :: "sched \<Rightarrow> phase_spec list" where
  "sched_phases st = sp_phases (se_spec (sc_session st))"

definition sched_start :: "session \<Rightarrow> sched" where
  "sched_start s = \<lparr> sc_session = s, sc_running = [], sc_failed = [], sc_paused_before = {},
     sc_changed = False, sc_mode = Deciding, sc_tasks = [] \<rparr>"

section \<open>One turn of the loop\<close>

definition candidates :: "sched \<Rightarrow> phase_spec list" where
  "candidates st =
     filter (\<lambda>p. ph_name p \<notin> set (dict_keys (sc_running st)))
       (ready (sched_phases st) (se_state (sc_session st)))"

definition pause_reason :: "sched_config \<Rightarrow> sched \<Rightarrow> string option" where
  "pause_reason cfg st =
     (if \<not> sg_control cfg then None
      else if sg_break_on_failure cfg \<and> sc_failed st \<noteq> [] then
        Some (''after '' @ join '', '' (sc_failed st) @ '' failed'')
      else (case filter (\<lambda>n. n \<in> sg_breaks cfg - sc_paused_before st) (map ph_name (candidates st)) of
              [] \<Rightarrow> None | n # _ \<Rightarrow> Some (''before '' @ n)))"

text \<open>\<open>Controller.pause\<close>, up to the point where it waits, and after it.\<close>

definition pause_enter :: "string \<Rightarrow> session \<Rightarrow> session" where
  "pause_enter reason s =
     emit (mk_event K_NOTE (''paused '' @ reason @ ''; `uml ctl --out '' @ se_out s @ '' continue` resumes'')
             L_ERROR None None None
             [(''reason'', JStr reason), (''socket'', JStr (se_out s @ ''/control.sock''))]) s"

definition pause_leave :: "session \<Rightarrow> session" where
  "pause_leave = emit (mk_event K_NOTE ''resumed'' L_INFO None None None [])"

definition take_pause :: "string \<Rightarrow> sched \<Rightarrow> sched" where
  "take_pause reason st =
     st\<lparr>sc_paused_before := (if startswith reason ''before ''
                           then insert (removeprefix reason ''before '') (sc_paused_before st)
                           else sc_paused_before st),
        sc_failed := [], sc_mode := Paused reason,
        sc_session := pause_enter reason (sc_session st)\<rparr>"

definition todo :: "sched_config \<Rightarrow> sched \<Rightarrow> phase_spec list" where
  "todo cfg st =
     (let go = launchable (candidates st) (map snd (sc_running st)) (sg_every cfg) in
      if sg_serial cfg then (if sc_running st = [] then take 1 go else []) else go)"

definition launch :: "phase_spec \<Rightarrow> sched \<Rightarrow> sched" where
  "launch p st =
     st\<lparr>sc_running := AList.update (ph_name p) p (sc_running st),
        sc_tasks := AList.update (ph_name p) Launched (sc_tasks st)\<rparr>"

text \<open>What is said of the phases nothing could start.\<close>

definition never_ran :: "session \<Rightarrow> session" where
  "never_ran s =
     emits (concat (map (\<lambda>(n, st). if st = PENDING
        then [mk_event K_ERROR (n @ '' never ran: something in its `after` never finished'') L_ERROR
                None (Some n) None []] else []) (se_state s))) s"

definition settle_turn :: "sched \<Rightarrow> sched" where
  "settle_turn st =
     (if sc_running st = [] then st\<lparr>sc_mode := Finished, sc_session := never_ran (sc_session st)\<rparr>
      else st\<lparr>sc_mode := Waiting\<rparr>)"

definition sched_turn :: "sched_config \<Rightarrow> sched \<Rightarrow> sched" where
  "sched_turn cfg st =
     (case pause_reason cfg st of
        Some reason \<Rightarrow> if sc_running st = [] then take_pause reason st else settle_turn st
      | None \<Rightarrow> settle_turn (fold launch (todo cfg st) st))"

section \<open>Steps\<close>

definition work :: "env \<Rightarrow> (string option \<times> action) list \<Rightarrow> sched \<Rightarrow> sched" where
  "work cx busy st =
     st\<lparr>sc_session := fold (\<lambda>(ph, a). act (cx_loads cx) (cx_decode cx) ph a) busy (sc_session st)\<rparr>"

definition end_task :: "string \<Rightarrow> sched \<Rightarrow> sched" where
  "end_task n st =
     st\<lparr>sc_running := AList.delete n (sc_running st), sc_tasks := AList.delete n (sc_tasks st),
        sc_changed := True\<rparr>"

definition task_enter :: "env \<Rightarrow> phase_spec \<Rightarrow> (string, guest) dict \<Rightarrow> sched \<Rightarrow> sched" where
  "task_enter cx p vms st =
     (let nodes = phase_nodes p vms;
          s = run_enter p nodes (snd (drain (cx_loads cx) (cx_decode cx) (sc_session st)))
      in st\<lparr>sc_session := s, sc_tasks := AList.update (ph_name p) (Inside nodes (se_now s)) (sc_tasks st)\<rparr>)"

definition task_ended :: "phase_spec \<Rightarrow> string list \<Rightarrow> seconds \<Rightarrow> exn option \<Rightarrow> sched \<Rightarrow> sched" where
  "task_ended p nodes started e st =
     st\<lparr>sc_tasks := AList.update (ph_name p)
          (Settling nodes started (se_now (sc_session st) - started) e) (sc_tasks st)\<rparr>"

text \<open>The end of \<open>Session.run\<close> and of \<open>one\<close>, which follow each other without an await.\<close>

definition task_finish ::
  "env \<Rightarrow> guest_file list \<Rightarrow> phase_spec \<Rightarrow> string list \<Rightarrow> seconds \<Rightarrow> seconds \<Rightarrow> exn option \<Rightarrow> sched \<Rightarrow> sched" where
  "task_finish cx files p nodes started took e st =
     end_task (ph_name p)
       (case e of
          None \<Rightarrow> st\<lparr>sc_session := run_passed cx files p nodes started took (sc_session st)\<rparr>
        | Some x \<Rightarrow> st\<lparr>sc_session := run_failed cx files p nodes started took x (sc_session st),
                        sc_failed := sc_failed st @ [ph_name p]\<rparr>)"

text \<open>A stop reaches every task where it stands: only a task in its body records that it was stopped.\<close>

definition task_stop :: "string \<times> phase_spec \<Rightarrow> sched \<Rightarrow> sched" where
  "task_stop = (\<lambda>(n, p) st. end_task n
     (case map_of (sc_tasks st) n of
        Some (Inside nodes started) \<Rightarrow>
          st\<lparr>sc_session := run_interrupted p nodes started (sc_session st)\<rparr>
      | _ \<Rightarrow> st))"

definition sched_stop :: "sched \<Rightarrow> sched" where
  "sched_stop st = (fold task_stop (sc_running st) st)\<lparr>sc_mode := Stopped\<rparr>"

text \<open>While a phase run by hand settles, the rest of the world works as the tasks of the schedule would.\<close>

definition calm :: "run_world \<Rightarrow> bool" where
  "calm w = (\<forall>world\<in>set (sw_rounds (rw_settle w)). \<forall>s. keeps s (world s))"

inductive sched_step :: "sched_config \<Rightarrow> env \<Rightarrow> sched \<Rightarrow> sched \<Rightarrow> bool"
  for cfg :: sched_config and cx :: env where
  turn: "sc_mode st = Deciding \<Longrightarrow> sched_step cfg cx st (sched_turn cfg st)"
| wake: "sc_mode st = Waiting \<Longrightarrow> sc_changed st \<Longrightarrow>
    sched_step cfg cx st (work cx busy (st\<lparr>sc_changed := False, sc_mode := Deciding\<rparr>))"
| enter: "map_of (sc_running st) n = Some p \<Longrightarrow> map_of (sc_tasks st) n = Some Launched \<Longrightarrow>
    se_vms (sc_session st) = Some vms \<Longrightarrow> sched_step cfg cx st (work cx busy (task_enter cx p vms st))"
| ended: "map_of (sc_running st) n = Some p \<Longrightarrow> map_of (sc_tasks st) n = Some (Inside nodes started) \<Longrightarrow>
    e \<noteq> Some Cancelled \<Longrightarrow> sched_step cfg cx st (work cx busy (task_ended p nodes started e st))"
| finish: "map_of (sc_running st) n = Some p \<Longrightarrow>
    map_of (sc_tasks st) n = Some (Settling nodes started took e) \<Longrightarrow>
    sched_step cfg cx st (work cx busy (task_finish cx files p nodes started took e st))"
| resume: "sc_mode st = Paused reason \<Longrightarrow>
    sched_step cfg cx st (work cx busy (st\<lparr>sc_session := pause_leave (sc_session st), sc_mode := Deciding\<rparr>))"
| by_hand: "sc_mode st = Paused reason \<Longrightarrow> p \<in> set (sched_phases st) \<Longrightarrow>
    run cx w p (sc_session st) = (Inr verdict, s') \<Longrightarrow> calm w \<Longrightarrow>
    sched_step cfg cx st (work cx busy (st\<lparr>sc_session := s'\<rparr>))"
| stop: "sc_mode st \<noteq> Finished \<Longrightarrow> sc_mode st \<noteq> Stopped \<Longrightarrow> sched_step cfg cx st (sched_stop st)"

inductive_cases sched_stepE: "sched_step cfg cx st st'"

section \<open>One guest, one phase\<close>

text \<open>
  \<open>held_once\<close>: the phases running at any moment claim disjoint sets of guests, every guest a phase
  is in is attributed to it, and a pause means nothing is running. It holds whatever a client runs by
  hand while paused, as long as it is answered before the schedule goes on.
\<close>

definition task_nodes :: "task \<Rightarrow> string set" where
  "task_nodes t = (case t of Launched \<Rightarrow> {} | Inside ns _ \<Rightarrow> set ns | Settling ns _ _ _ \<Rightarrow> set ns)"

definition quiet_mode :: "sched_mode \<Rightarrow> bool" where
  "quiet_mode m = (case m of Deciding \<Rightarrow> False | Waiting \<Rightarrow> False | _ \<Rightarrow> True)"

definition guests_known :: "sched_config \<Rightarrow> session \<Rightarrow> bool" where
  "guests_known cfg s = (\<forall>ks. map_option dict_keys (se_vms s) = Some ks \<longrightarrow> set ks \<subseteq> sg_every cfg)"

definition attributed :: "sched_config \<Rightarrow> sched \<Rightarrow> bool" where
  "attributed cfg st =
     (\<forall>n p t. map_of (sc_running st) n = Some p \<longrightarrow> map_of (sc_tasks st) n = Some t \<longrightarrow>
        (\<forall>g\<in>task_nodes t \<inter> sg_every cfg. g \<in> claims p (sg_every cfg) \<and>
           map_of (se_running (sc_session st)) g = Some n))"

definition apart :: "sched_config \<Rightarrow> sched \<Rightarrow> bool" where
  "apart cfg st =
     (\<forall>n p m q. map_of (sc_running st) n = Some p \<longrightarrow> map_of (sc_running st) m = Some q \<longrightarrow> n \<noteq> m \<longrightarrow>
        claims p (sg_every cfg) \<inter> claims q (sg_every cfg) = {})"

definition tasks_match :: "sched \<Rightarrow> bool" where
  "tasks_match st =
     (dom (map_of (sc_tasks st)) = dom (map_of (sc_running st)) \<and>
      (\<forall>n p. map_of (sc_running st) n = Some p \<longrightarrow> ph_name p = n) \<and>
      (quiet_mode (sc_mode st) \<longrightarrow> sc_running st = []))"

definition held_once :: "sched_config \<Rightarrow> sched \<Rightarrow> bool" where
  "held_once cfg st =
     (tasks_match st \<and> apart cfg st \<and> attributed cfg st \<and> guests_known cfg (sc_session st) \<and>
      distinct (dict_keys (sc_running st)))"

lemma work_fields [simp]:
  "sc_running (work cx busy st) = sc_running st" "sc_tasks (work cx busy st) = sc_tasks st"
  "sc_mode (work cx busy st) = sc_mode st" "sc_failed (work cx busy st) = sc_failed st"
  "sc_changed (work cx busy st) = sc_changed st" "sc_paused_before (work cx busy st) = sc_paused_before st"
  by (simp_all add: work_def)

lemma keeps_work: "keeps (sc_session st) (sc_session (work cx busy st))"
  unfolding work_def sched.simps
  by (simp, rule keeps_fold) (simp add: keeps_act split: prod.split)

lemma work_states [simp]:
  "se_state (sc_session (work cx busy st)) = se_state (sc_session st)"
  "se_running (sc_session (work cx busy st)) = se_running (sc_session st)"
  "sched_phases (work cx busy st) = sched_phases st"
  "map_option dict_keys (se_vms (sc_session (work cx busy st))) = map_option dict_keys (se_vms (sc_session st))"
  using keeps_work [of st cx busy] by (simp_all add: keeps_def sched_phases_def)

lemma held_once_work: "held_once cfg (work cx busy st) = held_once cfg st"
  by (simp add: held_once_def tasks_match_def apart_def attributed_def guests_known_def)

lemma launched_tasks:
  "map_of (sc_tasks (fold launch ps st)) n =
     (if n \<in> ph_name ` set ps then Some Launched else map_of (sc_tasks st) n)"
  by (induction ps arbitrary: st) (auto simp: launch_def)

lemma launched_running:
  "n \<notin> ph_name ` set ps \<Longrightarrow> map_of (sc_running (fold launch ps st)) n = map_of (sc_running st) n"
  "n \<in> ph_name ` set ps \<Longrightarrow>
     \<exists>p\<in>set ps. ph_name p = n \<and> map_of (sc_running (fold launch ps st)) n = Some p"
proof (induction ps arbitrary: st)
  case (Cons p ps)
  {
    case 1
    with Cons.IH(1) show ?case by (simp add: launch_def)
  next
    case 2
    show ?case
    proof (cases "n \<in> ph_name ` set ps")
      case True
      with Cons.IH(2) [of "launch p st"] show ?thesis by auto
    next
      case False
      with 2 Cons.IH(1) [of "launch p st"] show ?thesis by (auto simp: launch_def)
    qed
  }
qed simp_all

lemma launched_fields [simp]:
  "sc_session (fold launch ps st) = sc_session st" "sc_mode (fold launch ps st) = sc_mode st"
  "sc_changed (fold launch ps st) = sc_changed st" "sc_failed (fold launch ps st) = sc_failed st"
  "sc_paused_before (fold launch ps st) = sc_paused_before st"
  by (induction ps arbitrary: st) (simp_all add: launch_def)

lemma launched_distinct:
  "distinct (dict_keys (sc_running st)) \<Longrightarrow> distinct (dict_keys (sc_running (fold launch ps st)))"
  by (induction ps arbitrary: st) (simp_all add: launch_def dict_simps)

lemma subseq_set: "subseq xs ys \<Longrightarrow> x \<in> set xs \<Longrightarrow> x \<in> set ys"
  by (auto dest: list_emb_set)

lemma sorted_wrt_subseq: "subseq xs ys \<Longrightarrow> sorted_wrt P ys \<Longrightarrow> sorted_wrt P xs"
  by (induction rule: list_emb.induct) (auto dest: list_emb_set)

lemma sorted_wrt_sym:
  "sorted_wrt P xs \<Longrightarrow> (\<And>x y. P x y \<Longrightarrow> P y x) \<Longrightarrow> x \<in> set xs \<Longrightarrow> y \<in> set xs \<Longrightarrow> x \<noteq> y \<Longrightarrow> P x y"
  by (induction xs) auto

lemma todo_launchable:
  "subseq (todo cfg st) (launchable (candidates st) (map snd (sc_running st)) (sg_every cfg))"
  by (simp add: todo_def Let_def take_is_prefix prefix_imp_subseq)

lemma todo_candidates: "p \<in> set (todo cfg st) \<Longrightarrow> p \<in> set (candidates st)"
  using todo_launchable launchable_in_ready by (metis subseq_set)

lemma todo_pairwise:
  "sorted_wrt (\<lambda>p q. claims p (sg_every cfg) \<inter> claims q (sg_every cfg) = {}) (todo cfg st)"
  using sorted_wrt_subseq [OF todo_launchable] launch_loop_pairwise by (simp add: launchable_def)

lemma todo_apart:
  assumes "p \<in> set (todo cfg st)" "q \<in> set (todo cfg st)" "p \<noteq> q"
  shows "claims p (sg_every cfg) \<inter> claims q (sg_every cfg) = {}"
  by (rule sorted_wrt_sym [OF todo_pairwise _ assms]) auto

lemma todo_free:
  assumes "p \<in> set (todo cfg st)" "map_of (sc_running st) n = Some q"
  shows "claims p (sg_every cfg) \<inter> claims q (sg_every cfg) = {}"
proof -
  have "p \<in> set (launchable (candidates st) (map snd (sc_running st)) (sg_every cfg))"
    using todo_launchable assms(1) by (rule subseq_set)
  then have "claims p (sg_every cfg) \<inter> held_by (map snd (sc_running st)) (sg_every cfg) = {}"
    unfolding launchable_def by (rule launch_loop_disjoint_held)
  moreover have "(n, q) \<in> set (sc_running st)" using assms(2) by (rule map_of_SomeD)
  ultimately show ?thesis by (fastforce simp: held_by_eq)
qed

lemma held_once_launch:
  assumes h: "held_once cfg st" and mode: "\<not> quiet_mode (sc_mode st)"
  shows "held_once cfg (fold launch (todo cfg st) st)" (is "held_once cfg ?st'")
proof -
  let ?names = "ph_name ` set (todo cfg st)"
  have old: "map_of (sc_running ?st') n = Some p \<Longrightarrow>
      (p \<in> set (todo cfg st) \<and> ph_name p = n) \<or> (n \<notin> ?names \<and> map_of (sc_running st) n = Some p)" for n p
    using launched_running [of n "todo cfg st" st] by (cases "n \<in> ?names") auto
  have "dom (map_of (sc_tasks ?st')) = dom (map_of (sc_running ?st'))"
    using h launched_running launched_tasks
    unfolding held_once_def tasks_match_def dom_def set_eq_iff mem_Collect_eq
    by (metis option.distinct(1))
  moreover have "ph_name p = n" if "map_of (sc_running ?st') n = Some p" for n p
    using old [OF that] h unfolding held_once_def tasks_match_def by metis
  ultimately have "tasks_match ?st'"
    using mode by (simp add: tasks_match_def)
  moreover have "apart cfg ?st'"
    unfolding apart_def
  proof (intro allI impI)
    fix n p m q
    assume "map_of (sc_running ?st') n = Some p" "map_of (sc_running ?st') m = Some q" "n \<noteq> m"
    then show "claims p (sg_every cfg) \<inter> claims q (sg_every cfg) = {}"
      using old [of n p] old [of m q] todo_apart [of p cfg st q] todo_free [of p cfg st m q]
        todo_free [of q cfg st n p] h
      unfolding held_once_def apart_def by (metis inf_commute)
  qed
  moreover have "attributed cfg ?st'"
    unfolding attributed_def
  proof (intro allI impI ballI)
    fix n p t g
    assume r: "map_of (sc_running ?st') n = Some p" and k: "map_of (sc_tasks ?st') n = Some t"
      and g: "g \<in> task_nodes t \<inter> sg_every cfg"
    show "g \<in> claims p (sg_every cfg) \<and> map_of (se_running (sc_session ?st')) g = Some n"
    proof (cases "n \<in> ?names")
      case True
      with k g show ?thesis by (simp add: launched_tasks task_nodes_def)
    next
      case False
      with r k g h show ?thesis
        by (auto simp: launched_tasks launched_running held_once_def attributed_def)
    qed
  qed
  ultimately show ?thesis using h by (simp add: held_once_def launched_distinct)
qed

lemma pause_fields [simp]:
  "se_running (pause_enter r s) = se_running s" "se_state (pause_enter r s) = se_state s"
  "se_vms (pause_enter r s) = se_vms s" "se_spec (pause_enter r s) = se_spec s"
  "se_running (pause_leave s) = se_running s" "se_state (pause_leave s) = se_state s"
  "se_vms (pause_leave s) = se_vms s" "se_spec (pause_leave s) = se_spec s"
  "se_running (never_ran s) = se_running s" "se_state (never_ran s) = se_state s"
  "se_vms (never_ran s) = se_vms s" "se_spec (never_ran s) = se_spec s"
  by (simp_all add: pause_enter_def pause_leave_def never_ran_def)

lemma held_once_settle: "held_once cfg st \<Longrightarrow> held_once cfg (settle_turn st)"
  by (auto simp: settle_turn_def held_once_def tasks_match_def apart_def attributed_def guests_known_def
      quiet_mode_def)

lemma held_once_turn:
  assumes "held_once cfg st" "sc_mode st = Deciding"
  shows "held_once cfg (sched_turn cfg st)"
proof (cases "pause_reason cfg st")
  case None
  with assms show ?thesis
    by (simp add: sched_turn_def held_once_settle held_once_launch quiet_mode_def)
next
  case (Some reason)
  have "sc_running st = [] \<Longrightarrow> held_once cfg (take_pause reason st)"
    using assms(1) by (simp add: take_pause_def held_once_def tasks_match_def apart_def attributed_def
        guests_known_def)
  with Some assms(1) show ?thesis by (simp add: sched_turn_def held_once_settle)
qed

lemma turn_guests: "se_vms (sc_session (sched_turn cfg st)) = se_vms (sc_session st)"
  by (simp add: sched_turn_def settle_turn_def take_pause_def split: option.split)

text \<open>What a phase's nodes are, within the guests of the run.\<close>

lemma nodes_claimed:
  "se_vms s = Some vms \<Longrightarrow> guests_known cfg s \<Longrightarrow> g \<in> set (phase_nodes p vms) \<Longrightarrow>
     g \<in> sg_every cfg \<Longrightarrow> g \<in> claims p (sg_every cfg)"
  by (auto simp: phase_nodes_def claims_def)

text \<open>Steps of one task: what they do to the others.\<close>

lemma held_once_task:
  assumes h: "held_once cfg st" and n: "map_of (sc_running st) n = Some p"
    and run: "sc_running st' = sc_running st" "sc_mode st' = sc_mode st"
    and task: "\<And>m. map_of (sc_tasks st') m = (if m = n then Some t else map_of (sc_tasks st) m)"
    and claimed: "\<And>g. g \<in> task_nodes t \<inter> sg_every cfg \<Longrightarrow>
      g \<in> claims p (sg_every cfg) \<and> map_of (se_running (sc_session st')) g = Some n"
    and rest: "\<And>g. g \<in> sg_every cfg \<Longrightarrow> g \<notin> claims p (sg_every cfg) \<Longrightarrow>
      map_of (se_running (sc_session st')) g = map_of (se_running (sc_session st)) g"
    and guests: "map_option dict_keys (se_vms (sc_session st')) = map_option dict_keys (se_vms (sc_session st))"
  shows "held_once cfg st'"
proof -
  have "dom (map_of (sc_tasks st')) = dom (map_of (sc_running st'))"
    using h n task run by (auto simp: held_once_def tasks_match_def dom_def set_eq_iff)
  then have "tasks_match st'" using h run by (simp add: held_once_def tasks_match_def)
  moreover have "apart cfg st'" using h run by (simp add: held_once_def apart_def)
  moreover have "attributed cfg st'"
    unfolding attributed_def
  proof (intro allI impI ballI)
    fix m q k g
    assume q: "map_of (sc_running st') m = Some q" and k: "map_of (sc_tasks st') m = Some k"
      and g: "g \<in> task_nodes k \<inter> sg_every cfg"
    show "g \<in> claims q (sg_every cfg) \<and> map_of (se_running (sc_session st')) g = Some m"
    proof (cases "m = n")
      case True
      with q k g n run task claimed show ?thesis by auto
    next
      case False
      then have own: "g \<in> claims q (sg_every cfg) \<and> map_of (se_running (sc_session st)) g = Some m"
        using h q k g run task unfolding held_once_def attributed_def by metis
      moreover have "claims p (sg_every cfg) \<inter> claims q (sg_every cfg) = {}"
        using h n q run False unfolding held_once_def apart_def by metis
      ultimately have "g \<notin> claims p (sg_every cfg)" by blast
      with rest [of g] g own show ?thesis by simp
    qed
  qed
  moreover have "guests_known cfg (sc_session st')" using h guests by (simp add: held_once_def guests_known_def)
  ultimately show ?thesis using h run by (simp add: held_once_def)
qed

lemma held_once_drop:
  assumes h: "held_once cfg st" and n: "map_of (sc_running st) n = Some p"
    and run: "sc_running st' = AList.delete n (sc_running st)" "sc_tasks st' = AList.delete n (sc_tasks st)"
      "sc_mode st' = sc_mode st"
    and rest: "\<And>g. g \<in> sg_every cfg \<Longrightarrow> g \<notin> claims p (sg_every cfg) \<Longrightarrow>
      map_of (se_running (sc_session st')) g = map_of (se_running (sc_session st)) g"
    and guests: "map_option dict_keys (se_vms (sc_session st')) = map_option dict_keys (se_vms (sc_session st))"
  shows "held_once cfg st'"
proof -
  have "dom (map_of (sc_tasks st')) = dom (map_of (sc_running st'))"
    using h run by (auto simp: held_once_def tasks_match_def dom_def set_eq_iff)
  then have "tasks_match st'" using h run by (auto simp: held_once_def tasks_match_def delete_conv split: if_splits)
  moreover have "apart cfg st'" using h run by (auto simp: held_once_def apart_def)
  moreover have "attributed cfg st'"
    unfolding attributed_def
  proof (intro allI impI ballI)
    fix m q k g
    assume "map_of (sc_running st') m = Some q" "map_of (sc_tasks st') m = Some k"
      and g: "g \<in> task_nodes k \<inter> sg_every cfg"
    then have q: "map_of (sc_running st) m = Some q" "map_of (sc_tasks st) m = Some k" "m \<noteq> n"
      using run by (auto split: if_splits)
    then have own: "g \<in> claims q (sg_every cfg) \<and> map_of (se_running (sc_session st)) g = Some m"
      using h g unfolding held_once_def attributed_def by metis
    moreover have "claims p (sg_every cfg) \<inter> claims q (sg_every cfg) = {}"
      using h n q unfolding held_once_def apart_def by metis
    ultimately have "g \<notin> claims p (sg_every cfg)" by blast
    with rest [of g] g own show "g \<in> claims q (sg_every cfg) \<and> map_of (se_running (sc_session st')) g = Some m"
      by simp
  qed
  moreover have "guests_known cfg (sc_session st')" using h guests by (simp add: held_once_def guests_known_def)
  moreover have "distinct (dict_keys (sc_running st'))" using h run by (simp add: held_once_def distinct_keys_delete)
  ultimately show ?thesis by (simp add: held_once_def)
qed

text \<open>A phase run by hand leaves the guests and the phases what they are.\<close>

lemma keeps_drain_pair: "drain loads decode s = (r, s') \<Longrightarrow> keeps s s'"
  using keeps_drain [of s loads decode] by simp

lemma keeps_settle_wait:
  "settle_wait loads decode tokens rounds s = (r, s') \<Longrightarrow>
     \<forall>world\<in>set rounds. \<forall>s. keeps s (world s) \<Longrightarrow> keeps s s'"
proof (induction loads decode tokens rounds s rule: settle_wait.induct)
  case (2 loads decode tokens world rounds s)
  obtain e t where d: "drain loads decode s = (e, t)" by (meson prod.exhaust)
  have k: "keeps s t" using d by (rule keeps_drain_pair)
  show ?case
  proof (cases "tokens \<subseteq> se_settled s")
    case True
    with "2.prems" show ?thesis by simp
  next
    case False
    show ?thesis
    proof (cases e)
      case None
      with False d "2.prems" have "keeps (world t) s'" by (intro "2.IH") auto
      moreover have "keeps t (world t)" using "2.prems"(2) by simp
      ultimately show ?thesis using k by (meson keeps_trans)
    next
      case (Some x)
      with False d "2.prems" k show ?thesis by simp
    qed
  qed
qed simp

lemma keeps_settle:
  assumes "settle loads decode w nodes s = (r, s')" "\<forall>world\<in>set (sw_rounds w). \<forall>s. keeps s (world s)"
  shows "keeps s s'"
proof -
  have *: "keeps s t" if "settle_wait loads decode tokens rounds s = (e, t)" "set rounds \<subseteq> set (sw_rounds w)"
    for tokens rounds e t
    using keeps_settle_wait [OF that(1)] that(2) assms(2) by blast
  show ?thesis
  proof (cases "sw_cancel w")
    case None
    with assms(1) show ?thesis
      by (auto simp: settle_def split: if_splits prod.splits option.splits
          intro: keeps_drain_pair * keeps_trans)
  next
    case (Some n)
    with assms(1) show ?thesis
      using * [of "settle_tokens w nodes s" "take n (sw_rounds w)"] set_take_subset [of n "sw_rounds w"]
      by (auto simp: settle_def split: if_splits prod.splits option.splits)
  qed
qed

text \<open>The shape of a run that returns: what its last piece was given.\<close>

lemma run_shape:
  assumes "run cx w p s = (Inr v, s')" "calm w"
  obtains vms t s4 took where "se_vms s = Some vms"
    and "keeps (run_enter p (phase_nodes p vms) s) s4"
    and "(v = PASSED \<and> s' = run_passed cx (rw_files w) p (phase_nodes p vms) t took s4) \<or>
         (\<exists>e. v = FAILED \<and> is_exception e \<and> s' = run_failed cx (rw_files w) p (phase_nodes p vms) t took e s4)"
proof -
  obtain vms where vms: "se_vms s = Some vms"
    using assms(1) by (cases "se_vms s") (simp_all add: run_def)
  define nodes where "nodes = phase_nodes p vms"
  obtain s1 where d: "drain (cx_loads cx) (cx_decode cx) s = (None, s1)"
    using assms(1) vms by (auto simp: run_def Let_def split: prod.splits option.splits)
  define s2 where "s2 = run_enter p nodes s1"
  obtain e s3 where b: "run_body cx w p s2 = (e, s3)" by (meson prod.exhaust)
  obtain x s4 where t: "settle (cx_loads cx) (cx_decode cx) (rw_settle w) (Some nodes) s3 = (x, s4)"
    by (meson prod.exhaust)
  have "keeps s s1" using d by (rule keeps_drain_pair)
  then have "keeps (run_enter p nodes s) s2" by (simp add: keeps_def s2_def run_enter_def)
  moreover have "keeps s2 s3" using b by (rule keeps_body)
  moreover have "keeps s3 s4" using t assms(2) unfolding calm_def by (rule keeps_settle)
  ultimately have k: "keeps (run_enter p nodes s) s4" by (meson keeps_trans)
  have "run_finish cx w p nodes (se_now s2) e s3 = (Inr v, s')"
    using assms(1) vms d b by (simp add: run_def Let_def nodes_def s2_def)
  then have "(v = PASSED \<and> s' = run_passed cx (rw_files w) p nodes (se_now s2) (se_now s3 - se_now s2) s4) \<or>
         (\<exists>e. v = FAILED \<and> is_exception e \<and> s' = run_failed cx (rw_files w) p nodes (se_now s2) (se_now s3 - se_now s2) e s4)"
    using t by (auto simp: run_finish_def Let_def is_exception_def split: option.splits exn.splits)
  with vms k nodes_def show ?thesis using that by blast
qed

lemma run_guests:
  assumes "run cx w p s = (Inr v, s')" "calm w"
  shows "map_option dict_keys (se_vms s') = map_option dict_keys (se_vms s) \<and> se_spec s' = se_spec s"
proof (rule run_shape [OF assms])
  fix vms t s4 took
  assume k: "keeps (run_enter p (phase_nodes p vms) s) s4"
    and v: "(v = PASSED \<and> s' = run_passed cx (rw_files w) p (phase_nodes p vms) t took s4) \<or>
         (\<exists>e. v = FAILED \<and> is_exception e \<and> s' = run_failed cx (rw_files w) p (phase_nodes p vms) t took e s4)"
  from v have "map_option dict_keys (se_vms s') = map_option dict_keys (se_vms s4) \<and> se_spec s' = se_spec s4"
    by (elim disjE exE conjE) (simp_all add: run_pieces_guests run_pieces)
  with k show ?thesis by (simp add: keeps_def run_enter_state)
qed

text \<open>What a run that returns has done to the states, the errors and the guests.\<close>

lemma run_states:
  assumes "run cx w p s = (Inr v, s')" "calm w"
  shows "(v = PASSED \<or> v = FAILED) \<and>
    (\<forall>n. map_of (se_state s') n =
       (if n = ph_name p then Some v
        else if v = FAILED \<and> n \<in> skipped_by (ph_name p) (sp_phases (se_spec s)) \<and>
                map_of (se_state s) n = Some PENDING then Some SKIPPED
        else map_of (se_state s) n)) \<and>
    (\<exists>vms. se_vms s = Some vms \<and> (\<forall>g. map_of (se_running s') g =
       (if g \<in> set (phase_nodes p vms) then None else map_of (se_running s) g))) \<and>
    (v = PASSED \<longrightarrow> se_errors s' = se_errors s)"
proof (rule run_shape [OF assms])
  fix vms t s4 took
  assume vms: "se_vms s = Some vms" and k: "keeps (run_enter p (phase_nodes p vms) s) s4"
    and v: "(v = PASSED \<and> s' = run_passed cx (rw_files w) p (phase_nodes p vms) t took s4) \<or>
         (\<exists>e. v = FAILED \<and> is_exception e \<and> s' = run_failed cx (rw_files w) p (phase_nodes p vms) t took e s4)"
  have s4: "se_state s4 = AList.update (ph_name p) RUNNING (se_state s)" "se_spec s4 = se_spec s"
    "se_errors s4 = se_errors s" "se_running s4 = dict_set_all (phase_nodes p vms) (ph_name p) (se_running s)"
    using k by (simp_all add: keeps_def run_enter_state)
  have not_self: "ph_name p \<notin> skipped_by (ph_name p) ps" for ps
    by (simp add: skipped_by_def dependents_def)
  from v show ?thesis
  proof (elim disjE exE conjE)
    assume "v = PASSED" "s' = run_passed cx (rw_files w) p (phase_nodes p vms) t took s4"
    with vms s4 show ?thesis by (simp add: run_passed_fields dict_simps)
  next
    fix e assume "v = FAILED" "s' = run_failed cx (rw_files w) p (phase_nodes p vms) t took e s4"
    with vms s4 show ?thesis by (simp add: run_failed_state run_failed_fields dict_simps)
  qed
qed

section \<open>The step relation keeps it\<close>

lemma held_once_enter:
  assumes h: "held_once cfg st" and n: "map_of (sc_running st) n = Some p"
    and vms: "se_vms (sc_session st) = Some vms"
  shows "held_once cfg (task_enter cx p vms st)"
proof -
  let ?s = "snd (drain (cx_loads cx) (cx_decode cx) (sc_session st))"
  have k: "keeps (sc_session st) ?s" by (rule keeps_drain)
  have name: "ph_name p = n" using h n by (auto simp: held_once_def tasks_match_def)
  have claimed: "g \<in> claims p (sg_every cfg)" if "g \<in> set (phase_nodes p vms)" "g \<in> sg_every cfg" for g
    using nodes_claimed [OF vms _ that] h by (simp add: held_once_def)
  show ?thesis
  proof (rule held_once_task [OF h n, where t = "Inside (phase_nodes p vms) (se_now (run_enter p (phase_nodes p vms) ?s))"])
    fix g assume "g \<in> task_nodes (Inside (phase_nodes p vms) (se_now (run_enter p (phase_nodes p vms) ?s))) \<inter> sg_every cfg"
    then show "g \<in> claims p (sg_every cfg) \<and> map_of (se_running (sc_session (task_enter cx p vms st))) g = Some n"
      using claimed name by (simp add: task_enter_def task_nodes_def Let_def run_enter_state dict_simps)
  qed (use k name claimed in \<open>auto simp: task_enter_def Let_def run_enter_state dict_simps keeps_def\<close>)
qed

lemma held_once_ended:
  assumes h: "held_once cfg st" and n: "map_of (sc_running st) n = Some p"
    and t: "map_of (sc_tasks st) n = Some (Inside nodes started)"
  shows "held_once cfg (task_ended p nodes started e st)"
proof -
  have name: "ph_name p = n" using h n by (auto simp: held_once_def tasks_match_def)
  have own: "g \<in> claims p (sg_every cfg) \<and> map_of (se_running (sc_session st)) g = Some n"
    if "g \<in> set nodes \<inter> sg_every cfg" for g
    using h n t that unfolding held_once_def attributed_def by (metis task.case(2) task_nodes_def)
  show ?thesis
    by (rule held_once_task [OF h n, where t = "Settling nodes started (se_now (sc_session st) - started) e"])
      (use own name in \<open>auto simp: task_ended_def task_nodes_def\<close>)
qed

lemma held_once_finish:
  assumes h: "held_once cfg st" and n: "map_of (sc_running st) n = Some p"
    and t: "map_of (sc_tasks st) n = Some (Settling nodes started took e)"
  shows "held_once cfg (task_finish cx files p nodes started took e st)"
proof -
  have name: "ph_name p = n" using h n by (auto simp: held_once_def tasks_match_def)
  have own: "g \<in> claims p (sg_every cfg)" if "g \<in> set nodes" "g \<in> sg_every cfg" for g
    using h n t that unfolding held_once_def attributed_def by (metis IntI task.case(3) task_nodes_def)
  show ?thesis
    by (rule held_once_drop [OF h n])
      (use own name in \<open>auto simp: task_finish_def end_task_def run_pieces run_pieces_guests dict_simps
        split: option.split\<close>)
qed

lemma held_once_stop_one:
  assumes h: "held_once cfg st" and n: "map_of (sc_running st) n = Some p"
  shows "held_once cfg (task_stop (n, p) st)"
proof -
  have own: "g \<in> claims p (sg_every cfg)"
    if "map_of (sc_tasks st) n = Some (Inside nodes started)" "g \<in> set nodes" "g \<in> sg_every cfg" for g nodes started
    using h n that unfolding held_once_def attributed_def by (metis IntI task.case(2) task_nodes_def)
  show ?thesis
    by (rule held_once_drop [OF h n])
      (use own in \<open>auto simp: task_stop_def end_task_def run_pieces run_pieces_guests dict_simps
        split: option.split task.split\<close>)
qed

lemma task_stop_running: "sc_running (task_stop (n, p) st) = AList.delete n (sc_running st)"
  by (auto simp: task_stop_def end_task_def split: option.split task.split)

lemma task_stop_fold:
  "held_once cfg st \<Longrightarrow> sc_running st = xs \<Longrightarrow>
     held_once cfg (fold task_stop xs st) \<and> sc_running (fold task_stop xs st) = []"
proof (induction xs arbitrary: st)
  case (Cons x xs)
  obtain n p where x: "x = (n, p)" by force
  have d: "n \<notin> fst ` set xs" using Cons.prems x by (auto simp: held_once_def dict_keys_def)
  then have "AList.delete n xs = xs" by (simp add: AList.delete_eq filter_id_conv split_beta) (metis fst_conv imageI)
  then have r: "sc_running (task_stop x st) = xs" using Cons.prems x by (simp add: task_stop_running)
  have "held_once cfg (task_stop x st)"
    using held_once_stop_one [OF Cons.prems(1), of n p] Cons.prems(2) x by simp
  then show ?case using Cons.IH [OF _ r] by simp
qed simp

lemma held_once_idle:
  "held_once cfg st \<Longrightarrow> sc_running st = [] \<Longrightarrow> held_once cfg (st\<lparr>sc_mode := m\<rparr>)"
  by (simp add: held_once_def tasks_match_def apart_def attributed_def)

lemma held_once_stop: "held_once cfg st \<Longrightarrow> held_once cfg (sched_stop st)"
  using task_stop_fold [of cfg st "sc_running st"] by (simp add: sched_stop_def held_once_idle)

lemma held_once_step: "sched_step cfg cx st st' \<Longrightarrow> held_once cfg st \<Longrightarrow> held_once cfg st'"
proof (induction rule: sched_step.induct)
  case (turn st)
  then show ?case by (simp add: held_once_turn)
next
  case (wake st busy)
  then show ?case
    by (simp add: held_once_work) (simp add: held_once_def tasks_match_def apart_def attributed_def guests_known_def quiet_mode_def)
next
  case (resume st reason busy)
  then show ?case
    by (simp add: held_once_work) (simp add: held_once_def tasks_match_def apart_def attributed_def guests_known_def quiet_mode_def)
next
  case (by_hand st reason p w verdict s' busy)
  then have "sc_running st = []" by (simp add: held_once_def tasks_match_def quiet_mode_def)
  moreover have "guests_known cfg s'"
    using run_guests [OF by_hand(3,4)] by_hand by (simp add: held_once_def guests_known_def)
  ultimately show ?case using by_hand
    by (simp add: held_once_work) (simp add: held_once_def tasks_match_def apart_def attributed_def)
qed (simp_all add: held_once_work held_once_enter held_once_ended held_once_finish held_once_stop)

definition sched_starts :: "sched_config \<Rightarrow> sched \<Rightarrow> bool" where
  "sched_starts cfg st = (\<exists>s. st = sched_start s \<and> guests_known cfg s)"

lemma held_once_start: "sched_starts cfg st \<Longrightarrow> held_once cfg st"
  by (auto simp: sched_starts_def sched_start_def held_once_def tasks_match_def apart_def attributed_def)

interpretation exclusion: invariant "sched_starts cfg" "sched_step cfg cx" "held_once cfg" for cfg cx
  by unfold_locales (erule held_once_start, erule (1) held_once_step)

end
