(* ===== verification/Sched_Order.thy ===== *)
theory Sched_Order
  imports Scheduler
begin

text \<open>
  The schedule of a run without breakpoints, which is what a check runs: no control socket, so no
  pause and nothing by hand, and no \<open>--only\<close>. Here every start respects \<open>after\<close>, a failure takes
  exactly the phases that need it, and the schedule ends with every phase answered.
\<close>

definition phase_at :: "sched \<Rightarrow> string \<Rightarrow> phase_state" where
  "phase_at st n = state_of (se_state (sc_session st)) n"

definition plain_starts :: "sched_config \<Rightarrow> sched \<Rightarrow> bool" where
  "plain_starts cfg st =
     (\<exists>s. st = sched_start s \<and> guests_known cfg s \<and> \<not> sg_control cfg \<and> se_vms s \<noteq> None \<and>
          se_state s = initial_states (sp_phases (se_spec s)) \<and>
          distinct (phase_names (sp_phases (se_spec s))))"

text \<open>Where the tasks stand agrees with the states of their phases.\<close>

fun stands :: "task option \<Rightarrow> phase_state \<Rightarrow> bool" where
  "stands None s = (s \<noteq> RUNNING)"
| "stands (Some Launched) s = (s = PENDING)"
| "stands (Some (Inside _ _)) s = (s = RUNNING)"
| "stands (Some (Settling _ _ _ _)) s = (s = RUNNING)"

definition tasks_stand :: "sched \<Rightarrow> bool" where
  "tasks_stand st = (\<forall>n. stands (map_of (sc_tasks st) n) (phase_at st n))"

definition starts_after :: "sched \<Rightarrow> bool" where
  "starts_after st =
     (\<forall>n p. map_of (sc_running st) n = Some p \<longrightarrow>
        p \<in> set (sched_phases st) \<and> (\<forall>a\<in>set (ph_after p). \<not> unfinished (phase_at st a)))"

text \<open>Skipped is needing a failed phase; what got to start needed only phases that passed.\<close>

definition skips_exact :: "sched \<Rightarrow> bool" where
  "skips_exact st =
     ((\<forall>n. phase_at st n = SKIPPED \<longrightarrow> (\<exists>m. phase_at st m = FAILED \<and> needs (sched_phases st) n m)) \<and>
      (\<forall>n m. phase_at st m = FAILED \<longrightarrow> needs (sched_phases st) n m \<longrightarrow> phase_at st n = SKIPPED))"

definition began :: "sched \<Rightarrow> string \<Rightarrow> bool" where
  "began st n = (n \<in> dom (map_of (sc_running st)) \<or> phase_at st n = PASSED \<or> phase_at st n = FAILED)"

definition needs_passed :: "sched \<Rightarrow> bool" where
  "needs_passed st =
     (\<forall>n m. began st n \<longrightarrow> needs (sched_phases st) n m \<longrightarrow> phase_at st m = PASSED)"

definition plain_shape :: "sched_config \<Rightarrow> sched \<Rightarrow> bool" where
  "plain_shape cfg st =
     (\<not> sg_control cfg \<and> se_vms (sc_session st) \<noteq> None \<and> distinct (phase_names (sched_phases st)) \<and>
      (\<forall>p\<in>set (sched_phases st). ph_name p \<in> dom (map_of (se_state (sc_session st)))) \<and>
      (\<forall>n. phase_at st n \<noteq> DESELECTED \<and> phase_at st n \<noteq> INTERRUPTED))"

definition mode_fits :: "sched \<Rightarrow> bool" where
  "mode_fits st =
     ((\<forall>reason. sc_mode st \<noteq> Paused reason) \<and>
      (sc_mode st = Waiting \<longrightarrow> sc_running st \<noteq> [] \<or> sc_changed st) \<and>
      (sc_mode st = Finished \<longrightarrow> ready (sched_phases st) (se_state (sc_session st)) = []))"

definition in_order :: "sched_config \<Rightarrow> sched \<Rightarrow> bool" where
  "in_order cfg st =
     (plain_shape cfg st \<and> mode_fits st \<and> tasks_stand st \<and> starts_after st \<and> skips_exact st \<and> needs_passed st)"

definition orderly :: "sched_config \<Rightarrow> sched \<Rightarrow> bool" where
  "orderly cfg st = (held_once cfg st \<and> (sc_mode st = Stopped \<or> in_order cfg st))"

lemma phase_at_work [simp]: "phase_at (work cx busy st) n = phase_at st n"
  by (simp add: phase_at_def)

lemma in_order_same:
  assumes "in_order cfg st" "sc_running st' = sc_running st" "sc_tasks st' = sc_tasks st"
    and "se_state (sc_session st') = se_state (sc_session st)" "sched_phases st' = sched_phases st"
    and "(se_vms (sc_session st') = None) = (se_vms (sc_session st) = None)" "mode_fits st'"
  shows "in_order cfg st'"
proof -
  have at: "phase_at st' = phase_at st" using assms(4) by (simp add: phase_at_def fun_eq_iff)
  have b: "began st' = began st" using assms(2) at by (simp add: began_def fun_eq_iff)
  have "plain_shape cfg st' = plain_shape cfg st"
    unfolding plain_shape_def at assms(4-6) ..
  moreover have "tasks_stand st' = tasks_stand st" unfolding tasks_stand_def at assms(3) ..
  moreover have "starts_after st' = starts_after st" unfolding starts_after_def at assms(2,5) ..
  moreover have "skips_exact st' = skips_exact st" unfolding skips_exact_def at assms(5) ..
  moreover have "needs_passed st' = needs_passed st" unfolding needs_passed_def at b assms(5) ..
  ultimately show ?thesis using assms(1,7) by (simp add: in_order_def)
qed

lemma same_guests: "map_option dict_keys a = map_option dict_keys b \<Longrightarrow> (a = None) = (b = None)"
  by (metis option.map_disc_iff)

lemma in_orderD:
  assumes "in_order cfg st"
  shows "\<not> sg_control cfg" "distinct (phase_names (sched_phases st))"
    "phase_at st n = SKIPPED \<Longrightarrow> \<exists>m. phase_at st m = FAILED \<and> needs (sched_phases st) n m"
    "phase_at st m = FAILED \<Longrightarrow> needs (sched_phases st) n m \<Longrightarrow> phase_at st n = SKIPPED"
    "began st n \<Longrightarrow> needs (sched_phases st) n m \<Longrightarrow> phase_at st m = PASSED"
    "phase_at st n \<noteq> DESELECTED" "phase_at st n \<noteq> INTERRUPTED"
    "stands (map_of (sc_tasks st) n) (phase_at st n)"
    "map_of (sc_running st) n = Some p \<Longrightarrow> p \<in> set (sched_phases st)"
    "map_of (sc_running st) n = Some p \<Longrightarrow> a \<in> set (ph_after p) \<Longrightarrow> \<not> unfinished (phase_at st a)"
    "p \<in> set (sched_phases st) \<Longrightarrow> \<exists>x. map_of (se_state (sc_session st)) (ph_name p) = Some x"
    "se_vms (sc_session st) \<noteq> None" "mode_fits st"
proof -
  have "\<forall>n m. phase_at st m = FAILED \<longrightarrow> needs (sched_phases st) n m \<longrightarrow> phase_at st n = SKIPPED"
    "\<forall>n m. began st n \<longrightarrow> needs (sched_phases st) n m \<longrightarrow> phase_at st m = PASSED"
    "\<forall>n. phase_at st n = SKIPPED \<longrightarrow> (\<exists>m. phase_at st m = FAILED \<and> needs (sched_phases st) n m)"
    using assms unfolding in_order_def skips_exact_def needs_passed_def by simp_all
  then show "phase_at st n = SKIPPED \<Longrightarrow> \<exists>m. phase_at st m = FAILED \<and> needs (sched_phases st) n m"
    "phase_at st m = FAILED \<Longrightarrow> needs (sched_phases st) n m \<Longrightarrow> phase_at st n = SKIPPED"
    "began st n \<Longrightarrow> needs (sched_phases st) n m \<Longrightarrow> phase_at st m = PASSED" by blast+
qed (use assms in \<open>auto simp: in_order_def plain_shape_def tasks_stand_def starts_after_def\<close>)

lemma in_order_work: "in_order cfg st \<Longrightarrow> in_order cfg (work cx busy st)"
  using in_orderD(13) [of cfg st]
  by (intro in_order_same [of cfg st "work cx busy st"])
    (simp_all add: same_guests [OF work_states(4)] mode_fits_def)

lemma phase_named:
  "distinct (phase_names ps) \<Longrightarrow> p \<in> set ps \<Longrightarrow> q \<in> set ps \<Longrightarrow> ph_name p = ph_name q \<Longrightarrow> p = q"
  by (auto simp: phase_names_def distinct_map dest: inj_onD)

section \<open>Launching\<close>

text \<open>A phase that may start needs only phases that passed.\<close>

lemma candidate_needs:
  assumes o: "in_order cfg st" and p: "p \<in> set (candidates st)" and m: "needs (sched_phases st) (ph_name p) m"
  shows "phase_at st m = PASSED"
proof -
  let ?ps = "sched_phases st"
  have p': "p \<in> set ?ps" and pend: "phase_at st (ph_name p) = PENDING"
    and done1: "\<And>a. a \<in> set (ph_after p) \<Longrightarrow> \<not> unfinished (phase_at st a)"
    using p by (auto simp: candidates_def ready_iff phase_at_def)
  have after: "phase_at st a = PASSED" if a: "a \<in> set (ph_after p)" and na: "\<not> ph_always p" for a
  proof -
    have "phase_at st a \<noteq> FAILED"
      using in_orderD(4) [OF o, of a "ph_name p"] needs_direct [OF p' na a] pend by auto
    moreover have "phase_at st a \<noteq> SKIPPED"
      using in_orderD(3) [OF o, of a] in_orderD(4) [OF o, of _ "ph_name p"] needs_through [OF _ p' na a] pend
      by (metis phase_state.distinct(7))
    ultimately show ?thesis
      using done1 [OF a] in_orderD(6,7) [OF o, of a] by (cases "phase_at st a") (simp_all add: unfinished_def)
  qed
  have same: "q = p" if "q \<in> set ?ps" "ph_name q = ph_name p" for q
    using phase_named [OF in_orderD(2) [OF o] that(1) p' that(2)] .
  from m obtain a where "a \<in> set (ph_after p)" "\<not> ph_always p" "a = m \<or> needs ?ps a m"
    by cases (metis same)+
  then show ?thesis using after in_orderD(5) [OF o, of a m] by (auto simp: began_def)
qed

lemma phase_at_launched [simp]: "phase_at (fold launch ps st) n = phase_at st n"
  by (simp add: phase_at_def)

lemma sched_phases_launched [simp]: "sched_phases (fold launch ps st) = sched_phases st"
  by (simp add: sched_phases_def)

lemma in_order_launch:
  assumes o: "in_order cfg st" and h: "held_once cfg st" and mode: "sc_mode st = Deciding"
  shows "in_order cfg (fold launch (todo cfg st) st)" (is "in_order cfg ?st'")
proof -
  let ?names = "ph_name ` set (todo cfg st)"
  have run: "map_of (sc_running ?st') n = Some p \<Longrightarrow>
      (p \<in> set (candidates st) \<and> ph_name p = n) \<or> (n \<notin> ?names \<and> map_of (sc_running st) n = Some p)" for n p
    using launched_running [of n "todo cfg st" st] todo_candidates by (cases "n \<in> ?names") auto
  have cand: "p \<in> set (sched_phases st)" "phase_at st (ph_name p) = PENDING"
      "\<forall>a\<in>set (ph_after p). \<not> unfinished (phase_at st a)" if "p \<in> set (candidates st)" for p
    using that by (auto simp: candidates_def ready_iff phase_at_def)
  have "plain_shape cfg ?st'" "mode_fits ?st'"
    using o mode by (simp_all add: in_order_def plain_shape_def mode_fits_def)
  moreover have "tasks_stand ?st'"
    unfolding tasks_stand_def
  proof
    fix n
    have "phase_at st n = PENDING" if "n \<in> ?names" using that cand todo_candidates by blast
    with in_orderD(8) [OF o] show "stands (map_of (sc_tasks ?st') n) (phase_at ?st' n)"
      by (simp add: launched_tasks)
  qed
  moreover have "starts_after ?st'"
    unfolding starts_after_def
  proof (intro allI impI)
    fix n p assume "map_of (sc_running ?st') n = Some p"
    from run [OF this] o cand
    show "p \<in> set (sched_phases ?st') \<and> (\<forall>a\<in>set (ph_after p). \<not> unfinished (phase_at ?st' a))"
      by (auto simp: in_order_def starts_after_def)
  qed
  moreover have "skips_exact ?st'" using o by (simp add: in_order_def skips_exact_def)
  moreover have "needs_passed ?st'"
    unfolding needs_passed_def
  proof (intro allI impI)
    fix n m assume b: "began ?st' n" and m: "needs (sched_phases ?st') n m"
    show "phase_at ?st' m = PASSED"
    proof (cases "began st n")
      case True
      with o m show ?thesis by (auto simp: in_order_def needs_passed_def)
    next
      case False
      with b obtain p where "map_of (sc_running ?st') n = Some p" by (auto simp: began_def)
      from run [OF this] False have "p \<in> set (candidates st)" "ph_name p = n" by (auto simp: began_def)
      with candidate_needs [OF o] m show ?thesis by auto
    qed
  qed
  ultimately show ?thesis by (simp add: in_order_def)
qed

lemma in_order_turn:
  assumes o: "in_order cfg st" and h: "held_once cfg st" and mode: "sc_mode st = Deciding"
  shows "in_order cfg (sched_turn cfg st)"
proof -
  have no: "\<not> sg_control cfg" using o by (simp add: in_order_def plain_shape_def)
  let ?st = "fold launch (todo cfg st) st"
  have l: "in_order cfg ?st" using o h mode by (rule in_order_launch)
  have t: "sched_turn cfg st = settle_turn ?st" using no by (simp add: sched_turn_def pause_reason_def)
  show ?thesis
  proof (cases "sc_running ?st = []")
    case True
    have "candidates st = []"
    proof (rule ccontr)
      assume c: "candidates st \<noteq> []"
      have "todo cfg st = []"
      proof (rule ccontr)
        assume "todo cfg st \<noteq> []"
        then obtain p where "p \<in> set (todo cfg st)" by (cases "todo cfg st") auto
        then obtain q where "map_of (sc_running ?st) (ph_name p) = Some q"
          using launched_running(2) [of "ph_name p" "todo cfg st" st] by auto
        with True show False by simp
      qed
      moreover from this True have "sc_running st = []" by simp
      ultimately show False using c launchable_hd [OF c, of "sg_every cfg"]
        by (auto simp: todo_def Let_def take_Suc split: if_splits)
    qed
    moreover have "sc_running st = []"
    proof (rule ccontr)
      assume "sc_running st \<noteq> []"
      then obtain n p xs where "sc_running st = (n, p) # xs" by (cases "sc_running st") auto
      then have "map_of (sc_running st) n \<noteq> None" by simp
      then have "map_of (sc_running ?st) n \<noteq> None"
        using launched_running [of n "todo cfg st" st] by (cases "n \<in> ph_name ` set (todo cfg st)") auto
      with True show False by simp
    qed
    ultimately have "ready (sched_phases st) (se_state (sc_session st)) = []"
      by (simp add: candidates_def)
    with True show ?thesis
      unfolding t settle_turn_def by (intro in_order_same [OF l]) (simp_all add: mode_fits_def sched_phases_def)
  next
    case False
    then show ?thesis
      unfolding t settle_turn_def by (intro in_order_same [OF l]) (simp_all add: mode_fits_def sched_phases_def)
  qed
qed

section \<open>The steps of a task\<close>

text \<open>
  One task moves from where it stands to \<open>t\<close>, its phase to \<open>s\<close>, and the phases of \<open>skip\<close>, all of
  them pending, to skipped; nothing else changes.
\<close>

definition moves ::
  "string \<Rightarrow> phase_state \<Rightarrow> string set \<Rightarrow> sched \<Rightarrow> sched \<Rightarrow> bool" where
  "moves n s skip st st' =
     ((\<forall>m. phase_at st' m = (if m = n then s else if m \<in> skip then SKIPPED else phase_at st m)) \<and>
      (\<forall>m\<in>skip. phase_at st m = PENDING \<and> m \<noteq> n) \<and>
      dom (map_of (se_state (sc_session st))) \<subseteq> dom (map_of (se_state (sc_session st'))) \<and>
      sched_phases st' = sched_phases st \<and>
      (se_vms (sc_session st') = None) = (se_vms (sc_session st) = None) \<and> sc_mode st' = sc_mode st)"

lemma plain_shape_moves:
  assumes o: "in_order cfg st" and m: "moves n s skip st st'" and s: "s \<in> {RUNNING, PASSED, FAILED}"
  shows "plain_shape cfg st'"
proof -
  have "phase_at st' m \<noteq> DESELECTED \<and> phase_at st' m \<noteq> INTERRUPTED" for m
    using m s in_orderD(6,7) [OF o, of m] by (auto simp: moves_def)
  moreover have "\<forall>p\<in>set (sched_phases st'). ph_name p \<in> dom (map_of (se_state (sc_session st')))"
    using o m unfolding in_order_def plain_shape_def moves_def by (metis subsetD)
  ultimately show ?thesis using o m by (simp add: in_order_def plain_shape_def moves_def)
qed

lemma starts_after_moves:
  assumes o: "in_order cfg st" and m: "moves n s skip st st'"
    and start: "phase_at st n = PENDING \<or> phase_at st n = RUNNING"
    and run: "\<And>k q. map_of (sc_running st') k = Some q \<Longrightarrow> map_of (sc_running st) k = Some q"
  shows "starts_after st'"
  unfolding starts_after_def
proof (intro allI impI conjI ballI)
  fix k q assume "map_of (sc_running st') k = Some q"
  then have q: "map_of (sc_running st) k = Some q" by (rule run)
  show "q \<in> set (sched_phases st')" using in_orderD(9) [OF o q] m by (simp add: moves_def)
  fix a assume "a \<in> set (ph_after q)"
  then have f: "\<not> unfinished (phase_at st a)" using in_orderD(10) [OF o q] by simp
  then have "a \<noteq> n" using start by (auto simp: unfinished_def)
  then show "\<not> unfinished (phase_at st' a)" using m f by (auto simp: moves_def unfinished_def)
qed

lemma running_exists:
  "held_once cfg st \<Longrightarrow> map_of (sc_tasks st) n = Some t \<Longrightarrow> \<exists>p. map_of (sc_running st) n = Some p"
  unfolding held_once_def tasks_match_def by (metis domD domI)

lemma in_order_enter:
  assumes o: "in_order cfg st" and h: "held_once cfg st" and p: "map_of (sc_running st) n = Some p"
    and t: "map_of (sc_tasks st) n = Some Launched"
  shows "in_order cfg (task_enter cx p vms st)" (is "in_order cfg ?st'")
proof -
  have name: "ph_name p = n" using h p by (auto simp: held_once_def tasks_match_def)
  have pend: "phase_at st n = PENDING" using in_orderD(8) [OF o, of n] t by simp
  have k: "keeps (sc_session st) (snd (drain (cx_loads cx) (cx_decode cx) (sc_session st)))"
    by (rule keeps_drain)
  then have vms: "(se_vms (snd (drain (cx_loads cx) (cx_decode cx) (sc_session st))) = None) =
      (se_vms (sc_session st) = None)"
    unfolding keeps_def by (metis option.map_disc_iff)
  have m: "moves n RUNNING {} st ?st'"
    using k vms name by (auto simp: moves_def task_enter_def Let_def phase_at_def run_enter_state
        state_of_update sched_phases_def keeps_def)
  then have at: "phase_at ?st' j = (if j = n then RUNNING else phase_at st j)"
    and ph: "sched_phases ?st' = sched_phases st" for j by (simp_all add: moves_def)
  have r: "sc_running ?st' = sc_running st" and md: "sc_mode ?st' = sc_mode st" "sc_changed ?st' = sc_changed st"
    by (simp_all add: task_enter_def Let_def)
  have b: "began ?st' j \<Longrightarrow> began st j" for j
    using p at r by (auto simp: began_def split: if_splits)
  have "tasks_stand ?st'"
    unfolding tasks_stand_def using in_orderD(8) [OF o] at name by (simp add: task_enter_def Let_def)
  moreover have "skips_exact ?st'"
    unfolding skips_exact_def at ph using in_orderD(3,4) [OF o] pend
    by (metis phase_state.distinct)
  moreover have "needs_passed ?st'"
    unfolding needs_passed_def at ph using b in_orderD(5) [OF o] pend by (metis phase_state.distinct(3))
  moreover have "starts_after ?st'" using starts_after_moves [OF o m] pend r by simp
  moreover have "plain_shape cfg ?st'" using plain_shape_moves [OF o m] by simp
  moreover have "mode_fits ?st'"
  proof -
    have "sc_running st \<noteq> []" using p by auto
    moreover have "sc_mode st = Finished \<Longrightarrow> False"
      using h p by (auto simp: held_once_def tasks_match_def quiet_mode_def)
    ultimately show ?thesis using in_orderD(13) [OF o] r md by (auto simp: mode_fits_def)
  qed
  ultimately show ?thesis by (simp add: in_order_def)
qed

lemma in_order_ended:
  assumes o: "in_order cfg st" and h: "held_once cfg st" and p: "map_of (sc_running st) n = Some p"
    and t: "map_of (sc_tasks st) n = Some (Inside nodes started)"
  shows "in_order cfg (task_ended p nodes started e st)" (is "in_order cfg ?st'")
proof -
  have name: "ph_name p = n" using h p by (auto simp: held_once_def tasks_match_def)
  have r: "phase_at st n = RUNNING" using in_orderD(8) [OF o, of n] t by simp
  have at: "phase_at ?st' = phase_at st" "sched_phases ?st' = sched_phases st"
    by (simp_all add: task_ended_def phase_at_def sched_phases_def fun_eq_iff)
  have b: "began ?st' = began st" by (simp add: began_def at fun_eq_iff) (simp add: task_ended_def)
  have "tasks_stand ?st'"
    unfolding tasks_stand_def at using in_orderD(8) [OF o] r name by (simp add: task_ended_def)
  moreover have "skips_exact ?st'" using o unfolding skips_exact_def at in_order_def by blast
  moreover have "needs_passed ?st'" using o unfolding needs_passed_def at b in_order_def by blast
  moreover have "starts_after ?st'" "plain_shape cfg ?st'" "mode_fits ?st'"
    using o at unfolding starts_after_def plain_shape_def mode_fits_def in_order_def
    by (simp_all add: task_ended_def)
  ultimately show ?thesis by (simp add: in_order_def)
qed

text \<open>What a task leaves behind when its phase is over.\<close>

lemma in_order_over:
  assumes o: "in_order cfg st" and h: "held_once cfg st" and p: "map_of (sc_running st) n = Some p"
    and t: "phase_at st n = RUNNING"
    and m: "moves n s skip st st'" and s: "s = PASSED \<or> s = FAILED"
    and skip: "skip = (if s = FAILED then {j. needs (sched_phases st) j n \<and> phase_at st j = PENDING \<and> j \<noteq> n} else {})"
    and run: "sc_running st' = AList.delete n (sc_running st)" "sc_tasks st' = AList.delete n (sc_tasks st)"
    and ch: "sc_changed st'"
  shows "in_order cfg st'"
proof -
  have at: "phase_at st' j = (if j = n then s else if j \<in> skip then SKIPPED else phase_at st j)"
    and ph: "sched_phases st' = sched_phases st" for j using m by (simp_all add: moves_def)
  have bn: "began st n" using p by (auto simp: began_def)
  have b: "began st' j \<Longrightarrow> began st j" for j
    using bn at run s by (auto simp: began_def split: if_splits)
  have sk: "j \<notin> skip" if "began st j" for j
  proof
    assume j: "j \<in> skip"
    then have "needs (sched_phases st) j n" using skip by (auto split: if_splits)
    then have "phase_at st n = PASSED" using in_orderD(5) [OF o that] by blast
    with t show False by simp
  qed
  have "tasks_stand st'"
    unfolding tasks_stand_def
  proof
    fix j
    show "stands (map_of (sc_tasks st') j) (phase_at st' j)"
    proof (cases "map_of (sc_tasks st) j")
      case None
      with in_orderD(8) [OF o, of j] at [of j] run s show ?thesis by auto
    next
      case (Some k)
      then have "j \<notin> skip" using running_exists [OF h Some] sk [of j] by (auto simp: began_def)
      with in_orderD(8) [OF o, of j] at [of j] run s show ?thesis by (cases "j = n") auto
    qed
  qed
  moreover have "skips_exact st'"
    unfolding skips_exact_def
  proof (intro conjI allI impI)
    fix j assume j: "phase_at st' j = SKIPPED"
    show "\<exists>f. phase_at st' f = FAILED \<and> needs (sched_phases st') j f"
    proof (cases "j \<in> skip")
      case True
      then have "s = FAILED" "needs (sched_phases st) j n" using skip by (auto split: if_splits)
      with at [of n] ph show ?thesis by auto
    next
      case False
      then have "phase_at st j = SKIPPED" using j at [of j] s by (auto split: if_splits)
      then obtain f where f: "phase_at st f = FAILED" "needs (sched_phases st) j f"
        using in_orderD(3) [OF o] by blast
      moreover have "f \<notin> skip" using f(1) m by (auto simp: moves_def)
      ultimately have "phase_at st' f = FAILED" using at [of f] t by (cases "f = n") auto
      with f ph show ?thesis by auto
    qed
  next
    fix j f assume f: "phase_at st' f = FAILED" and nd: "needs (sched_phases st') j f"
    show "phase_at st' j = SKIPPED"
    proof (cases "f = n")
      case True
      with f at [of n] have s: "s = FAILED" by simp
      have nn: "needs (sched_phases st) j n" using nd ph True by simp
      have "\<not> began st j" using in_orderD(5) [OF o _ nn] t by auto
      then have "j \<noteq> n" using bn by auto
      moreover have "phase_at st j \<noteq> RUNNING"
        using \<open>\<not> began st j\<close> in_orderD(8) [OF o, of j] running_exists [OF h, of j]
        by (cases "map_of (sc_tasks st) j") (auto simp: began_def)
      ultimately have "phase_at st j = SKIPPED \<or> j \<in> skip"
        using \<open>\<not> began st j\<close> in_orderD(6,7) [OF o, of j] s nn skip
        by (cases "phase_at st j") (auto simp: began_def)
      with at [of j] \<open>j \<noteq> n\<close> show ?thesis by auto
    next
      case False
      then have "phase_at st f = FAILED" using f at [of f] by (auto split: if_splits)
      then have "phase_at st j = SKIPPED" using in_orderD(4) [OF o] nd ph by metis
      moreover from this have "j \<noteq> n" using t by auto
      ultimately show ?thesis using at [of j] by auto
    qed
  qed
  moreover have "needs_passed st'"
    unfolding needs_passed_def
  proof (intro allI impI)
    fix j k assume "began st' j" "needs (sched_phases st') j k"
    then have "phase_at st k = PASSED" using in_orderD(5) [OF o] b ph by metis
    moreover from this have "k \<noteq> n" using t by auto
    moreover have "k \<notin> skip" using calculation m by (auto simp: moves_def)
    ultimately show "phase_at st' k = PASSED" using at [of k] by simp
  qed
  moreover have "starts_after st'"
    by (rule starts_after_moves [OF o m]) (use t run in \<open>auto split: if_splits\<close>)
  moreover have "plain_shape cfg st'" using plain_shape_moves [OF o m] s by auto
  moreover have "mode_fits st'"
  proof -
    have "sc_mode st \<noteq> Finished"
      using h p by (auto simp: held_once_def tasks_match_def quiet_mode_def)
    then show ?thesis using in_orderD(13) [OF o] m ch by (auto simp: mode_fits_def moves_def)
  qed
  ultimately show ?thesis by (simp add: in_order_def)
qed

lemma state_of_SKIP:
  "map_of st' n = (if P then Some SKIPPED else map_of st n) \<Longrightarrow>
     state_of st' n = (if P then SKIPPED else state_of st n)"
  by (simp add: state_of_def dict_get_def)

lemma finish_moves:
  assumes o: "in_order cfg st" and name: "ph_name p = n" and running: "phase_at st n = RUNNING"
  shows "moves n (if e = None then PASSED else FAILED)
    (if e = None then {} else {j. needs (sched_phases st) j n \<and> phase_at st j = PENDING \<and> j \<noteq> n}) st
    (task_finish cx files p nodes started took e st)"
proof (cases e)
  case None
  then show ?thesis
    by (auto simp: moves_def task_finish_def end_task_def phase_at_def run_pieces state_of_update name sched_phases_def
        same_guests [OF run_pieces_guests(2)])
next
  case (Some x)
  let ?S = "se_state (run_failed cx files p nodes started took x (sc_session st))"
  have got: "map_of ?S j = (if j = n then Some FAILED
      else if needs (sched_phases st) j n \<and> map_of (se_state (sc_session st)) j = Some PENDING then Some SKIPPED
      else map_of (se_state (sc_session st)) j)" for j
    by (auto simp: run_failed_state name skipped_by_def dependents_iff sched_phases_def)
  have known: "map_of (se_state (sc_session st)) j \<noteq> None" if "needs (sched_phases st) j n" for j
    using needs_phase [OF that] in_orderD(11) [OF o] by auto
  have "state_of ?S j = (if j = n then FAILED
      else if needs (sched_phases st) j n \<and> phase_at st j = PENDING then SKIPPED else phase_at st j)" for j
    using known [of j] unfolding state_of_def dict_get_def got phase_at_def
    by (auto split: option.splits)
  moreover have "dom (map_of (se_state (sc_session st))) \<subseteq> dom (map_of ?S)"
    by (auto simp: got)
  ultimately show ?thesis using Some
    by (auto simp: moves_def task_finish_def end_task_def phase_at_def run_pieces sched_phases_def
        same_guests [OF run_pieces_guests(1)])
qed

lemma in_order_finish:
  assumes o: "in_order cfg st" and h: "held_once cfg st" and p: "map_of (sc_running st) n = Some p"
    and t: "map_of (sc_tasks st) n = Some (Settling nodes started took e)"
  shows "in_order cfg (task_finish cx files p nodes started took e st)"
proof -
  have name: "ph_name p = n" using h p by (auto simp: held_once_def tasks_match_def)
  have r: "phase_at st n = RUNNING" using in_orderD(8) [OF o, of n] t by simp
  show ?thesis
    by (rule in_order_over [OF o h p r finish_moves [OF o name r]])
      (auto simp: task_finish_def end_task_def name split: option.split)
qed

lemma orderly_step:
  assumes "sched_step cfg cx st st'" "orderly cfg st"
  shows "orderly cfg st'"
proof -
  have h': "held_once cfg st'" using assms held_once_step by (auto simp: orderly_def)
  have h: "held_once cfg st" using assms by (simp add: orderly_def)
  from assms(1) have "sc_mode st' = Stopped \<or> (sc_mode st \<noteq> Stopped \<and> (in_order cfg st \<longrightarrow> in_order cfg st'))"
  proof cases
    case turn
    then show ?thesis using h in_order_turn by auto
  next
    case (wake busy)
    have "in_order cfg (st\<lparr>sc_changed := False, sc_mode := Deciding\<rparr>)" if "in_order cfg st"
      by (rule in_order_same [OF that]) (simp_all add: mode_fits_def sched_phases_def)
    with wake show ?thesis by (simp add: in_order_work)
  next
    case (enter n p vms busy)
    then have "sc_mode st \<noteq> Stopped" using h by (auto simp: held_once_def tasks_match_def quiet_mode_def)
    with enter h show ?thesis by (simp add: in_order_work in_order_enter)
  next
    case (ended n p nodes started e busy)
    then have "sc_mode st \<noteq> Stopped" using h by (auto simp: held_once_def tasks_match_def quiet_mode_def)
    with ended h show ?thesis by (simp add: in_order_work in_order_ended)
  next
    case (finish n p nodes started took e busy files)
    then have "sc_mode st \<noteq> Stopped" using h by (auto simp: held_once_def tasks_match_def quiet_mode_def)
    with finish h show ?thesis by (simp add: in_order_work in_order_finish)
  next
    case (resume reason busy)
    then have "\<not> in_order cfg st" using in_orderD(13) by (auto simp: mode_fits_def)
    with resume show ?thesis by simp
  next
    case (by_hand reason p w verdict s' busy)
    then have "\<not> in_order cfg st" using in_orderD(13) by (auto simp: mode_fits_def)
    with by_hand show ?thesis by simp
  next
    case stop
    then show ?thesis by (simp add: sched_stop_def)
  qed
  with assms(2) h' show ?thesis by (auto simp: orderly_def)
qed

lemma initial_states_of: "state_of (initial_states ps) n = PENDING"
proof -
  have "state_of (fold (\<lambda>p st. AList.update (ph_name p) PENDING st) ps st) n = PENDING"
    if "state_of st n = PENDING" for st
    using that by (induction ps arbitrary: st) (auto simp: state_of_update)
  then show ?thesis by (simp add: initial_states_def state_of_def dict_get_def)
qed

lemma initial_states_dom: "p \<in> set ps \<Longrightarrow> ph_name p \<in> dom (map_of (initial_states ps))"
proof -
  have "dom (map_of (fold (\<lambda>p st. AList.update (ph_name p) PENDING st) ps st)) =
      dom (map_of st) \<union> ph_name ` set ps" for st
    by (induction ps arbitrary: st) (auto simp: dom_def split: if_splits)
  then show "p \<in> set ps \<Longrightarrow> ph_name p \<in> dom (map_of (initial_states ps))"
    by (simp add: initial_states_def)
qed

lemma orderly_start:
  assumes "plain_starts cfg st"
  shows "orderly cfg st"
proof -
  obtain s where s: "st = sched_start s" "guests_known cfg s" "\<not> sg_control cfg" "se_vms s \<noteq> None"
      "se_state s = initial_states (sp_phases (se_spec s))" "distinct (phase_names (sp_phases (se_spec s)))"
    using assms by (auto simp: plain_starts_def)
  have at: "phase_at st n = PENDING" for n
    using s by (simp add: phase_at_def sched_start_def initial_states_of)
  have "held_once cfg st" using s by (intro held_once_start) (auto simp: sched_starts_def)
  moreover have "in_order cfg st"
    using s initial_states_dom
    unfolding in_order_def plain_shape_def mode_fits_def tasks_stand_def starts_after_def skips_exact_def
      needs_passed_def began_def at
    by (simp add: sched_start_def sched_phases_def)
  ultimately show ?thesis by (simp add: orderly_def)
qed

section \<open>Every step uses something up\<close>

fun task_weight :: "task option \<Rightarrow> phase_state \<Rightarrow> nat" where
  "task_weight None s = (if s = PENDING then 6 else 0)"
| "task_weight (Some Launched) s = 5"
| "task_weight (Some (Inside _ _)) s = 4"
| "task_weight (Some (Settling _ _ _ _)) s = 3"

definition weight :: "sched \<Rightarrow> string \<Rightarrow> nat" where
  "weight st n = task_weight (map_of (sc_tasks st) n) (phase_at st n)"

definition steps_left :: "sched \<Rightarrow> nat" where
  "steps_left st =
     (if sc_mode st = Stopped then 0
      else 1 + (\<Sum>n\<in>set (phase_names (sched_phases st)). weight st n) +
           (if sc_changed st then 2 else 0) + (if sc_mode st = Deciding then 1 else 0))"

lemma steps_left_work [simp]: "steps_left (work cx busy st) = steps_left st"
  by (simp add: steps_left_def weight_def)

lemma weights_le:
  assumes "\<And>m. weight st' m \<le> weight st m" "sched_phases st' = sched_phases st"
  shows "(\<Sum>n\<in>set (phase_names (sched_phases st')). weight st' n) \<le>
    (\<Sum>n\<in>set (phase_names (sched_phases st)). weight st n)"
  using assms by (simp add: sum_mono)

lemma weights_less:
  assumes "\<And>m. weight st' m \<le> weight st m" "sched_phases st' = sched_phases st"
    and "n \<in> set (phase_names (sched_phases st))" "weight st' n + k \<le> weight st n"
  shows "(\<Sum>n\<in>set (phase_names (sched_phases st')). weight st' n) + k \<le>
    (\<Sum>n\<in>set (phase_names (sched_phases st)). weight st n)"
proof -
  let ?N = "set (phase_names (sched_phases st))"
  have "(\<Sum>m\<in>?N. weight st' m) = weight st' n + (\<Sum>m\<in>?N - {n}. weight st' m)"
    "(\<Sum>m\<in>?N. weight st m) = weight st n + (\<Sum>m\<in>?N - {n}. weight st m)"
    using assms(3) by (simp_all add: sum.remove)
  moreover have "(\<Sum>m\<in>?N - {n}. weight st' m) \<le> (\<Sum>m\<in>?N - {n}. weight st m)"
    using assms(1) by (simp add: sum_mono)
  ultimately show ?thesis using assms(2,4) by simp
qed

lemma launch_weights:
  assumes o: "in_order cfg st"
  shows "weight (fold launch (todo cfg st) st) m \<le> weight st m"
proof (cases "m \<in> ph_name ` set (todo cfg st)")
  case True
  then obtain p where "p \<in> set (candidates st)" "ph_name p = m" using todo_candidates by blast
  then have "phase_at st m = PENDING" by (auto simp: candidates_def ready_iff phase_at_def)
  moreover from this in_orderD(8) [OF o, of m]
  have "map_of (sc_tasks st) m = None \<or> map_of (sc_tasks st) m = Some Launched"
    by (metis stands.elims(2) phase_state.distinct(1))
  ultimately show ?thesis using True by (auto simp: weight_def launched_tasks)
next
  case False
  then show ?thesis by (simp add: weight_def launched_tasks)
qed

lemma turn_burns:
  assumes o: "in_order cfg st" and mode: "sc_mode st = Deciding"
  shows "steps_left (sched_turn cfg st) < steps_left st"
proof -
  have t: "sched_turn cfg st = settle_turn (fold launch (todo cfg st) st)"
    using in_orderD(1) [OF o] by (simp add: sched_turn_def pause_reason_def)
  have w: "weight (sched_turn cfg st) m = weight (fold launch (todo cfg st) st) m" for m
    unfolding t settle_turn_def weight_def phase_at_def by simp
  have "(\<Sum>n\<in>set (phase_names (sched_phases (sched_turn cfg st))). weight (sched_turn cfg st) n) \<le>
    (\<Sum>n\<in>set (phase_names (sched_phases st)). weight st n)"
    using w launch_weights [OF o] by (intro weights_le) (simp_all add: t settle_turn_def sched_phases_def)
  then show ?thesis using mode
    unfolding steps_left_def by (simp add: t settle_turn_def)
qed

lemma running_phase:
  "in_order cfg st \<Longrightarrow> held_once cfg st \<Longrightarrow> map_of (sc_running st) n = Some p \<Longrightarrow>
     ph_name p = n \<and> n \<in> set (phase_names (sched_phases st)) \<and> sc_mode st \<noteq> Stopped"
  using in_orderD(9) [of cfg st n p]
  by (auto simp: held_once_def tasks_match_def phase_names_def quiet_mode_def)

text \<open>A task's step: its own weight falls, no other rises.\<close>

lemma task_burns:
  assumes o: "in_order cfg st" and h: "held_once cfg st" and p: "map_of (sc_running st) n = Some p"
    and m: "moves n s skip st st'" and st: "sc_mode st' = sc_mode st"
    and others: "\<And>j. j \<noteq> n \<Longrightarrow> map_of (sc_tasks st') j = map_of (sc_tasks st) j"
    and own: "weight st' n + (if sc_changed st' \<and> \<not> sc_changed st then 2 else 0) < weight st n"
    and ch: "sc_changed st \<longrightarrow> sc_changed st'"
  shows "steps_left st' < steps_left st"
proof -
  have n: "n \<in> set (phase_names (sched_phases st))" and mode: "sc_mode st \<noteq> Stopped"
    using running_phase [OF o h p] by auto
  let ?k = "Suc (if sc_changed st' \<and> \<not> sc_changed st then 2 else 0)"
  have "weight st' j \<le> weight st j" for j
  proof (cases "j = n")
    case True
    with own show ?thesis by simp
  next
    case False
    then have "phase_at st' j = phase_at st j \<or> phase_at st j = PENDING" using m by (auto simp: moves_def)
    moreover have "phase_at st' j = (if j \<in> skip then SKIPPED else phase_at st j)"
      using False m by (simp add: moves_def)
    ultimately show ?thesis using others [OF False]
      by (cases "(map_of (sc_tasks st) j, phase_at st' j)" rule: task_weight.cases) (auto simp: weight_def)
  qed
  then have "(\<Sum>j\<in>set (phase_names (sched_phases st')). weight st' j) + ?k \<le>
    (\<Sum>j\<in>set (phase_names (sched_phases st)). weight st j)"
    using m n own by (intro weights_less [of st' st n ?k]) (simp_all add: moves_def)
  then show ?thesis using mode st ch unfolding steps_left_def by (auto split: if_splits)
qed

lemma enter_moves:
  assumes "ph_name p = n" "se_vms (sc_session st) = Some vms"
  shows "moves n RUNNING {} st (task_enter cx p vms st)"
proof -
  have k: "keeps (sc_session st) (snd (drain (cx_loads cx) (cx_decode cx) (sc_session st)))"
    by (rule keeps_drain)
  then have "(se_vms (snd (drain (cx_loads cx) (cx_decode cx) (sc_session st))) = None) =
      (se_vms (sc_session st) = None)"
    unfolding keeps_def by (metis option.map_disc_iff)
  with k assms show ?thesis
    by (auto simp: moves_def task_enter_def Let_def phase_at_def run_enter_state
        state_of_update sched_phases_def keeps_def)
qed

lemma ended_moves:
  "phase_at st n = RUNNING \<Longrightarrow> moves n RUNNING {} st (task_ended p nodes started e st)"
  by (auto simp: moves_def task_ended_def phase_at_def sched_phases_def)

lemma orderly_burns:
  assumes s: "sched_step cfg cx st st'" and or: "orderly cfg st"
  shows "steps_left st' < steps_left st"
proof -
  have h: "held_once cfg st" using or by (simp add: orderly_def)
  have o: "in_order cfg st" if "sc_mode st \<noteq> Stopped" using that or by (simp add: orderly_def)
  have run: "in_order cfg st" if "map_of (sc_running st) n = Some p" for n p
    using that h or by (auto simp: orderly_def held_once_def tasks_match_def quiet_mode_def)
  from s show ?thesis
  proof cases
    case turn
    then show ?thesis using o turn_burns by simp
  next
    case (wake busy)
    have "steps_left (st\<lparr>sc_changed := False, sc_mode := Deciding\<rparr>) < steps_left st"
      using wake by (simp add: steps_left_def weight_def phase_at_def sched_phases_def)
    with wake show ?thesis by simp
  next
    case (enter n p vms busy)
    have name: "ph_name p = n" using running_phase [OF run [OF enter(2)] h enter(2)] by simp
    have "steps_left (task_enter cx p vms st) < steps_left st"
      by (rule task_burns [OF run [OF enter(2)] h enter(2) enter_moves [OF name enter(4)]])
        (use enter name in \<open>auto simp: task_enter_def Let_def weight_def\<close>)
    with enter show ?thesis by simp
  next
    case (ended n p nodes started e busy)
    have name: "ph_name p = n" using running_phase [OF run [OF ended(2)] h ended(2)] by simp
    have r: "phase_at st n = RUNNING" using in_orderD(8) [OF run [OF ended(2)], of n] ended by simp
    have "steps_left (task_ended p nodes started e st) < steps_left st"
      by (rule task_burns [OF run [OF ended(2)] h ended(2) ended_moves [OF r]])
        (use ended name in \<open>auto simp: task_ended_def weight_def\<close>)
    with ended show ?thesis by simp
  next
    case (finish n p nodes started took e busy files)
    have name: "ph_name p = n" using running_phase [OF run [OF finish(2)] h finish(2)] by simp
    have o: "in_order cfg st" using run [OF finish(2)] .
    have r: "phase_at st n = RUNNING" using in_orderD(8) [OF o, of n] finish by simp
    let ?st' = "task_finish cx files p nodes started took e st"
    have m: "moves n (if e = None then PASSED else FAILED)
      (if e = None then {} else {j. needs (sched_phases st) j n \<and> phase_at st j = PENDING \<and> j \<noteq> n}) st ?st'"
      by (rule finish_moves [OF o name r])
    have "map_of (sc_tasks ?st') n = None"
      using name by (simp add: task_finish_def end_task_def split: option.split)
    moreover have "phase_at ?st' n \<noteq> PENDING" using m by (simp add: moves_def)
    ultimately have w: "weight ?st' n = 0" by (simp add: weight_def)
    have "steps_left ?st' < steps_left st"
      by (rule task_burns [OF o h finish(2) m])
        (use finish name w in \<open>auto simp: task_finish_def end_task_def weight_def split: option.split\<close>)
    with finish show ?thesis by simp
  next
    case (resume reason busy)
    then show ?thesis using o in_orderD(13) by (auto simp: mode_fits_def)
  next
    case (by_hand reason p w verdict s' busy)
    then show ?thesis using o in_orderD(13) by (auto simp: mode_fits_def)
  next
    case stop
    then show ?thesis by (simp add: steps_left_def sched_stop_def)
  qed
qed

interpretation plain: bounded_machine "plain_starts cfg" "sched_step cfg cx" "orderly cfg" steps_left for cfg cx
  by unfold_locales (erule orderly_start, erule (1) orderly_step, erule (1) orderly_burns)

section \<open>It goes on until every phase is answered\<close>

text \<open>Every \<open>after\<close> names a phase earlier in the list, which is the order Nix sorts them in.\<close>

definition sorted_after :: "phase_spec list \<Rightarrow> bool" where
  "sorted_after ps =
     (\<forall>i<length ps. \<forall>a\<in>set (ph_after (ps ! i)). \<exists>j<i. ph_name (ps ! j) = a)"

lemma plain_progress:
  assumes or: "orderly cfg st" and mode: "sc_mode st \<noteq> Finished" "sc_mode st \<noteq> Stopped"
  shows "\<exists>st'. sched_step cfg cx st st' \<and> sc_mode st' \<noteq> Stopped"
proof -
  have o: "in_order cfg st" and h: "held_once cfg st" using or mode by (auto simp: orderly_def)
  have run: "\<exists>st'. sched_step cfg cx st st' \<and> sc_mode st' \<noteq> Stopped" if ne: "sc_running st \<noteq> []"
  proof -
    obtain n p xs where "sc_running st = (n, p) # xs" using ne by (cases "sc_running st") auto
    then have p: "map_of (sc_running st) n = Some p" by simp
    then obtain t where t: "map_of (sc_tasks st) n = Some t"
      using h unfolding held_once_def tasks_match_def by (metis domD domI)
    obtain vms where vms: "se_vms (sc_session st) = Some vms" using in_orderD(12) [OF o] by auto
    show ?thesis
    proof (cases t)
      case Launched
      with enter [OF p _ vms, of cfg cx "[]"] t mode show ?thesis by (force simp: task_enter_def Let_def)
    next
      case (Inside nodes started)
      with ended [OF p, of nodes started None cfg cx "[]"] t mode show ?thesis by (force simp: task_ended_def)
    next
      case (Settling nodes started took e)
      with finish [OF p, of nodes started took e cfg cx "[]" "[]"] t mode show ?thesis
        by (force simp: task_finish_def end_task_def split: option.splits)
    qed
  qed
  show ?thesis
  proof (cases "sc_mode st")
    case Deciding
    have "sc_mode (sched_turn cfg st) \<noteq> Stopped"
      using in_orderD(1) [OF o] by (simp add: sched_turn_def pause_reason_def settle_turn_def)
    with turn [OF Deciding, of cfg cx] show ?thesis by blast
  next
    case Waiting
    show ?thesis
    proof (cases "sc_changed st")
      case True
      from wake [OF Waiting True, of cfg cx "[]"] show ?thesis by force
    next
      case False
      then have "sc_running st \<noteq> []" using in_orderD(13) [OF o] Waiting by (simp add: mode_fits_def)
      then show ?thesis by (rule run)
    qed
  next
    case (Paused reason)
    with in_orderD(13) [OF o] show ?thesis by (simp add: mode_fits_def)
  qed (use mode in auto)
qed

lemma plain_answers:
  assumes or: "orderly cfg st" and mode: "sc_mode st = Finished"
    and sorted: "sorted_after (sched_phases st)" and p: "p \<in> set (sched_phases st)"
  shows "phase_at st (ph_name p) \<in> {PASSED, FAILED, SKIPPED}"
proof -
  let ?ps = "sched_phases st"
  have o: "in_order cfg st" and h: "held_once cfg st" using or mode by (auto simp: orderly_def)
  have none: "sc_running st = []" using h mode by (simp add: held_once_def tasks_match_def quiet_mode_def)
  have notrun: "phase_at st n \<noteq> RUNNING" for n
  proof -
    have "map_of (sc_tasks st) n = None" using h none by (auto simp: held_once_def tasks_match_def)
    then show ?thesis using in_orderD(8) [OF o, of n] by simp
  qed
  have "phase_at st (ph_name (?ps ! i)) \<noteq> PENDING" if "i < length ?ps" for i
    using that
  proof (induction i rule: less_induct)
    case (less i)
    have "\<not> unfinished (phase_at st a)" if "a \<in> set (ph_after (?ps ! i))" for a
    proof -
      obtain j where "j < i" "ph_name (?ps ! j) = a"
        using sorted less.prems \<open>a \<in> set (ph_after (?ps ! i))\<close> by (auto simp: sorted_after_def)
      with less notrun show ?thesis by (auto simp: unfinished_def)
    qed
    moreover have "?ps ! i \<notin> set (ready ?ps (se_state (sc_session st)))"
      using in_orderD(13) [OF o] mode by (simp add: mode_fits_def)
    ultimately show ?case using less.prems by (auto simp: ready_iff phase_at_def)
  qed
  then have "phase_at st (ph_name p) \<noteq> PENDING" using p by (auto simp: in_set_conv_nth)
  then show ?thesis using notrun [of "ph_name p"] in_orderD(6,7) [OF o, of "ph_name p"]
    by (cases "phase_at st (ph_name p)") auto
qed

lemma steps_left_start:
  assumes "plain_starts cfg st"
  shows "steps_left st \<le> 6 * length (sched_phases st) + 2"
proof -
  have o: "orderly cfg st" using assms by (rule orderly_start)
  have w: "weight st n \<le> 6" for n
    by (cases "(map_of (sc_tasks st) n, phase_at st n)" rule: task_weight.cases) (auto simp: weight_def)
  have "(\<Sum>n\<in>set (phase_names (sched_phases st)). weight st n) \<le> card (set (phase_names (sched_phases st))) * 6"
    using sum_bounded_above [of "set (phase_names (sched_phases st))" "weight st" 6] w by simp
  also have "\<dots> \<le> 6 * length (sched_phases st)"
    using card_length [of "phase_names (sched_phases st)"] by (simp add: phase_names_def)
  finally show ?thesis using assms by (auto simp: steps_left_def plain_starts_def sched_start_def)
qed

section \<open>One task from start to end\<close>

definition ran_task :: "env \<Rightarrow> phase_spec \<Rightarrow> (string, guest) dict \<Rightarrow> exn option \<Rightarrow> sched \<Rightarrow> sched" where
  "ran_task cx p vms e st =
     (let inside = task_enter cx p vms st;
          nodes = phase_nodes p vms;
          started = se_now (sc_session inside)
      in task_finish cx [] p nodes started 0 e (task_ended p nodes started e inside))"

lemma work_nothing: "work cx [] st = st"
  by (simp add: work_def)

lemma ran_task_reach:
  assumes r: "reach start (sched_step cfg cx) st" and run: "map_of (sc_running st) n = Some p"
    and t: "map_of (sc_tasks st) n = Some Launched" and vms: "se_vms (sc_session st) = Some vms"
    and name: "ph_name p = n" and e: "e \<noteq> Some Cancelled"
  shows "reach start (sched_step cfg cx) (ran_task cx p vms e st)"
proof -
  let ?a = "task_enter cx p vms st"
  let ?nodes = "phase_nodes p vms"
  let ?t = "se_now (sc_session ?a)"
  let ?b = "task_ended p ?nodes ?t e ?a"
  have a: "sched_step cfg cx st ?a" using enter [OF run t vms, of cfg cx "[]"] by (simp add: work_nothing)
  have ra: "map_of (sc_running ?a) n = Some p" "map_of (sc_tasks ?a) n = Some (Inside ?nodes ?t)"
    using run name by (simp_all add: task_enter_def Let_def)
  have b: "sched_step cfg cx ?a ?b" using ended [OF ra e, of cfg cx "[]"] by (simp add: work_nothing)
  have rb: "map_of (sc_running ?b) n = Some p" "map_of (sc_tasks ?b) n = Some (Settling ?nodes ?t 0 e)"
    using ra name by (simp_all add: task_ended_def)
  have "sched_step cfg cx ?b (ran_task cx p vms e st)"
    using finish [OF rb, of cfg cx "[]" "[]"] by (simp add: work_nothing ran_task_def Let_def)
  with r a b show ?thesis by (blast intro: reach_step)
qed

end
