(* ===== verification/Sinks.thy ===== *)
theory Sinks
  imports Events
begin

text \<open>
  \<^verbatim>\<open>src/pkgs/uml/uml/sinks.py\<close>: where the events go. A file or a stream is its text, and
  room for so much more; writing past it is the \<open>OSError\<close> of a full disk, writing after
  \<open>close\<close> is a \<open>ValueError\<close>. Each sink's \<open>emit\<close> answers the sink it leaves, or the error.
  The interface \<open>sink_view\<close> is what a reader of a sink's output relies on: emitting appends
  exactly what the sink shows of an event.
\<close>

section \<open>Files\<close>

record text_file =
  tf_text :: string
  tf_room :: "nat option"
  tf_open :: bool

definition fresh_file :: "nat option \<Rightarrow> text_file" where
  "fresh_file room = \<lparr> tf_text = [], tf_room = room, tf_open = True \<rparr>"

definition write_text :: "string \<Rightarrow> text_file \<Rightarrow> string + text_file" where
  "write_text s f =
     (if \<not> tf_open f then Inl ''I/O operation on closed file.''
      else (case tf_room f of
              None \<Rightarrow> Inr (f\<lparr>tf_text := tf_text f @ s\<rparr>)
            | Some n \<Rightarrow>
                if length s \<le> n then Inr (f\<lparr>tf_text := tf_text f @ s, tf_room := Some (n - length s)\<rparr>)
                else Inl ''No space left on device''))"

definition close_file :: "text_file \<Rightarrow> text_file" where
  "close_file f = f\<lparr>tf_open := False\<rparr>"

lemma write_text_Inr: "write_text s f = Inr g \<Longrightarrow> tf_text g = tf_text f @ s"
  by (auto simp: write_text_def split: if_splits option.splits)

section \<open>The sinks\<close>

record terminal =
  te_level :: level
  te_stream :: text_file

definition terminal_emit :: "terminal \<Rightarrow> event \<Rightarrow> string + terminal" where
  "terminal_emit t e =
     (if \<not> wanted e (te_level t) then Inr t
      else and_then (write_text (render e @ [LF]) (te_stream t)) (\<lambda>f. Inr (t\<lparr>te_stream := f\<rparr>)))"

definition log_emit :: "text_file \<Rightarrow> event \<Rightarrow> string + text_file" where
  "log_emit f e = write_text (render e @ [LF]) f"

definition json_emit :: "(json \<Rightarrow> string) \<Rightarrow> text_file \<Rightarrow> event \<Rightarrow> string + text_file" where
  "json_emit dumps f e = write_text (dumps (as_json e) @ [LF]) f"

record console_files =
  cf_files :: "(string, text_file) dict"
  cf_room :: "nat option"

definition console_emit :: "console_files \<Rightarrow> event \<Rightarrow> string + console_files" where
  "console_emit c e =
     (if ev_kind e \<noteq> K_CONSOLE \<or> \<not> some_text (ev_machine e) then Inr c
      else
        (let m = text_or (ev_machine e) [];
             handle = (case map_of (cf_files c) m of None \<Rightarrow> fresh_file (cf_room c) | Some f \<Rightarrow> f)
         in and_then (write_text (ev_text e @ [LF]) handle)
              (\<lambda>f. Inr (c\<lparr>cf_files := AList.update m f (cf_files c)\<rparr>))))"

definition console_close :: "console_files \<Rightarrow> console_files" where
  "console_close c = c\<lparr>cf_files := []\<rparr>"

record junit_sink =
  js_file :: text_file
  js_name :: string
  js_events :: "event list"

definition junit_emit :: "junit_sink \<Rightarrow> event \<Rightarrow> string + junit_sink" where
  "junit_emit j e =
     Inr (if ev_kind e = K_PHASE_FINISHED \<or> ev_kind e = K_CASE
          then j\<lparr>js_events := js_events j @ [e]\<rparr> else j)"

definition junit_close :: "junit_sink \<Rightarrow> string + junit_sink" where
  "junit_close j =
     and_then (write_text (junit (js_events j) (js_name j)) (js_file j))
       (\<lambda>f. Inr (j\<lparr>js_file := close_file f\<rparr>))"

datatype sink =
    TerminalSink terminal
  | LogSink text_file
  | JsonLinesSink text_file
  | ConsoleFilesSink console_files
  | JunitSink junit_sink

fun sink_name :: "sink \<Rightarrow> string" where
  "sink_name (TerminalSink t) = ''Terminal''"
| "sink_name (LogSink f) = ''Log''"
| "sink_name (JsonLinesSink f) = ''JsonLines''"
| "sink_name (ConsoleFilesSink c) = ''ConsoleFiles''"
| "sink_name (JunitSink j) = ''Junit''"

fun sink_emit :: "(json \<Rightarrow> string) \<Rightarrow> sink \<Rightarrow> event \<Rightarrow> string + sink" where
  "sink_emit dumps (TerminalSink t) e = and_then (terminal_emit t e) (\<lambda>x. Inr (TerminalSink x))"
| "sink_emit dumps (LogSink f) e = and_then (log_emit f e) (\<lambda>x. Inr (LogSink x))"
| "sink_emit dumps (JsonLinesSink f) e = and_then (json_emit dumps f e) (\<lambda>x. Inr (JsonLinesSink x))"
| "sink_emit dumps (ConsoleFilesSink c) e = and_then (console_emit c e) (\<lambda>x. Inr (ConsoleFilesSink x))"
| "sink_emit dumps (JunitSink j) e = and_then (junit_emit j e) (\<lambda>x. Inr (JunitSink x))"

fun sink_close :: "sink \<Rightarrow> string + sink" where
  "sink_close (TerminalSink t) = Inr (TerminalSink t)"
| "sink_close (LogSink f) = Inr (LogSink (close_file f))"
| "sink_close (JsonLinesSink f) = Inr (JsonLinesSink (close_file f))"
| "sink_close (ConsoleFilesSink c) = Inr (ConsoleFilesSink (console_close c))"
| "sink_close (JunitSink j) = and_then (junit_close j) (\<lambda>x. Inr (JunitSink x))"

section \<open>Broadcast\<close>

record broadcast =
  bc_sinks :: "sink list"
  bc_broken :: "nat set"
  bc_stderr :: "string list"

text \<open>
  One event to every sink from index \<open>i\<close> on: the sinks left, the broken ones, the complaints.
\<close>

fun broadcast_loop ::
  "(json \<Rightarrow> string) \<Rightarrow> event \<Rightarrow> nat \<Rightarrow> sink list \<Rightarrow> nat set \<Rightarrow> string list \<Rightarrow> sink list \<times> nat set \<times> string list" where
  "broadcast_loop dumps e i [] broken err = ([], broken, err)"
| "broadcast_loop dumps e i (s # ss) broken err =
     (if i \<in> broken then
        (case broadcast_loop dumps e (Suc i) ss broken err of (ss', b, er) \<Rightarrow> (s # ss', b, er))
      else
        (case sink_emit dumps s e of
           Inr s' \<Rightarrow>
             (case broadcast_loop dumps e (Suc i) ss broken err of (ss', b, er) \<Rightarrow> (s' # ss', b, er))
         | Inl error \<Rightarrow>
             (case broadcast_loop dumps e (Suc i) ss (insert i broken)
                     (err @ [''[uml] '' @ sink_name s @ '' stopped taking events ('' @ error @
                             ''); the run carries on''])
              of (ss', b, er) \<Rightarrow> (s # ss', b, er))))"

definition broadcast_emit :: "(json \<Rightarrow> string) \<Rightarrow> event \<Rightarrow> broadcast \<Rightarrow> broadcast" where
  "broadcast_emit dumps e b =
     (case broadcast_loop dumps e 0 (bc_sinks b) (bc_broken b) (bc_stderr b) of
        (ss, br, err) \<Rightarrow> \<lparr> bc_sinks = ss, bc_broken = br, bc_stderr = err \<rparr>)"

fun close_loop :: "sink list \<Rightarrow> string list \<Rightarrow> sink list \<times> string list" where
  "close_loop [] err = ([], err)"
| "close_loop (s # ss) err =
     (case sink_close s of
        Inr s' \<Rightarrow> (case close_loop ss err of (ss', er) \<Rightarrow> (s' # ss', er))
      | Inl error \<Rightarrow>
         (case close_loop ss (err @ [''[uml] '' @ sink_name s @ '' did not close cleanly: '' @ error])
          of (ss', er) \<Rightarrow> (s # ss', er)))"

definition broadcast_close :: "broadcast \<Rightarrow> broadcast" where
  "broadcast_close b =
     (case close_loop (bc_sinks b) (bc_stderr b) of
        (ss, err) \<Rightarrow> b\<lparr>bc_sinks := ss, bc_stderr := err\<rparr>)"

section \<open>The interface of one sink\<close>

fun emit_all :: "('s \<Rightarrow> event \<Rightarrow> string + 's) \<Rightarrow> 's \<Rightarrow> event list \<Rightarrow> string + 's" where
  "emit_all em s [] = Inr s"
| "emit_all em s (e # es) = and_then (em s e) (\<lambda>s'. emit_all em s' es)"

locale sink_view =
  fixes em :: "'s \<Rightarrow> event \<Rightarrow> string + 's"
    and view :: "'s \<Rightarrow> 'o list"
    and shows_of :: "'s \<Rightarrow> event \<Rightarrow> 'o list"
  assumes em_view: "em s e = Inr s' \<Longrightarrow> view s' = view s @ shows_of s e"
    and em_shows: "em s e = Inr s' \<Longrightarrow> shows_of s' = shows_of s"
begin

lemma emit_all_view: "emit_all em s es = Inr s' \<Longrightarrow> view s' = view s @ concat (map (shows_of s) es)"
proof (induction es arbitrary: s)
  case (Cons e es)
  then obtain t where t: "em s e = Inr t" and "emit_all em t es = Inr s'"
    by (auto simp: and_then_Inr)
  with Cons.IH have "view s' = view t @ concat (map (shows_of t) es)" by blast
  with em_view [OF t] em_shows [OF t] show ?case by simp
qed simp

lemma emit_all_shows: "emit_all em s es = Inr s' \<Longrightarrow> shows_of s' = shows_of s"
proof (induction es arbitrary: s)
  case (Cons e es)
  then obtain t where t: "em s e = Inr t" and "emit_all em t es = Inr s'"
    by (auto simp: and_then_Inr)
  with Cons.IH em_shows [OF t] show ?case by simp
qed simp

end

definition terminal_shows :: "terminal \<Rightarrow> event \<Rightarrow> string" where
  "terminal_shows t e = (if wanted e (te_level t) then render e @ [LF] else [])"

definition console_view :: "string \<Rightarrow> console_files \<Rightarrow> string" where
  "console_view m c = (case map_of (cf_files c) m of None \<Rightarrow> [] | Some f \<Rightarrow> tf_text f)"

definition console_shows :: "string \<Rightarrow> console_files \<Rightarrow> event \<Rightarrow> string" where
  "console_shows m c e =
     (if ev_kind e = K_CONSOLE \<and> ev_machine e = Some m \<and> m \<noteq> [] then ev_text e @ [LF] else [])"

definition junit_shows :: "junit_sink \<Rightarrow> event \<Rightarrow> event list" where
  "junit_shows j e = (if ev_kind e = K_PHASE_FINISHED \<or> ev_kind e = K_CASE then [e] else [])"

interpretation terminal_sink: sink_view terminal_emit "\<lambda>t. tf_text (te_stream t)" terminal_shows
  by unfold_locales
    (auto simp: terminal_emit_def terminal_shows_def and_then_Inr fun_eq_iff
      dest: write_text_Inr split: if_splits)

interpretation log_sink: sink_view log_emit tf_text "\<lambda>_ e. render e @ [LF]"
  by unfold_locales (auto simp: log_emit_def dest: write_text_Inr)

interpretation json_sink: sink_view "json_emit dumps" tf_text "\<lambda>_ e. dumps (as_json e) @ [LF]"
  for dumps :: "json \<Rightarrow> string"
  by unfold_locales (auto simp: json_emit_def dest: write_text_Inr)

interpretation console_sink: sink_view console_emit "console_view m" "console_shows m" for m :: string
  by unfold_locales
    (auto simp: console_emit_def console_view_def console_shows_def and_then_Inr fun_eq_iff fresh_file_def
      some_text_def text_or_def Let_def dest!: write_text_Inr split: if_splits option.splits)

interpretation junit_events: sink_view junit_emit js_events junit_shows
  by unfold_locales (auto simp: junit_emit_def junit_shows_def fun_eq_iff)

section \<open>Isolation\<close>

text \<open>
  One sink on its own, fed until it first fails: the state it is left in and whether it
  failed. \<open>Broadcast\<close> gives every sink exactly this.
\<close>

fun alone :: "(json \<Rightarrow> string) \<Rightarrow> event list \<Rightarrow> sink \<times> bool \<Rightarrow> sink \<times> bool" where
  "alone dumps [] sb = sb"
| "alone dumps (e # es) (s, b) =
     (if b then (s, b)
      else (case sink_emit dumps s e of Inl _ \<Rightarrow> (s, True) | Inr s' \<Rightarrow> alone dumps es (s', False)))"

definition one_step :: "(json \<Rightarrow> string) \<Rightarrow> event \<Rightarrow> sink \<times> bool \<Rightarrow> sink \<times> bool" where
  "one_step dumps e sb = alone dumps [e] sb"

lemma alone_broken [simp]: "alone dumps es (s, True) = (s, True)"
  by (cases es) auto

lemma alone_Nil: "alone dumps [] = (\<lambda>sb. sb)"
  by (rule ext) simp

lemma alone_Cons: "alone dumps (e # es) sb = alone dumps es (one_step dumps e sb)"
  by (cases sb) (auto simp: one_step_def split: sum.splits)

definition flags :: "nat \<Rightarrow> sink list \<Rightarrow> nat set \<Rightarrow> (sink \<times> bool) list" where
  "flags i ss broken = map (\<lambda>(j, s). (s, j \<in> broken)) (zip [i ..< i + length ss] ss)"

lemma flags_simps [simp]:
  "flags i [] broken = []"
  "flags i (s # ss) broken = (s, i \<in> broken) # flags (Suc i) ss broken"
  by (simp_all add: flags_def upt_rec)

lemma broadcast_loop_spec:
  "broadcast_loop dumps e i ss broken err = (ss', broken', err') \<Longrightarrow>
     flags i ss' broken' = map (one_step dumps e) (flags i ss broken) \<and>
     (\<forall>j. j < i \<longrightarrow> j \<in> broken' \<longleftrightarrow> j \<in> broken) \<and> length ss' = length ss"
proof (induction ss arbitrary: i broken err ss' broken' err')
  case Nil
  then show ?case by simp
next
  case (Cons s ss)
  show ?case
  proof (cases "i \<in> broken")
    case True
    then obtain tt where "ss' = s # tt" and
      t: "broadcast_loop dumps e (Suc i) ss broken err = (tt, broken', err')"
      using Cons.prems by (auto split: prod.splits)
    with Cons.IH [OF t] True show ?thesis by (auto simp: one_step_def)
  next
    case False
    show ?thesis
    proof (cases "sink_emit dumps s e")
      case (Inr s2)
      then obtain tt where "ss' = s2 # tt" and
        t: "broadcast_loop dumps e (Suc i) ss broken err = (tt, broken', err')"
        using Cons.prems False by (auto split: prod.splits)
      with Cons.IH [OF t] False Inr show ?thesis by (auto simp: one_step_def)
    next
      case (Inl x)
      let ?err = "err @ [''[uml] '' @ sink_name s @ '' stopped taking events ('' @ x @ ''); the run carries on'']"
      obtain tt where ss': "ss' = s # tt" and
        t: "broadcast_loop dumps e (Suc i) ss (insert i broken) ?err = (tt, broken', err')"
        using Cons.prems False Inl by (auto split: prod.splits)
      have "flags (Suc i) ss (insert i broken) = flags (Suc i) ss broken"
        by (auto simp: flags_def dest!: set_zip_leftD simp del: upt_Suc)
      with Cons.IH [OF t] ss' False Inl show ?thesis by (auto simp: one_step_def)
    qed
  qed
qed

lemma broadcast_emit_flags:
  "flags 0 (bc_sinks (broadcast_emit dumps e b)) (bc_broken (broadcast_emit dumps e b)) =
     map (one_step dumps e) (flags 0 (bc_sinks b) (bc_broken b))"
  by (cases "broadcast_loop dumps e 0 (bc_sinks b) (bc_broken b) (bc_stderr b)")
    (use broadcast_loop_spec in \<open>fastforce simp: broadcast_emit_def\<close>)

lemma broadcast_fold_flags:
  "flags 0 (bc_sinks (fold (broadcast_emit dumps) es b)) (bc_broken (fold (broadcast_emit dumps) es b)) =
     map (alone dumps es) (flags 0 (bc_sinks b) (bc_broken b))"
  by (induction es arbitrary: b) (simp_all add: broadcast_emit_flags alone_Cons alone_Nil)

lemma alone_emit_all: "emit_all (sink_emit dumps) s es = Inr s' \<Longrightarrow> alone dumps es (s, False) = (s', False)"
  by (induction es arbitrary: s) (auto simp: and_then_Inr split: sum.splits)

lemma emit_all_lift:
  assumes "\<And>s e. sink_emit dumps (C s) e = and_then (em s e) (\<lambda>x. Inr (C x))"
  shows "emit_all (sink_emit dumps) (C s) es = and_then (emit_all em s es) (\<lambda>x. Inr (C x))"
proof (induction es arbitrary: s)
  case (Cons e es)
  then show ?case using assms by (cases "em s e") auto
qed simp

lemma flags_nth: "i < length ss \<Longrightarrow> flags 0 ss broken ! i = (ss ! i, i \<in> broken)"
  by (simp add: flags_def)

lemma length_flags [simp]: "length (flags i ss broken) = length ss"
  by (simp add: flags_def)

lemma broadcast_fold_length [simp]:
  "length (bc_sinks (fold (broadcast_emit dumps) es b)) = length (bc_sinks b)"
  using arg_cong [OF broadcast_fold_flags [of dumps es b], of length] by simp

lemma broadcast_fold_nth:
  assumes "i < length (bc_sinks b)"
  shows "(bc_sinks (fold (broadcast_emit dumps) es b) ! i, i \<in> bc_broken (fold (broadcast_emit dumps) es b)) =
    alone dumps es (bc_sinks b ! i, i \<in> bc_broken b)"
proof -
  have "flags 0 (bc_sinks (fold (broadcast_emit dumps) es b)) (bc_broken (fold (broadcast_emit dumps) es b)) ! i =
     map (alone dumps es) (flags 0 (bc_sinks b) (bc_broken b)) ! i"
    by (simp only: broadcast_fold_flags)
  with assms show ?thesis by (simp add: flags_nth)
qed

text \<open>Collecting only the kinds the document is made of loses nothing.\<close>

lemma junit_filtered:
  "junit (filter (\<lambda>e. ev_kind e = K_PHASE_FINISHED \<or> ev_kind e = K_CASE) es) name = junit es name"
proof -
  have "kept (filter (\<lambda>e. ev_kind e = K_PHASE_FINISHED \<or> ev_kind e = K_CASE) es) = kept es"
    by (induction es) (auto simp: kept_def)
  then show ?thesis by (simp add: junit_def junit_scan_def)
qed

lemma junit_shows_filter:
  "concat (map (junit_shows j) es) = filter (\<lambda>e. ev_kind e = K_PHASE_FINISHED \<or> ev_kind e = K_CASE) es"
  by (induction es) (auto simp: junit_shows_def)

text \<open>A log on a disk with room takes every event.\<close>

lemma log_roomy:
  "tf_open f \<Longrightarrow> tf_room f = None \<Longrightarrow>
     emit_all log_emit f es = Inr (f\<lparr>tf_text := tf_text f @ concat (map (\<lambda>e. render e @ [LF]) es)\<rparr>)"
  by (induction es arbitrary: f) (simp_all add: log_emit_def write_text_def)

end
