(* ===== verification/Cluster.thy ===== *)
theory Cluster
  imports Session
begin

text \<open>
  \<^verbatim>\<open>src/pkgs/uml-runner/uml_runner/cluster.py\<close>: a kubeadm cluster brought up on guests. A coroutine over
  the guests is a function of what was asked of them so far: a \<open>cluster\<close> keeps the calls made, each
  with its guest, and the lines printed; the answer to a call is an arbitrary function, \<open>cw_answer\<close>, of all calls
  up to it. The coroutines of a \<open>gather\<close> send to different guests and are taken one after the other;
  since the answers are arbitrary, another order is another world.
\<close>

section \<open>Calls and their answers\<close>

datatype guest_call = Guest_command string | Journal_tail string nat | Unit_wait string

text \<open>\<open>cl_cidrs\<close> is the variable \<open>cidrs\<close> that \<open>wire_pod_network\<close> shares with its check.\<close>

record cluster =
  cl_calls :: "(string \<times> guest_call) list"
  cl_printed :: "string list"
  cl_cidrs :: "(string, json) dict"

text \<open>
  \<open>ut_checks\<close> are the readings of the clock after each check that came to an end before the deadline;
  after the last of them the deadline fires, at \<open>ut_end\<close>.
\<close>

record until_times =
  ut_started :: seconds
  ut_checks :: "seconds list"
  ut_end :: seconds

record cluster_world =
  cw_answer :: "(string \<times> guest_call) list \<Rightarrow> exn + int \<times> string"
  cw_loads :: "string \<Rightarrow> json option"
  cw_dumps :: "json \<Rightarrow> string"
  cw_times :: "string \<Rightarrow> until_times"

record node =
  nd_name :: string
  nd_ip :: "string option"

type_synonym 'a cluster_op = "cluster \<Rightarrow> (exn + 'a) \<times> cluster"

definition give :: "'a \<Rightarrow> 'a cluster_op" where
  "give x c = (Inr x, c)"

definition give_up :: "exn \<Rightarrow> 'a cluster_op" where
  "give_up e c = (Inl e, c)"

definition and_do :: "'a cluster_op \<Rightarrow> ('a \<Rightarrow> 'b cluster_op) \<Rightarrow> 'b cluster_op" where
  "and_do m f c = (case m c of (Inl e, c1) \<Rightarrow> (Inl e, c1) | (Inr x, c1) \<Rightarrow> f x c1)"

text \<open>\<open>try\<close> with an \<open>except Exception\<close> that raises something else.\<close>

definition or_else :: "'a cluster_op \<Rightarrow> (exn \<Rightarrow> 'a cluster_op) \<Rightarrow> 'a cluster_op" where
  "or_else m f c = (case m c of (Inl e, c1) \<Rightarrow> if is_exception e then f e c1 else (Inl e, c1) | (Inr x, c1) \<Rightarrow> (Inr x, c1))"

definition say :: "string \<Rightarrow> unit cluster_op" where
  "say l c = (Inr (), c\<lparr>cl_printed := cl_printed c @ [l]\<rparr>)"

definition ask_guest :: "cluster_world \<Rightarrow> string \<Rightarrow> guest_call \<Rightarrow> (int \<times> string) cluster_op" where
  "ask_guest w g x c =
     (let c1 = c\<lparr>cl_calls := cl_calls c @ [(g, x)]\<rparr> in (cw_answer w (cl_calls c1), c1))"

fun for_each :: "('a \<Rightarrow> unit cluster_op) \<Rightarrow> 'a list \<Rightarrow> unit cluster_op" where
  "for_each f [] = give ()"
| "for_each f (x # xs) = and_do (f x) (\<lambda>_. for_each f xs)"

text \<open>\<open>asyncio.gather\<close>: every coroutine runs; the first exception is the result.\<close>

fun gather :: "('a \<Rightarrow> unit cluster_op) \<Rightarrow> 'a list \<Rightarrow> unit cluster_op" where
  "gather f [] c = (Inr (), c)"
| "gather f (x # xs) c =
     (case f x c of (r, c1) \<Rightarrow> (case gather f xs c1 of (r', c2) \<Rightarrow> (case r of Inl e \<Rightarrow> Inl e | Inr _ \<Rightarrow> r', c2)))"

definition shell :: "cluster_world \<Rightarrow> node \<Rightarrow> string \<Rightarrow> (int \<times> string) cluster_op" where
  "shell w vm command = ask_guest w (nd_name vm) (Guest_command command)"

text \<open>\<open>Machine.succeed\<close>.\<close>

definition must :: "cluster_world \<Rightarrow> node \<Rightarrow> string \<Rightarrow> string cluster_op" where
  "must w vm command =
     and_do (shell w vm command) (\<lambda>(rc, out).
       if rc = 0 then give out
       else give_up (MachineError (''['' @ nd_name vm @ ''] command failed (exit '' @ show_int rc @ ''): '' @ command @ [LF] @ out)))"

definition journal_tail :: "cluster_world \<Rightarrow> node \<Rightarrow> string \<Rightarrow> nat \<Rightarrow> string cluster_op" where
  "journal_tail w vm unit_name n = and_do (ask_guest w (nd_name vm) (Journal_tail unit_name n)) (\<lambda>(_, out). give out)"

definition unit_wait :: "cluster_world \<Rightarrow> string \<Rightarrow> node \<Rightarrow> unit cluster_op" where
  "unit_wait w unit_name vm = and_do (ask_guest w (nd_name vm) (Unit_wait unit_name)) (\<lambda>_. give ())"

definition kubectl :: "cluster_world \<Rightarrow> node \<Rightarrow> string \<Rightarrow> string cluster_op" where
  "kubectl w cp args = must w cp (''kubectl '' @ args)"

definition get_json :: "cluster_world \<Rightarrow> node \<Rightarrow> string \<Rightarrow> json cluster_op" where
  "get_json w cp args =
     and_do (kubectl w cp (args @ '' --output json'')) (\<lambda>out.
       case cw_loads w out of None \<Rightarrow> give_up (Exn ''JSONDecodeError'' []) | Some v \<Rightarrow> give v)"

section \<open>Evidence\<close>

definition events_command :: string where
  "events_command =
     ''kubectl get events --all-namespaces --sort-by=.lastTimestamp 2>&1 | tail -n 60; echo;'' @
     '' kubectl get pods --all-namespaces --no-headers'' @
     '' --field-selector=status.phase!=Running,status.phase!=Succeeded'' @
     '' --output custom-columns=NS:.metadata.namespace,NAME:.metadata.name 2>/dev/null'' @
     '' | while read -r ns name; do     kubectl describe pod -n $ns $name 2>&1 | tail -n 30;   done''"

definition unscheduled :: "cluster_world \<Rightarrow> node \<Rightarrow> string cluster_op" where
  "unscheduled w vm = and_do (shell w vm events_command) (\<lambda>(_, out). give out)"

definition pod_logs_command :: string where
  "pod_logs_command =
     ''{ for f in /var/log/pods/*/*/*.log; do   case $f in /var/log/pods/kube-system_*) ;;'' @
     ''               *) tail -n 40 -v \"$f\";; esac; done; } 2>&1 | tail -n 300; echo;'' @
     '' tail -n 15 -v /var/log/pods/kube-system_*/*/*.log 2>&1 | tail -n 150''"

definition output_of :: "cluster_world \<Rightarrow> node \<Rightarrow> string \<Rightarrow> string cluster_op" where
  "output_of w vm command = and_do (shell w vm command) (\<lambda>(_, out). give out)"

definition diagnose :: "cluster_world \<Rightarrow> node \<Rightarrow> string cluster_op" where
  "diagnose w vm =
     (let part = (\<lambda>what out. ''--- ['' @ nd_name vm @ ''] '' @ what @ '' ---'' @ [LF] @ out) in
      and_do (output_of w vm pod_logs_command) (\<lambda>logs.
      and_do (output_of w vm ''ip -brief addr; ip route; ip -6 route'') (\<lambda>addrs.
      and_do (unscheduled w vm) (\<lambda>evs.
      and_do (output_of w vm ''crictl ps -a'') (\<lambda>ps.
      and_do (journal_tail w vm ''kubelet.service'' 80) (\<lambda>kubelet.
      and_do (journal_tail w vm ''containerd.service'' 40) (\<lambda>containerd.
        give (part ''addresses and routes'' addrs @ [LF] @ part ''events, and the pods that are not running'' evs @ [LF] @
          part ''crictl ps -a'' ps @ [LF] @ part ''kubelet'' kubelet @ [LF] @ part ''containerd'' containerd @ [LF] @
          part ''pod logs'' logs))))))))"

section \<open>until\<close>

text \<open>
  \<open>_until\<close>: what it remembers from poll to poll is the evidence seen, when that last changed, and when it
  last said so. The calls of a guest raise no \<open>TimeoutError\<close>, so only the deadline does.
\<close>

definition SAY_EVERY :: seconds where "SAY_EVERY = 30"

record until_state =
  us_seen :: "string option"
  us_changed :: seconds
  us_said :: "seconds option"

definition whole :: "seconds \<Rightarrow> string" where
  "whole x = show_int (if x < 0 then \<lceil>x\<rceil> else \<lfloor>x\<rfloor>)"

definition until_line :: "string \<Rightarrow> string \<Rightarrow> seconds \<Rightarrow> seconds \<Rightarrow> seconds \<Rightarrow> seconds \<Rightarrow> string \<Rightarrow> string" where
  "until_line name what started changed deadline now evidence =
     ''['' @ name @ ''] '' @ what @ '': '' @ whole (now - started) @ ''s elapsed, '' @ whole (now - changed) @
     ''s unchanged, '' @ whole (deadline - now) @ ''s left'' @
     (case splitlines (strip evidence) of [] \<Rightarrow> [] | first # _ \<Rightarrow> '' -- '' @ first)"

definition gave_up_text :: "string \<Rightarrow> string \<Rightarrow> seconds \<Rightarrow> seconds \<Rightarrow> seconds \<Rightarrow> string option \<Rightarrow> string \<Rightarrow> string" where
  "gave_up_text name what started changed now seen evidence =
     ''['' @ name @ ''] gave up waiting for '' @ what @ '' after '' @ whole (now - started) @ ''s, the last '' @
     whole (now - changed) @ ''s of it with nothing changing.'' @ [LF] @
     ''Nothing here is slow enough for this to be patience: the images are on the node and the store is the host's. Something is stuck.'' @
     [LF] @ opt_str seen @ [LF] @ evidence"

definition noticed :: "seconds \<Rightarrow> string \<Rightarrow> until_state \<Rightarrow> until_state" where
  "noticed now evidence u = (if us_seen u = Some evidence then u else u\<lparr>us_seen := Some evidence, us_changed := now\<rparr>)"

definition speaks :: "seconds \<Rightarrow> until_state \<Rightarrow> bool" where
  "speaks now u = (case us_said u of None \<Rightarrow> True | Some t \<Rightarrow> now - t \<ge> SAY_EVERY)"

fun until_loop ::
  "string \<Rightarrow> string \<Rightarrow> (bool \<times> string) cluster_op \<Rightarrow> seconds \<Rightarrow> seconds \<Rightarrow> until_state \<Rightarrow> seconds list \<Rightarrow>
     (string + until_state) cluster_op" where
  "until_loop name what check started deadline u [] = give (Inr u)"
| "until_loop name what check started deadline u (now # nows) =
     and_do check (\<lambda>(finished, evidence).
       if finished then give (Inl evidence)
       else (let u1 = noticed now evidence u in
         if speaks now u1
         then and_do (say (until_line name what started (us_changed u1) deadline now evidence))
                (\<lambda>_. until_loop name what check started deadline (u1\<lparr>us_said := Some now\<rparr>) nows)
         else until_loop name what check started deadline u1 nows))"

definition wait_until ::
  "cluster_world \<Rightarrow> string \<Rightarrow> (bool \<times> string) cluster_op \<Rightarrow> seconds \<Rightarrow> node \<Rightarrow> string cluster_op" where
  "wait_until w what check timeout vm =
     (let t = cw_times w what; started = ut_started t in
      and_do (until_loop (nd_name vm) what check started (started + timeout)
                \<lparr>us_seen = None, us_changed = started, us_said = None\<rparr> (ut_checks t)) (\<lambda>r.
        case r of
          Inl evidence \<Rightarrow> give evidence
        | Inr u \<Rightarrow> and_do (diagnose w vm) (\<lambda>d.
            give_up (MachineError (gave_up_text (nd_name vm) what started (us_changed u) (ut_end t) (us_seen u) d)))))"

section \<open>The steps\<close>

definition INIT_TIMEOUT :: seconds where "INIT_TIMEOUT = 5 * 60"
definition JOIN_TIMEOUT :: seconds where "JOIN_TIMEOUT = 5 * 60"
definition READY_TIMEOUT :: seconds where "READY_TIMEOUT = 5 * 60"
definition INIT_LOG :: string where "INIT_LOG = ''/tmp/kubeadm-init.log''"
definition JOIN_LOG :: string where "JOIN_LOG = ''/tmp/kubeadm-join.log''"
definition STORAGE_MANIFEST :: string where "STORAGE_MANIFEST = ''/etc/kubernetes/uml-storage.yaml''"
definition CONTROL_PLANE_TAINT :: string where "CONTROL_PLANE_TAINT = ''node-role.kubernetes.io/control-plane''"
definition KUBE_PROXY :: string where "KUBE_PROXY = ''--selector k8s-app=kube-proxy''"
definition KUBE_DNS :: string where "KUBE_DNS = ''--selector k8s-app=kube-dns''"

text \<open>A command whose output is kept in a file as well.\<close>

definition logged :: "string \<Rightarrow> string \<Rightarrow> string" where
  "logged command lf = command @ '' > '' @ lf @ '' 2>&1; rc=$?; cat '' @ lf @ ''; exit $rc''"

definition last_words_of :: "string \<Rightarrow> string" where
  "last_words_of lf = ''tail -n 60 '' @ lf @ '' 2>&1 || true''"

definition exn_text :: "exn \<Rightarrow> string" where
  "exn_text e = (case e of Exn _ s \<Rightarrow> s | Cancelled \<Rightarrow> [])"

definition quoted :: "string \<Rightarrow> string" where
  "quoted s = [CHR 0x27] @ s @ [CHR 0x27]"

definition INIT_COMMAND :: string where
  "INIT_COMMAND = logged ''kubeadm init --config /etc/kubernetes/kubeadm-config.yaml --v=2'' INIT_LOG"

definition kube_proxy_patch :: json where
  "kube_proxy_patch =
     (let o1 = (\<lambda>k v. JObj [(k, v)]) in
      o1 ''spec'' (o1 ''template'' (o1 ''spec'' (JObj
        [(''containers'', JList [JObj
            [(''name'', JStr ''kube-proxy''),
             (''volumeMounts'', JList [JObj [(''name'', JStr ''nix-store''), (''mountPath'', JStr ''/nix/store''),
                                           (''readOnly'', JBool True)]])]]),
         (''volumes'', JList [JObj [(''name'', JStr ''nix-store''),
             (''hostPath'', JObj [(''path'', JStr ''/nix/store''), (''type'', JStr ''Directory'')])]])]))))"

definition patch_kube_proxy :: "cluster_world \<Rightarrow> node \<Rightarrow> unit cluster_op" where
  "patch_kube_proxy w cp =
     and_do (shell w cp (''kubectl --namespace kube-system patch daemonset kube-proxy --type strategic --patch '' @
         quoted (cw_dumps w kube_proxy_patch))) (\<lambda>(rc, out).
       if rc \<noteq> 0 then give_up (MachineError (''[cp] could not give kube-proxy the store (exit '' @ show_int rc @ ''):'' @ [LF] @ out))
       else say ''[k8s] cp: kube-proxy has the store'')"

text \<open>A command with a deadline of its own: why it did not end, or that it failed, with the evidence.\<close>

definition kubeadm_step :: "cluster_world \<Rightarrow> node \<Rightarrow> string \<Rightarrow> string \<Rightarrow> string \<Rightarrow> string \<Rightarrow> seconds \<Rightarrow> string cluster_op" where
  "kubeadm_step w vm name what command lf timeout =
     and_do (or_else (shell w vm command) (\<lambda>e.
         and_do (must w vm (last_words_of lf)) (\<lambda>words.
         and_do (diagnose w vm) (\<lambda>d.
           give_up (MachineError (''['' @ name @ ''] '' @ what @ '' did not finish in '' @ whole timeout @ ''s: '' @ exn_text e @ [LF] @
             words @ [LF] @ d)))))) (\<lambda>(rc, out).
       if rc \<noteq> 0 then and_do (diagnose w vm) (\<lambda>d.
         give_up (MachineError (''['' @ name @ ''] '' @ what @ '' failed (exit '' @ show_int rc @ ''):'' @ [LF] @ out @ [LF] @ d)))
       else give out)"

definition init_control_plane :: "cluster_world \<Rightarrow> node \<Rightarrow> bool \<Rightarrow> unit cluster_op" where
  "init_control_plane w cp nix_images =
     and_do (say ''[k8s] cp: kubeadm init ...'') (\<lambda>_.
     and_do (kubeadm_step w cp ''cp'' ''kubeadm init'' INIT_COMMAND INIT_LOG INIT_TIMEOUT) (\<lambda>_.
     and_do (if nix_images then patch_kube_proxy w cp else give ()) (\<lambda>_.
       say ''[k8s] cp: control plane is up'')))"

text \<open>The word after a word, \<open>fields[fields.index(k) + 1]\<close>; \<^const>\<open>None\<close> where Python raises.\<close>

fun word_after :: "string \<Rightarrow> string list \<Rightarrow> string option" where
  "word_after k [] = None"
| "word_after k (x # xs) = (if x = k then (case xs of [] \<Rightarrow> None | y # _ \<Rightarrow> Some y) else word_after k xs)"

definition join_words :: "string \<Rightarrow> (string \<times> string) option" where
  "join_words printed =
     (let fs = py_split printed in
      case (word_after ''--token'' fs, word_after ''--discovery-token-ca-cert-hash'' fs) of
        (Some token, Some digest) \<Rightarrow> Some (token, digest)
      | _ \<Rightarrow> None)"

definition join_command :: "node \<Rightarrow> string \<Rightarrow> string \<Rightarrow> string" where
  "join_command cp token digest =
     logged (''uml-k8s-join '' @ opt_str (nd_ip cp) @ '':6443 '' @ token @ '' '' @ digest) JOIN_LOG"

definition join_worker :: "cluster_world \<Rightarrow> string \<Rightarrow> node \<Rightarrow> unit cluster_op" where
  "join_worker w command worker =
     and_do (say (''[k8s] '' @ nd_name worker @ '': kubeadm join ...'')) (\<lambda>_.
     and_do (kubeadm_step w worker (nd_name worker) ''kubeadm join'' command JOIN_LOG JOIN_TIMEOUT) (\<lambda>_.
       say (''[k8s] '' @ nd_name worker @ '': joined'')))"

definition join_workers :: "cluster_world \<Rightarrow> node \<Rightarrow> node list \<Rightarrow> unit cluster_op" where
  "join_workers w cp workers =
     (if workers = [] then give ()
      else and_do (must w cp (''kubeadm token create --print-join-command --config /etc/kubernetes/kubeadm-config.yaml'')) (\<lambda>printed.
        case join_words printed of
          None \<Rightarrow> give_up (MachineError (''[cp] could not read a join command out of:'' @ [LF] @ printed))
        | Some (token, digest) \<Rightarrow> gather (join_worker w (join_command cp token digest)) workers))"

section \<open>The pod network\<close>

text \<open>One item of \<open>kubectl get nodes\<close>: its name and its \<open>podCIDR\<close>, if it has one.\<close>

definition item_cidr :: "json \<Rightarrow> exn + (string \<times> json)" where
  "item_cidr item =
     (case (obj_get item ''metadata'', obj_get item ''spec'') of
        (Some m, Some (JObj sp)) \<Rightarrow>
          (case obj_get m ''name'' of
             Some (JStr n) \<Rightarrow> Inr (n, jget sp ''podCIDR'')
           | _ \<Rightarrow> Inl (Exn ''KeyError'' []))
      | _ \<Rightarrow> Inl (Exn ''KeyError'' []))"

definition items_of :: "json \<Rightarrow> exn + json list" where
  "items_of v = (case obj_get v ''items'' of Some (JList xs) \<Rightarrow> Inr xs | _ \<Rightarrow> Inl (Exn ''KeyError'' []))"

definition dict_of :: "('k \<times> 'v) list \<Rightarrow> ('k, 'v) dict" where
  "dict_of kvs = fold (\<lambda>(k, v). AList.update k v) kvs []"

definition or_word :: "string \<Rightarrow> string" where
  "or_word s = (if s = [] then ''none'' else s)"

definition sorted_names :: "string list \<Rightarrow> string" where
  "sorted_names ns = or_word (join '', '' (sort_by str_le ns))"

definition without_cidr :: "(string, json) dict \<Rightarrow> string list" where
  "without_cidr cidrs = map fst (filter (\<lambda>(n, v). \<not> truthy v) cidrs)"

definition take_cidrs :: "nat \<Rightarrow> json \<Rightarrow> (bool \<times> string) cluster_op" where
  "take_cidrs expected v c =
     (case and_then (items_of v) (map_result item_cidr) of
        Inl e \<Rightarrow> (Inl e, c\<lparr>cl_cidrs := []\<rparr>)
      | Inr kvs \<Rightarrow>
          (let cidrs = dict_of kvs; lacking = without_cidr cidrs in
           (Inr (lacking = [] \<and> length cidrs = expected,
                 ''without a podCIDR: '' @ sorted_names lacking @ ''; nodes: '' @ sorted_names (dict_keys cidrs)),
            c\<lparr>cl_cidrs := cidrs\<rparr>)))"

definition assigned :: "cluster_world \<Rightarrow> node \<Rightarrow> nat \<Rightarrow> (bool \<times> string) cluster_op" where
  "assigned w cp expected = and_do (get_json w cp ''get nodes'') (take_cidrs expected)"

definition route_command :: "string \<Rightarrow> node \<Rightarrow> string" where
  "route_command cidr via = ''ip route replace '' @ cidr @ '' via '' @ opt_str (nd_ip via) @ '' dev vec1''"

definition cni_command :: "string \<Rightarrow> string" where
  "cni_command cidr = ''uml-k8s-cni '' @ cidr"

definition cidr_of :: "(string, json) dict \<Rightarrow> node \<Rightarrow> string cluster_op" where
  "cidr_of cidrs vm =
     (case map_of cidrs (nd_name vm) of None \<Rightarrow> give_up (Exn ''KeyError'' (py_repr (nd_name vm))) | Some v \<Rightarrow> give (py_str v))"

definition route_to :: "cluster_world \<Rightarrow> (string, json) dict \<Rightarrow> node \<Rightarrow> node \<Rightarrow> unit cluster_op" where
  "route_to w cidrs vm via =
     (if nd_name via = nd_name vm then give ()
      else and_do (cidr_of cidrs via) (\<lambda>cidr. and_do (must w vm (route_command cidr via)) (\<lambda>_. give ())))"

definition wire_guest :: "cluster_world \<Rightarrow> (string, json) dict \<Rightarrow> node list \<Rightarrow> node \<Rightarrow> unit cluster_op" where
  "wire_guest w cidrs vms vm =
     and_do (cidr_of cidrs vm) (\<lambda>cidr.
     and_do (must w vm (cni_command cidr)) (\<lambda>_.
       for_each (route_to w cidrs vm) vms))"

definition names_repr :: "string list \<Rightarrow> string" where
  "names_repr ns = json_repr (JList (map JStr (sort_by str_le ns)))"

definition wire_pod_network :: "cluster_world \<Rightarrow> node \<Rightarrow> (string, node) dict \<Rightarrow> unit cluster_op" where
  "wire_pod_network w cp vms c =
     and_do (wait_until w ''every node to be given a podCIDR'' (assigned w cp (length vms)) JOIN_TIMEOUT cp) (\<lambda>_ c1.
       (let cidrs = cl_cidrs c1 in
        and_do (say (''[k8s] pod subnets: '' @ json_repr (JObj cidrs))) (\<lambda>_.
          if set (dict_keys cidrs) \<noteq> set (dict_keys vms)
          then give_up (MachineError (''[cp] the cluster has '' @ names_repr (dict_keys cidrs) @
                 '', the test booted '' @ names_repr (dict_keys vms)))
          else gather (wire_guest w cidrs (map snd vms)) (map snd vms)) c1)) (c\<lparr>cl_cidrs := []\<rparr>)"

section \<open>Waiting for the cluster\<close>

definition ready_lines :: "string \<Rightarrow> string list" where
  "ready_lines out = filter (\<lambda>l. contains '' Ready '' ('' '' @ l @ '' '')) (splitlines out)"

definition nodes_ready :: "cluster_world \<Rightarrow> node \<Rightarrow> nat \<Rightarrow> (bool \<times> string) cluster_op" where
  "nodes_ready w cp expected =
     and_do (kubectl w cp ''get nodes --no-headers'') (\<lambda>out. give (length (ready_lines out) = expected, out))"

definition wait_for_ready_nodes :: "cluster_world \<Rightarrow> node \<Rightarrow> nat \<Rightarrow> unit cluster_op" where
  "wait_for_ready_nodes w cp expected =
     and_do (wait_until w (show_nat expected @ '' Ready nodes'') (nodes_ready w cp expected) READY_TIMEOUT cp) (\<lambda>_.
       say (''[k8s] all '' @ show_nat expected @ '' nodes Ready''))"

text \<open>A pod of \<open>kubectl get pods\<close>: whether it is ready, and its line of the summary; \<^const>\<open>Inl\<close> for a key that is missing.\<close>

fun any_ready :: "json list \<Rightarrow> exn + bool" where
  "any_ready [] = Inr False"
| "any_ready (c # cs) =
     (case obj_get c ''type'' of
        None \<Rightarrow> Inl (Exn ''KeyError'' [])
      | Some t \<Rightarrow>
          if t \<noteq> JStr ''Ready'' then any_ready cs
          else (case obj_get c ''status'' of
              None \<Rightarrow> Inl (Exn ''KeyError'' [])
            | Some st \<Rightarrow> if st = JStr ''True'' then Inr True else any_ready cs))"

definition pod_ready :: "json \<Rightarrow> exn + bool" where
  "pod_ready pod =
     (case obj_get pod ''status'' of
        Some (JObj st) \<Rightarrow>
          (case dict_get st ''conditions'' (JList []) of JList cs \<Rightarrow> any_ready cs | _ \<Rightarrow> Inl (Exn ''TypeError'' []))
      | _ \<Rightarrow> Inl (Exn ''KeyError'' []))"

definition pod_line :: "json \<Rightarrow> exn + string" where
  "pod_line pod =
     (case (obj_get pod ''metadata'', obj_get pod ''status'') of
        (Some m, Some (JObj st)) \<Rightarrow>
          (case obj_get m ''name'' of
             Some n \<Rightarrow> Inr (''    '' @ py_str n @ '': '' @ py_str (jget st ''phase''))
           | None \<Rightarrow> Inl (Exn ''KeyError'' []))
      | _ \<Rightarrow> Inl (Exn ''KeyError'' []))"

definition pods_answer :: "json \<Rightarrow> exn + (bool \<times> string)" where
  "pods_answer v =
     and_then (items_of v) (\<lambda>items.
     and_then (map_result pod_ready items) (\<lambda>rs.
     and_then (map_result pod_line items) (\<lambda>ls.
       Inr (items \<noteq> [] \<and> list_all id rs, join [LF] ls))))"

definition lift_result :: "exn + 'a \<Rightarrow> 'a cluster_op" where
  "lift_result r = (case r of Inl e \<Rightarrow> give_up e | Inr x \<Rightarrow> give x)"

definition wait_for_pods :: "cluster_world \<Rightarrow> node \<Rightarrow> string \<Rightarrow> string \<Rightarrow> unit cluster_op" where
  "wait_for_pods w cp selector namespace =
     and_do (wait_until w (''pods '' @ selector)
         (and_do (get_json w cp (''get pods --namespace '' @ namespace @ '' '' @ selector)) (\<lambda>v. lift_result (pods_answer v)))
         READY_TIMEOUT cp) (\<lambda>_. give ())"

definition resolves :: "cluster_world \<Rightarrow> node \<Rightarrow> string \<Rightarrow> (bool \<times> string) cluster_op" where
  "resolves w vm host =
     and_do (shell w vm (''getent hosts '' @ host)) (\<lambda>(rc, out).
       if rc = 0 then give (True, strip out)
       else and_do (must w vm (''ip -4 -brief addr show vec0 2>/dev/null | tr -s '' @ quoted '' '' @ '' || true'')) (\<lambda>uplink.
         give (False, ''not yet, and vec0 has '' @ (if strip uplink = [] then ''(no IPv4 address)'' else strip uplink))))"

definition wait_for_dns :: "cluster_world \<Rightarrow> node \<Rightarrow> unit cluster_op" where
  "wait_for_dns w vm =
     and_do (wait_until w (nd_name vm @ '' to resolve registry.k8s.io'') (resolves w vm ''registry.k8s.io'') 120 vm) (\<lambda>_. give ())"

definition untaint :: "cluster_world \<Rightarrow> node \<Rightarrow> unit cluster_op" where
  "untaint w cp =
     and_do (kubectl w cp (''taint nodes --all '' @ CONTROL_PLANE_TAINT @ ''-'')) (\<lambda>_.
       say ''[k8s] control plane will schedule workloads'')"

definition offer_storage :: "cluster_world \<Rightarrow> node \<Rightarrow> string \<times> node \<Rightarrow> unit cluster_op" where
  "offer_storage w cp nv =
     and_do (shell w (snd nv) (''test -e '' @ STORAGE_MANIFEST)) (\<lambda>(rc, _).
       if rc \<noteq> 0 then give ()
       else and_do (must w (snd nv) (''cat '' @ STORAGE_MANIFEST)) (\<lambda>manifest.
            and_do (must w cp (''kubectl apply --filename - <<'' @ quoted ''EOF'' @ [LF] @ manifest @ [LF] @ ''EOF'')) (\<lambda>_.
              say (''[k8s] '' @ fst nv @ '' offers storage''))))"

definition provision_storage :: "cluster_world \<Rightarrow> node \<Rightarrow> (string, node) dict \<Rightarrow> unit cluster_op" where
  "provision_storage w cp vms = for_each (offer_storage w cp) vms"

text \<open>\<open>bring_up\<close>.\<close>

record bring_up_args =
  ba_cp_name :: string
  ba_schedulable :: "bool option"
  ba_addons :: "string list"
  ba_nix_images :: bool

definition wait_for_images :: "cluster_world \<Rightarrow> node list \<Rightarrow> unit cluster_op" where
  "wait_for_images w vms = gather (unit_wait w ''k8s-load-images.service'') vms"

definition guests_ready :: "cluster_world \<Rightarrow> bool \<Rightarrow> node list \<Rightarrow> unit cluster_op" where
  "guests_ready w nix_images vms =
     and_do (for_each (unit_wait w ''containerd.service'') vms) (\<lambda>_.
       if nix_images then wait_for_images w vms
       else for_each (wait_for_dns w) vms)"

definition workers_of :: "bring_up_args \<Rightarrow> (string, node) dict \<Rightarrow> node list" where
  "workers_of a vms = map snd (filter (\<lambda>(n, _). n \<noteq> ba_cp_name a) vms)"

definition schedulable_of :: "bring_up_args \<Rightarrow> (string, node) dict \<Rightarrow> bool" where
  "schedulable_of a vms = (case ba_schedulable a of None \<Rightarrow> workers_of a vms = [] | Some b \<Rightarrow> b)"

definition last_steps :: "cluster_world \<Rightarrow> bring_up_args \<Rightarrow> (string, node) dict \<Rightarrow> node \<Rightarrow> node cluster_op" where
  "last_steps w a vms cp =
     and_do (wait_for_ready_nodes w cp (length vms)) (\<lambda>_.
     and_do (provision_storage w cp vms) (\<lambda>_.
     and_do (for_each (\<lambda>sel. wait_for_pods w cp sel ''kube-system'') (ba_addons a)) (\<lambda>_.
     and_do (if schedulable_of a vms then untaint w cp else give ()) (\<lambda>_.
       give cp))))"

definition bring_up :: "cluster_world \<Rightarrow> bring_up_args \<Rightarrow> (string, node) dict \<Rightarrow> node cluster_op" where
  "bring_up w a vms =
     (case map_of vms (ba_cp_name a) of
        None \<Rightarrow> give_up (Exn ''KeyError'' (py_repr (ba_cp_name a)))
      | Some cp \<Rightarrow>
          and_do (guests_ready w (ba_nix_images a) (map snd vms)) (\<lambda>_.
          and_do (init_control_plane w cp (ba_nix_images a)) (\<lambda>_.
          and_do (join_workers w cp (workers_of a vms)) (\<lambda>_.
          and_do (wire_pod_network w cp vms) (\<lambda>_.
            last_steps w a vms cp)))))"

section \<open>What was asked stays asked\<close>

named_theorems grow_intros \<open>operations that only add calls\<close>

definition grows :: "'a cluster_op \<Rightarrow> bool" where
  "grows m \<longleftrightarrow> (\<forall>c. prefix (cl_calls c) (cl_calls (snd (m c))))"

lemma growsD: "grows m \<Longrightarrow> m c = (r, c') \<Longrightarrow> prefix (cl_calls c) (cl_calls c')"
  unfolding grows_def by (metis snd_conv)

lemma grows_basic [grow_intros]: "grows (give x)" "grows (give_up e)" "grows (say l)" "grows (ask_guest w g q)"
  by (simp_all add: grows_def give_def give_up_def say_def ask_guest_def Let_def)

lemma grows_and_do [grow_intros]:
  assumes "grows m" and "\<And>x. grows (f x)"
  shows "grows (and_do m f)"
  unfolding grows_def
proof
  fix c
  obtain r c1 where m: "m c = (r, c1)" by force
  with assms(1) have 1: "prefix (cl_calls c) (cl_calls c1)" by (rule growsD)
  show "prefix (cl_calls c) (cl_calls (snd (and_do m f c)))"
  proof (cases r)
    case (Inr x)
    have "prefix (cl_calls c1) (cl_calls (snd (f x c1)))" using assms(2) by (simp add: grows_def)
    with 1 m Inr show ?thesis by (simp add: and_do_def prefix_order.order_trans [of "cl_calls c" "cl_calls c1"])
  qed (use 1 m in \<open>simp add: and_do_def\<close>)
qed

lemma grows_or_else [grow_intros]:
  assumes "grows m" and "\<And>e. grows (f e)"
  shows "grows (or_else m f)"
  unfolding grows_def
proof
  fix c
  obtain r c1 where m: "m c = (r, c1)" by force
  with assms(1) have 1: "prefix (cl_calls c) (cl_calls c1)" by (rule growsD)
  have "prefix (cl_calls c1) (cl_calls (snd (f e c1)))" for e using assms(2) by (simp add: grows_def)
  with 1 m show "prefix (cl_calls c) (cl_calls (snd (or_else m f c)))"
    by (auto simp: or_else_def split: sum.split intro: prefix_order.order_trans)
qed

lemma grows_for_each [grow_intros]: "(\<And>x. grows (f x)) \<Longrightarrow> grows (for_each f xs)"
  by (induction xs) (auto intro!: grow_intros)

lemma grows_gather [grow_intros]:
  assumes f: "\<And>x. grows (f x)"
  shows "grows (gather f xs)"
proof (induction xs)
  case Nil
  show ?case by (simp add: grows_def)
next
  case (Cons x xs)
  have "prefix (cl_calls c) (cl_calls (snd (gather f (x # xs) c)))" for c
  proof -
    obtain r c1 where 1: "f x c = (r, c1)" by force
    obtain r' c2 where 2: "gather f xs c1 = (r', c2)" by force
    from growsD [OF f 1] growsD [OF Cons 2] have "prefix (cl_calls c) (cl_calls c2)" by (rule prefix_order.order_trans)
    with 1 2 show ?thesis by simp
  qed
  then show ?case by (simp add: grows_def)
qed

lemma grows_commands [grow_intros]:
  "grows (shell w vm q)" "grows (must w vm q)" "grows (kubectl w vm q)" "grows (journal_tail w vm u n)"
  "grows (unit_wait w u vm)" "grows (get_json w vm q)" "grows (output_of w vm q)" "grows (unscheduled w vm)"
  "grows (diagnose w vm)" "grows (patch_kube_proxy w vm)"
  by (auto simp: shell_def must_def kubectl_def journal_tail_def unit_wait_def get_json_def output_of_def
      unscheduled_def diagnose_def patch_kube_proxy_def Let_def intro!: grow_intros split: prod.split option.split)

lemma grows_until_loop [grow_intros]: "grows check \<Longrightarrow> grows (until_loop name what check started deadline u nows)"
  by (induction name what check started deadline u nows rule: until_loop.induct)
    (auto simp: Let_def intro!: grow_intros)

lemma grows_waits [grow_intros]: "grows check \<Longrightarrow> grows (wait_until w what check timeout vm)"
  by (auto simp: wait_until_def Let_def intro!: grow_intros split: sum.split)

lemma grows_steps [grow_intros]:
  "grows (kubeadm_step w vm name what q lf timeout)" "grows (cidr_of cidrs vm)" "grows (lift_result r)"
  by (auto simp: kubeadm_step_def cidr_of_def lift_result_def intro!: grow_intros split: option.split sum.split)

lemma grows_parts [grow_intros]:
  "grows (join_worker w q vm)" "grows (route_to w cidrs vm via)" "grows (resolves w vm host)"
  "grows (init_control_plane w vm b)" "grows (untaint w vm)" "grows (nodes_ready w vm n)"
  by (auto simp: join_worker_def route_to_def resolves_def init_control_plane_def untaint_def
      nodes_ready_def intro!: grow_intros)

lemma grows_larger [grow_intros]:
  "grows (wire_guest w cidrs vms vm)" "grows (wait_for_dns w vm)" "grows (wait_for_pods w vm sel ns)"
  "grows (wait_for_ready_nodes w vm n)" "grows (offer_storage w vm nv)"
  by (auto simp: wire_guest_def wait_for_dns_def wait_for_pods_def wait_for_ready_nodes_def offer_storage_def
      intro!: grow_intros split: option.split)

lemma grows_join_workers [grow_intros]: "grows (join_workers w cp workers)"
  by (auto simp: join_workers_def intro!: grow_intros split: option.split)

lemma grows_assigned [grow_intros]: "grows (assigned w cp n)"
proof -
  have "grows (take_cidrs n v)" for v by (auto simp: grows_def take_cidrs_def Let_def split: sum.split)
  then show ?thesis unfolding assigned_def by (intro grow_intros)
qed

section \<open>What a bring-up that returns has done\<close>

text \<open>A command was run on a guest and ended with 0.\<close>

definition did :: "cluster_world \<Rightarrow> cluster \<Rightarrow> string \<Rightarrow> string \<Rightarrow> bool" where
  "did w c g q \<longleftrightarrow>
     (\<exists>n out. n < length (cl_calls c) \<and> cl_calls c ! n = (g, Guest_command q) \<and>
        cw_answer w (take (Suc n) (cl_calls c)) = Inr (0, out))"

lemma did_stable:
  assumes "did w c g q" and "prefix (cl_calls c) (cl_calls c')"
  shows "did w c' g q"
proof -
  from assms(2) obtain more' where m: "cl_calls c' = cl_calls c @ more'" by (auto simp: prefix_def)
  from assms(1) obtain n out where n: "n < length (cl_calls c)" "cl_calls c ! n = (g, Guest_command q)"
    "cw_answer w (take (Suc n) (cl_calls c)) = Inr (0, out)" by (auto simp: did_def)
  have "take (Suc n) (cl_calls c') = take (Suc n) (cl_calls c)" "cl_calls c' ! n = cl_calls c ! n"
    using n(1) m by (simp_all add: nth_append)
  with n m show ?thesis unfolding did_def by (metis length_append trans_less_add1)
qed

lemma did_later: "did w c g q \<Longrightarrow> grows m \<Longrightarrow> m c = (r, c') \<Longrightarrow> did w c' g q"
  using did_stable growsD by blast

lemma and_do_Inr: "and_do m f c = (Inr y, c') \<longleftrightarrow> (\<exists>x c1. m c = (Inr x, c1) \<and> f x c1 = (Inr y, c'))"
  by (auto simp: and_do_def split: prod.split sum.split)

lemma give_Inr [simp]: "give x c = (Inr y, c') \<longleftrightarrow> y = x \<and> c' = c"
  by (auto simp: give_def)

lemma give_up_Inr [simp]: "give_up e c \<noteq> (Inr y, c')"
  by (simp add: give_up_def)

lemma shell_did: "shell w vm q c = (Inr (0, out), c') \<Longrightarrow> did w c' (nd_name vm) q"
  unfolding did_def shell_def ask_guest_def Let_def
  by (intro exI [of _ "length (cl_calls c)"] exI [of _ out]) auto

lemma must_did: "must w vm q c = (Inr out, c') \<Longrightarrow> did w c' (nd_name vm) q"
  by (auto simp: must_def and_do_Inr split: if_splits intro: shell_did)

lemma for_each_done:
  assumes "for_each f xs c = (Inr (), c')" and "\<And>x. grows (f x)"
    and "\<And>x c c1. x \<in> set xs \<Longrightarrow> f x c = (Inr (), c1) \<Longrightarrow> Q x c1"
    and "\<And>x c c1. Q x c \<Longrightarrow> prefix (cl_calls c) (cl_calls c1) \<Longrightarrow> Q x c1"
  shows "\<forall>x\<in>set xs. Q x c'"
  using assms(1,3)
proof (induction xs arbitrary: c)
  case (Cons x xs)
  then obtain c1 where 1: "f x c = (Inr (), c1)" "for_each f xs c1 = (Inr (), c')" by (auto simp: and_do_Inr)
  have "prefix (cl_calls c1) (cl_calls c')" using 1(2) by (rule growsD [rotated]) (intro grow_intros assms(2))
  with 1(1) Cons.prems(2) assms(4) have "Q x c'" by (meson list.set_intros(1))
  moreover have "\<forall>y\<in>set xs. Q y c'" using 1(2) Cons.prems(2) by (intro Cons.IH) auto
  ultimately show ?case by simp
qed simp

lemma gather_done:
  assumes "gather f xs c = (Inr (), c')" and "\<And>x. grows (f x)"
    and "\<And>x c c1. x \<in> set xs \<Longrightarrow> f x c = (Inr (), c1) \<Longrightarrow> Q x c1"
    and "\<And>x c c1. Q x c \<Longrightarrow> prefix (cl_calls c) (cl_calls c1) \<Longrightarrow> Q x c1"
  shows "\<forall>x\<in>set xs. Q x c'"
  using assms(1,3)
proof (induction xs arbitrary: c)
  case (Cons x xs)
  then obtain c1 where 1: "f x c = (Inr (), c1)" "gather f xs c1 = (Inr (), c')"
    by (auto split: prod.splits sum.splits)
  have "prefix (cl_calls c1) (cl_calls c')" using 1(2) by (rule growsD [rotated]) (intro grow_intros assms(2))
  with 1(1) Cons.prems(2) assms(4) have "Q x c'" by (meson list.set_intros(1))
  moreover have "\<forall>y\<in>set xs. Q y c'" using 1(2) Cons.prems(2) by (intro Cons.IH) auto
  ultimately show ?case by simp
qed simp

lemma or_else_raises:
  assumes "or_else m h c = (Inr x, c1)" and "\<And>e c2. h e c2 \<noteq> (Inr x, c1)"
  shows "m c = (Inr x, c1)"
  using assms by (auto simp: or_else_def split: prod.splits sum.splits if_splits)

lemma kubeadm_step_did:
  assumes "kubeadm_step w vm name what q lf timeout c = (Inr out, c')"
  shows "did w c' (nd_name vm) q"
proof -
  obtain rc out1 h c1 where o: "or_else (shell w vm q) h c = (Inr (rc, out1), c1)" and h: "\<And>e c2. h e c2 \<noteq> (Inr (rc, out1), c1)"
    and r: "(if rc \<noteq> 0 then and_do (diagnose w vm) (\<lambda>d.
         give_up (MachineError (''['' @ name @ ''] '' @ what @ '' failed (exit '' @ show_int rc @ ''):'' @ [LF] @ out1 @ [LF] @ d)))
       else give out1) c1 = (Inr out, c')"
    using assms unfolding kubeadm_step_def and_do_Inr
    by (elim exE conjE) (force simp: and_do_Inr split: prod.splits)
  from r have "rc = 0" "c1 = c'" by (auto simp: and_do_Inr split: if_splits)
  with or_else_raises [OF o h] show ?thesis by (auto intro: shell_did)
qed

lemma join_worker_did:
  assumes "join_worker w q vm c = (Inr (), c')"
  shows "did w c' (nd_name vm) q"
proof -
  obtain out c1 c2 where "kubeadm_step w vm (nd_name vm) ''kubeadm join'' q JOIN_LOG JOIN_TIMEOUT c1 = (Inr out, c2)"
    and s: "say (''[k8s] '' @ nd_name vm @ '': joined'') c2 = (Inr (), c')"
    using assms unfolding join_worker_def and_do_Inr by blast
  then have "did w c2 (nd_name vm) q" by (intro kubeadm_step_did)
  then show ?thesis using grows_basic(3) s by (rule did_later)
qed

lemma init_did: "init_control_plane w cp b c = (Inr (), c') \<Longrightarrow> did w c' (nd_name cp) INIT_COMMAND"
proof -
  assume "init_control_plane w cp b c = (Inr (), c')"
  then obtain out c1 c2 where s: "kubeadm_step w cp ''cp'' ''kubeadm init'' INIT_COMMAND INIT_LOG INIT_TIMEOUT c1 = (Inr out, c2)"
    and r: "and_do (if b then patch_kube_proxy w cp else give ()) (\<lambda>_. say ''[k8s] cp: control plane is up'') c2 = (Inr (), c')"
    by (auto simp: init_control_plane_def and_do_Inr)
  show ?thesis using kubeadm_step_did [OF s] _ r by (rule did_later) (auto intro!: grow_intros)
qed

lemma route_did:
  "route_to w cidrs vm via c = (Inr (), c') \<Longrightarrow> nd_name via \<noteq> nd_name vm \<Longrightarrow>
     \<exists>v. map_of cidrs (nd_name via) = Some v \<and> did w c' (nd_name vm) (route_command (py_str v) via)"
  by (auto simp: route_to_def and_do_Inr cidr_of_def split: option.splits intro: must_did)

definition wired :: "cluster_world \<Rightarrow> (string, json) dict \<Rightarrow> node list \<Rightarrow> node \<Rightarrow> cluster \<Rightarrow> bool" where
  "wired w cidrs vms vm c \<longleftrightarrow>
     (\<exists>v. map_of cidrs (nd_name vm) = Some v \<and> did w c (nd_name vm) (cni_command (py_str v))) \<and>
     (\<forall>via\<in>set vms. nd_name via \<noteq> nd_name vm \<longrightarrow>
        (\<exists>v. map_of cidrs (nd_name via) = Some v \<and> did w c (nd_name vm) (route_command (py_str v) via)))"

lemma wired_stable: "wired w cidrs vms vm c \<Longrightarrow> prefix (cl_calls c) (cl_calls c') \<Longrightarrow> wired w cidrs vms vm c'"
  unfolding wired_def using did_stable by blast

lemma wire_guest_wired:
  assumes "wire_guest w cidrs vms vm c = (Inr (), c')"
  shows "wired w cidrs vms vm c'"
proof -
  obtain v c1 c2 out where v: "map_of cidrs (nd_name vm) = Some v" and m: "must w vm (cni_command (py_str v)) c1 = (Inr out, c2)"
    and f: "for_each (route_to w cidrs vm) vms c2 = (Inr (), c')"
    using assms by (auto simp: wire_guest_def and_do_Inr cidr_of_def split: option.splits)
  have "did w c' (nd_name vm) (cni_command (py_str v))"
    using must_did [OF m] grows_for_each f by (rule did_later) (intro grow_intros)
  moreover have "\<forall>via\<in>set vms. nd_name via \<noteq> nd_name vm \<longrightarrow>
      (\<exists>v. map_of cidrs (nd_name via) = Some v \<and> did w c' (nd_name vm) (route_command (py_str v) via))"
    by (rule for_each_done [OF f]) (use route_did did_stable in \<open>blast intro: grow_intros\<close>)+
  ultimately show ?thesis using v by (auto simp: wired_def)
qed

text \<open>A wait that returns has seen its check say yes, and asked nothing since.\<close>

lemma until_loop_returns:
  "until_loop name what check started deadline u nows c = (Inr (Inl evidence), c') \<Longrightarrow> \<exists>c1. check c1 = (Inr (True, evidence), c')"
proof (induction nows arbitrary: u c)
  case (Cons now nows)
  then obtain fin ev c1 where ch: "check c = (Inr (fin, ev), c1)" by (auto simp: and_do_Inr)
  show ?case
  proof (cases fin)
    case True
    with Cons.prems ch show ?thesis by (auto simp: and_do_def)
  next
    case False
    then obtain u2 c2 where "until_loop name what check started deadline u2 nows c2 = (Inr (Inl evidence), c')"
      using Cons.prems ch by (auto simp: and_do_def Let_def say_def split: if_splits)
    then show ?thesis by (rule Cons.IH)
  qed
qed simp

lemma wait_until_returns:
  assumes "wait_until w what check timeout vm c = (Inr evidence, c')"
  shows "\<exists>c1. check c1 = (Inr (True, evidence), c')"
proof -
  obtain r c1 name started deadline u nows where u: "until_loop name what check started deadline u nows c = (Inr r, c1)"
    and r: "(case r of Inl evidence \<Rightarrow> give evidence
        | Inr u \<Rightarrow> and_do (diagnose w vm) (\<lambda>d.
            give_up (MachineError (gave_up_text (nd_name vm) what (ut_started (cw_times w what)) (us_changed u)
              (ut_end (cw_times w what)) (us_seen u) d)))) c1 = (Inr evidence, c')"
    using assms unfolding wait_until_def Let_def and_do_Inr by blast
  from r have "r = Inl evidence" "c1 = c'" by (auto simp: and_do_Inr split: sum.splits)
  with u show ?thesis by (auto intro: until_loop_returns)
qed

lemma assigned_yes:
  assumes "assigned w cp n c = (Inr (True, evidence), c')"
  shows "(\<forall>v\<in>snd ` set (cl_cidrs c'). truthy v) \<and> length (cl_cidrs c') = n"
proof -
  obtain v c1 kvs where "and_then (items_of v) (map_result item_cidr) = Inr kvs"
    and "without_cidr (dict_of kvs) = []" "length (dict_of kvs) = n" "c' = c1\<lparr>cl_cidrs := dict_of kvs\<rparr>"
    using assms unfolding assigned_def take_cidrs_def and_do_Inr Let_def by (elim exE conjE) (force split: sum.splits)
  then show ?thesis by (auto simp: without_cidr_def filter_empty_conv)
qed

definition subnets_for :: "(string, json) dict \<Rightarrow> (string, node) dict \<Rightarrow> bool" where
  "subnets_for cidrs vms \<longleftrightarrow>
     set (dict_keys cidrs) = set (dict_keys vms) \<and> length cidrs = length vms \<and> (\<forall>v\<in>snd ` set cidrs. truthy v)"

lemma grows_wire_pod_network [grow_intros]: "grows (wire_pod_network w cp vms)"
proof -
  define cont :: "string \<Rightarrow> unit cluster_op" where "cont = (\<lambda>_ c1.
       (let cidrs = cl_cidrs c1 in
        and_do (say (''[k8s] pod subnets: '' @ json_repr (JObj cidrs))) (\<lambda>_.
          if set (dict_keys cidrs) \<noteq> set (dict_keys vms)
          then give_up (MachineError (''[cp] the cluster has '' @ names_repr (dict_keys cidrs) @
                 '', the test booted '' @ names_repr (dict_keys vms)))
          else gather (wire_guest w cidrs (map snd vms)) (map snd vms)) c1))"
  have "grows (and_do (say l) (\<lambda>_. if b then give_up e else gather (wire_guest w cidrs xs) xs))" for l b e cidrs xs
    by (cases b) (auto intro!: grow_intros)
  then have "grows (cont ev)" for ev unfolding cont_def Let_def grows_def by blast
  then have "grows (and_do (wait_until w ''every node to be given a podCIDR'' (assigned w cp (length vms)) JOIN_TIMEOUT cp) cont)"
    by (intro grow_intros)
  then show ?thesis unfolding grows_def wire_pod_network_def cont_def [symmetric]
    by (auto dest: spec [where x = "_\<lparr>cl_cidrs := []\<rparr>"])
qed

lemma pod_network_wired:
  assumes "wire_pod_network w cp vms c = (Inr (), c')"
  shows "\<exists>cidrs. subnets_for cidrs vms \<and> (\<forall>vm\<in>set (map snd vms). wired w cidrs (map snd vms) vm c')"
proof -
  obtain ev c1 c2 where u: "wait_until w ''every node to be given a podCIDR'' (assigned w cp (length vms)) JOIN_TIMEOUT cp
        (c\<lparr>cl_cidrs := []\<rparr>) = (Inr ev, c1)"
    and k: "set (dict_keys (cl_cidrs c1)) = set (dict_keys vms)"
    and g: "gather (wire_guest w (cl_cidrs c1) (map snd vms)) (map snd vms) c2 = (Inr (), c')"
    using assms unfolding wire_pod_network_def Let_def and_do_Inr by (auto simp: and_do_Inr split: if_splits)
  from wait_until_returns [OF u] have "(\<forall>v\<in>snd ` set (cl_cidrs c1). truthy v) \<and> length (cl_cidrs c1) = length vms"
    using assigned_yes by blast
  then have "subnets_for (cl_cidrs c1) vms"
    using k by (auto simp: subnets_for_def)
  moreover have "\<forall>vm\<in>set (map snd vms). wired w (cl_cidrs c1) (map snd vms) vm c'"
    by (rule gather_done [OF g]) (use wire_guest_wired wired_stable in \<open>blast intro: grow_intros\<close>)+
  ultimately show ?thesis by blast
qed

lemma join_workers_did:
  assumes "join_workers w cp workers c = (Inr (), c')"
  shows "\<exists>token digest. \<forall>vm\<in>set workers. did w c' (nd_name vm) (join_command cp token digest)"
proof (cases "workers = []")
  case False
  then obtain printed c1 token digest where "gather (join_worker w (join_command cp token digest)) workers c1 = (Inr (), c')"
    using assms unfolding join_workers_def by (force simp: and_do_Inr split: option.splits prod.splits)
  then have "\<forall>vm\<in>set workers. did w c' (nd_name vm) (join_command cp token digest)"
    by (rule gather_done) (use join_worker_did did_stable in \<open>blast intro: grow_intros\<close>)+
  then show ?thesis by blast
qed simp

definition UNTAINT_COMMAND :: string where
  "UNTAINT_COMMAND = ''kubectl '' @ ''taint nodes --all '' @ CONTROL_PLANE_TAINT @ ''-''"

lemma untaint_did:
  assumes "untaint w cp c = (Inr (), c')"
  shows "did w c' (nd_name cp) UNTAINT_COMMAND"
proof -
  obtain out c1 where m: "must w cp UNTAINT_COMMAND c = (Inr out, c1)"
    and s: "say ''[k8s] control plane will schedule workloads'' c1 = (Inr (), c')"
    using assms unfolding untaint_def kubectl_def UNTAINT_COMMAND_def and_do_Inr by blast
  show ?thesis using must_did [OF m] grows_basic(3) s by (rule did_later)
qed

lemma wired_later: "wired w cidrs vms vm c \<Longrightarrow> grows m \<Longrightarrow> m c = (r, c') \<Longrightarrow> wired w cidrs vms vm c'"
  using wired_stable growsD by blast

lemma bring_up_parts:
  assumes "bring_up w a vms c0 = (Inr cp, c)"
  obtains c1 c2 c3 c4 where
    "map_of vms (ba_cp_name a) = Some cp"
    "init_control_plane w cp (ba_nix_images a) c1 = (Inr (), c2)"
    "join_workers w cp (workers_of a vms) c2 = (Inr (), c3)"
    "wire_pod_network w cp vms c3 = (Inr (), c4)"
    "last_steps w a vms cp c4 = (Inr cp, c)"
proof -
  obtain cp' where m: "map_of vms (ba_cp_name a) = Some cp'" using assms by (auto simp: bring_up_def split: option.splits)
  from assms obtain c1 c2 c3 c4 where p: "init_control_plane w cp' (ba_nix_images a) c1 = (Inr (), c2)"
    "join_workers w cp' (workers_of a vms) c2 = (Inr (), c3)"
    "wire_pod_network w cp' vms c3 = (Inr (), c4)"
    "last_steps w a vms cp' c4 = (Inr cp, c)" by (auto simp: bring_up_def m and_do_Inr)
  then have "cp' = cp" unfolding last_steps_def and_do_Inr give_Inr by blast
  with m p that show thesis by blast
qed

lemma grows_last_steps [grow_intros]: "grows (last_steps w a vms cp)"
  by (auto simp: last_steps_def provision_storage_def intro!: grow_intros)

lemma last_steps_untaint:
  assumes "last_steps w a vms cp c = (Inr cp, c')" and "schedulable_of a vms"
  shows "did w c' (nd_name cp) UNTAINT_COMMAND"
  using assms unfolding last_steps_def and_do_Inr by (auto intro: untaint_did)

text \<open>
  C10: What a bring-up that returns has done, every command of it with exit code 0. It returns the machine the
  caller named; \<open>kubeadm init\<close> ran there; with one token and one digest every other guest joined it;
  and there is one table of subnets, with the names of the guests and no other name and no subnet empty, by which every guest
  was given its own CNI configuration and a route to the subnet of every guest with another name; where the control
  plane takes workloads its taint was removed.
\<close>

theorem bring_up_did:
  assumes "bring_up w a vms c0 = (Inr cp, c)"
  shows "map_of vms (ba_cp_name a) = Some cp \<and> did w c (nd_name cp) INIT_COMMAND \<and>
    (\<exists>token digest. \<forall>vm\<in>set (workers_of a vms). did w c (nd_name vm) (join_command cp token digest)) \<and>
    (\<exists>cidrs. subnets_for cidrs vms \<and> (\<forall>vm\<in>set (map snd vms). wired w cidrs (map snd vms) vm c)) \<and>
    (schedulable_of a vms \<longrightarrow> did w c (nd_name cp) UNTAINT_COMMAND)"
proof -
  from assms obtain c1 c2 c3 c4 where m: "map_of vms (ba_cp_name a) = Some cp"
    and i: "init_control_plane w cp (ba_nix_images a) c1 = (Inr (), c2)"
    and j: "join_workers w cp (workers_of a vms) c2 = (Inr (), c3)"
    and p: "wire_pod_network w cp vms c3 = (Inr (), c4)"
    and l: "last_steps w a vms cp c4 = (Inr cp, c)" by (rule bring_up_parts)
  have from3: "did w c g q" if "did w c3 g q" for g q
    using that p l by (meson did_later grows_last_steps grows_wire_pod_network)
  have "did w c (nd_name cp) INIT_COMMAND"
    using init_did [OF i] grows_join_workers j by (intro from3) (rule did_later)
  moreover have "\<exists>token digest. \<forall>vm\<in>set (workers_of a vms). did w c (nd_name vm) (join_command cp token digest)"
    using join_workers_did [OF j] from3 by blast
  moreover have "\<exists>cidrs. subnets_for cidrs vms \<and> (\<forall>vm\<in>set (map snd vms). wired w cidrs (map snd vms) vm c)"
    using pod_network_wired [OF p] wired_later [OF _ grows_last_steps l] by blast
  ultimately show ?thesis using m last_steps_untaint [OF l] by blast
qed

section \<open>A bring-up of two guests\<close>

text \<open>Two guests that answer every call alike.\<close>

definition demo_nodes :: "(string, node) dict" where
  "demo_nodes = [(''cp'', \<lparr>nd_name = ''cp'', nd_ip = Some ''10.0.0.1''\<rparr>), (''w1'', \<lparr>nd_name = ''w1'', nd_ip = Some ''10.0.0.2''\<rparr>)]"

definition demo_item :: "string \<Rightarrow> string \<Rightarrow> json" where
  "demo_item n cidr = JObj [(''metadata'', JObj [(''name'', JStr n)]), (''spec'', JObj [(''podCIDR'', JStr cidr)])]"

definition demo_out :: string where
  "demo_out = ''cp Ready --token t --discovery-token-ca-cert-hash d'' @ [LF] @ ''w1 Ready -''"

definition demo_cluster_world :: cluster_world where
  "demo_cluster_world =
     \<lparr>cw_answer = \<lambda>_. Inr (0, demo_out),
      cw_loads = \<lambda>_. Some (JObj [(''items'', JList [demo_item ''cp'' ''a'', demo_item ''w1'' ''b''])]),
      cw_dumps = \<lambda>_. [], cw_times = \<lambda>_. \<lparr>ut_started = 0, ut_checks = [1], ut_end = 2\<rparr>\<rparr>"

definition demo_args :: bring_up_args where
  "demo_args = \<lparr>ba_cp_name = ''cp'', ba_schedulable = Some True, ba_addons = [], ba_nix_images = True\<rparr>"

definition no_calls :: cluster where
  "no_calls = \<lparr>cl_calls = [], cl_printed = [], cl_cidrs = []\<rparr>"

definition returns :: "'a cluster_op \<Rightarrow> 'a \<Rightarrow> bool" where
  "returns m x \<longleftrightarrow> (\<forall>c. \<exists>c'. m c = (Inr x, c'))"

lemma returns_basic:
  "returns (give x) x" "returns (say l) ()" "returns (shell demo_cluster_world vm q) (0, demo_out)"
  "returns (unit_wait demo_cluster_world u vm) ()"
  by (simp_all add: returns_def give_def say_def shell_def ask_guest_def unit_wait_def and_do_def Let_def demo_cluster_world_def)

lemma and_do_run: "m c = (Inr x, c1) \<Longrightarrow> and_do m f c = f x c1"
  by (simp add: and_do_def)

lemma returns_and_do: "returns m x \<Longrightarrow> returns (f x) y \<Longrightarrow> returns (and_do m f) y"
  unfolding returns_def by (metis and_do_run)

lemma returns_all:
  assumes "\<forall>x\<in>set xs. returns (f x) ()"
  shows "returns (for_each f xs) ()" and "returns (gather f xs) ()"
proof -
  show "returns (for_each f xs) ()" using assms
    by (induction xs) (auto intro: returns_and_do returns_basic)
  show "returns (gather f xs) ()" using assms
  proof (induction xs)
    case (Cons x xs)
    then have 1: "returns (f x) ()" "returns (gather f xs) ()" by auto
    have "\<exists>c'. gather f (x # xs) c = (Inr (), c')" for c
    proof -
      obtain c1 c2 where "f x c = (Inr (), c1)" "gather f xs c1 = (Inr (), c2)" using 1 unfolding returns_def by meson
      then show ?thesis by simp
    qed
    then show ?case by (simp add: returns_def)
  qed (simp add: returns_def)
qed

lemma returns_must: "returns (must demo_cluster_world vm q) demo_out"
  unfolding must_def by (rule returns_and_do [OF returns_basic(3)]) (simp add: returns_basic)

lemma returns_wait:
  assumes "returns check (True, ev)"
  shows "returns (wait_until demo_cluster_world what check timeout vm) ev"
  unfolding returns_def
proof
  fix c
  obtain c1 where "check c = (Inr (True, ev), c1)" using assms unfolding returns_def by meson
  then show "\<exists>c'. wait_until demo_cluster_world what check timeout vm c = (Inr ev, c')"
    by (simp add: wait_until_def demo_cluster_world_def and_do_def Let_def give_def)
qed

lemma returns_kubeadm_step: "returns (kubeadm_step demo_cluster_world vm name what q lf timeout) demo_out"
proof -
  have "\<exists>c'. or_else (shell demo_cluster_world vm q) h c = (Inr (0, demo_out), c')" for h c
  proof -
    obtain c1 where "shell demo_cluster_world vm q c = (Inr (0, demo_out), c1)" using returns_basic(3) unfolding returns_def by meson
    then show ?thesis by (simp add: or_else_def)
  qed
  then have "returns (or_else (shell demo_cluster_world vm q) h) (0, demo_out)" for h by (simp add: returns_def)
  then show ?thesis unfolding kubeadm_step_def by (rule returns_and_do) (simp add: returns_basic)
qed

lemma returns_init: "returns (init_control_plane demo_cluster_world cp True) ()"
proof -
  have "returns (patch_kube_proxy demo_cluster_world cp) ()" unfolding patch_kube_proxy_def
    by (rule returns_and_do [OF returns_basic(3)]) (simp add: returns_basic)
  then show ?thesis unfolding init_control_plane_def
    by (auto intro!: returns_and_do [OF returns_basic(2)] returns_and_do [OF returns_kubeadm_step] intro: returns_and_do returns_basic)
qed

lemma demo_join_words: "join_words demo_out = Some (''t'', ''d'')"
  by code_simp

lemma returns_join: "returns (join_workers demo_cluster_world cp vms) ()"
proof -
  have "returns (join_worker demo_cluster_world q vm) ()" for q vm unfolding join_worker_def
    by (intro returns_and_do [OF returns_basic(2)] returns_and_do [OF returns_kubeadm_step] returns_basic)
  then have "returns (gather (join_worker demo_cluster_world q) vms) ()" for q by (intro returns_all(2)) simp
  then show ?thesis unfolding join_workers_def
    by (auto simp: demo_join_words returns_basic intro!: returns_and_do [OF returns_must])
qed

definition demo_cidrs :: "(string, json) dict" where
  "demo_cidrs = [(''cp'', JStr ''a''), (''w1'', JStr ''b'')]"

lemma demo_items:
  "and_then (items_of (JObj [(''items'', JList [demo_item ''cp'' ''a'', demo_item ''w1'' ''b''])])) (map_result item_cidr) = Inr demo_cidrs"
  "dict_of demo_cidrs = demo_cidrs" "without_cidr demo_cidrs = []"
  by code_simp+

lemma demo_assigned: "\<exists>ev c'. assigned demo_cluster_world cp 2 c = (Inr (True, ev), c') \<and> cl_cidrs c' = demo_cidrs"
proof -
  obtain c1 where "kubectl demo_cluster_world cp (''get nodes'' @ '' --output json'') c = (Inr demo_out, c1)"
    using returns_must unfolding returns_def kubectl_def by meson
  then have "get_json demo_cluster_world cp ''get nodes'' c =
      (Inr (JObj [(''items'', JList [demo_item ''cp'' ''a'', demo_item ''w1'' ''b''])]), c1)"
    by (simp add: get_json_def and_do_def demo_cluster_world_def give_def)
  then show ?thesis by (simp add: assigned_def take_cidrs_def and_do_def demo_items Let_def) (simp add: demo_cidrs_def)
qed

lemma returns_wire: "returns (wire_pod_network demo_cluster_world cp demo_nodes) ()"
proof -
  have route: "returns (route_to demo_cluster_world demo_cidrs vm via) ()" if "via \<in> snd ` set demo_nodes" for vm via
  proof -
    from that obtain cidr where "cidr_of demo_cidrs via = give cidr"
      by (auto simp: demo_nodes_def cidr_of_def demo_cidrs_def)
    then show ?thesis by (auto simp: route_to_def intro!: returns_and_do [OF returns_must] returns_and_do [OF returns_basic(1)] returns_basic)
  qed
  have guest: "returns (wire_guest demo_cluster_world demo_cidrs (map snd demo_nodes) vm) ()" if "vm \<in> snd ` set demo_nodes" for vm
  proof -
    from that obtain cidr where "cidr_of demo_cidrs vm = give cidr"
      by (auto simp: demo_nodes_def cidr_of_def demo_cidrs_def)
    moreover have "returns (for_each (route_to demo_cluster_world demo_cidrs vm) (map snd demo_nodes)) ()"
      using route by (intro returns_all(1)) simp
    ultimately show ?thesis by (auto simp: wire_guest_def intro!: returns_and_do [OF returns_must] returns_and_do [OF returns_basic(1)])
  qed
  have all: "returns (gather (wire_guest demo_cluster_world demo_cidrs (map snd demo_nodes)) (map snd demo_nodes)) ()"
    using guest by (intro returns_all(2)) simp
  have keys: "set (dict_keys demo_cidrs) = set (dict_keys demo_nodes)" "length demo_nodes = 2"
    by (simp_all add: demo_cidrs_def demo_nodes_def dict_keys_def)
  show ?thesis unfolding returns_def
  proof
    fix c
    obtain ev c1 where a: "assigned demo_cluster_world cp 2 (c\<lparr>cl_cidrs := []\<rparr>) = (Inr (True, ev), c1)" "cl_cidrs c1 = demo_cidrs"
      using demo_assigned by meson
    then have w: "wait_until demo_cluster_world ''every node to be given a podCIDR'' (assigned demo_cluster_world cp 2) JOIN_TIMEOUT cp
        (c\<lparr>cl_cidrs := []\<rparr>) = (Inr ev, c1)"
      by (simp add: wait_until_def demo_cluster_world_def and_do_def Let_def give_def)
    show "\<exists>c'. wire_pod_network demo_cluster_world cp demo_nodes c = (Inr (), c')"
      using returns_and_do [OF returns_basic(2) all] a(2)
      unfolding wire_pod_network_def keys(2) and_do_def [of "wait_until _ _ _ _ _"] w
      by (simp add: keys Let_def returns_def)
  qed
qed

lemma demo_ready: "length (ready_lines demo_out) = 2"
  by code_simp

lemma returns_last: "returns (last_steps demo_cluster_world demo_args demo_nodes cp) cp"
proof -
  have "returns (nodes_ready demo_cluster_world cp (length demo_nodes)) (True, demo_out)"
    unfolding nodes_ready_def kubectl_def by (rule returns_and_do [OF returns_must]) (simp add: returns_basic demo_ready demo_nodes_def)
  then have "returns (wait_for_ready_nodes demo_cluster_world cp (length demo_nodes)) ()"
    unfolding wait_for_ready_nodes_def by (intro returns_and_do [OF returns_wait] returns_basic)
  moreover have "returns (offer_storage demo_cluster_world cp nv) ()" for nv unfolding offer_storage_def
    by (rule returns_and_do [OF returns_basic(3)]) (auto intro!: returns_and_do [OF returns_must] returns_basic)
  then have "returns (provision_storage demo_cluster_world cp demo_nodes) ()"
    unfolding provision_storage_def by (intro returns_all(1)) simp
  moreover have "returns (untaint demo_cluster_world cp) ()"
    unfolding untaint_def kubectl_def by (intro returns_and_do [OF returns_must] returns_basic)
  moreover have "schedulable_of demo_args demo_nodes" "ba_addons demo_args = []"
    by (simp_all add: schedulable_of_def demo_args_def)
  ultimately show ?thesis unfolding last_steps_def by (auto intro!: returns_and_do returns_basic)
qed

lemma demo_bring_up: "\<exists>cp c. bring_up demo_cluster_world demo_args demo_nodes no_calls = (Inr cp, c)"
proof -
  obtain cp where m: "map_of demo_nodes (ba_cp_name demo_args) = Some cp" "ba_nix_images demo_args"
    by (simp add: demo_nodes_def demo_args_def)
  have "returns (guests_ready demo_cluster_world True (map snd demo_nodes)) ()" unfolding guests_ready_def wait_for_images_def
    by (auto intro!: returns_and_do [OF returns_all(1)] returns_all(2) returns_basic)
  then have "returns (bring_up demo_cluster_world demo_args demo_nodes) cp"
    using m by (auto simp: bring_up_def intro!: returns_and_do returns_init returns_join returns_wire returns_last)
  then show ?thesis unfolding returns_def by blast
qed

text \<open>A bring-up that returned, and what the theorem says of it.\<close>

theorem bring_up_did_witness:
  "\<exists>cp c. bring_up demo_cluster_world demo_args demo_nodes no_calls = (Inr cp, c) \<and>
     (\<exists>token digest. \<forall>vm\<in>set (workers_of demo_args demo_nodes).
        did demo_cluster_world c (nd_name vm) (join_command cp token digest)) \<and>
     (\<exists>cidrs. subnets_for cidrs demo_nodes \<and>
        (\<forall>vm\<in>set (map snd demo_nodes). wired demo_cluster_world cidrs (map snd demo_nodes) vm c)) \<and>
     did demo_cluster_world c (nd_name cp) UNTAINT_COMMAND"
proof -
  from demo_bring_up obtain cp c where b: "bring_up demo_cluster_world demo_args demo_nodes no_calls = (Inr cp, c)" by blast
  have "schedulable_of demo_args demo_nodes" by (simp add: schedulable_of_def demo_args_def)
  with bring_up_did [OF b] b show ?thesis by blast
qed

end
