(* ===== verification/Memory.thy ===== *)
theory Memory
  imports Py_Strings
begin

text \<open>
  A guest's memory: sizes as text (\<open>backend.memory_bytes\<close>), UML's management console
  (\<^verbatim>\<open>uml_runner/mconsole.py\<close>), QEMU's balloon (\<^verbatim>\<open>uml_runner/qmp.py\<close>), and what the guest and the
  host say of it (\<open>Machine.meminfo\<close>, \<open>Machine.host_memory_kib\<close>). What sockets and \<open>/proc\<close> answer is
  data: the datagrams received, the readings of the balloon, the entries of a directory.
\<close>

section \<open>Sizes\<close>

definition size_scale :: "char \<Rightarrow> int option" where
  "size_scale c =
     (if c \<in> {CHR ''k'', CHR ''K''} then Some 1024
      else if c \<in> {CHR ''m'', CHR ''M''} then Some (1024 ^ 2)
      else if c \<in> {CHR ''g'', CHR ''G''} then Some (1024 ^ 3) else None)"

text \<open>\<^const>\<open>None\<close> is the \<open>ValueError\<close> of \<open>int\<close>.\<close>

definition memory_bytes :: "string \<Rightarrow> int option" where
  "memory_bytes memory =
     (case (if memory = [] then None else size_scale (last memory)) of
        None \<Rightarrow> py_int memory
      | Some scale \<Rightarrow> map_option (\<lambda>n. n * scale) (py_int (butlast memory)))"

lemma size_scale_digit: "is_digit c \<Longrightarrow> size_scale c = None"
  by (auto simp: size_scale_def is_digit_def)

lemma memory_bytes_plain: "memory_bytes (show_nat n) = Some (int n)"
proof -
  have "is_digit (last (show_nat n))" using show_nat_digits last_in_set show_nat_nonempty by blast
  then show ?thesis by (simp add: memory_bytes_def size_scale_digit)
qed

lemma memory_bytes_scaled: "size_scale c = Some k \<Longrightarrow> memory_bytes (show_nat n @ [c]) = Some (int n * k)"
  by (simp add: memory_bytes_def)

section \<open>UML's management console\<close>

definition MAX_DATA :: nat where "MAX_DATA = 512"
definition UNIX_PATH_MAX :: nat where "UNIX_PATH_MAX = 108"
definition MAGIC :: nat where "MAGIC = 0xCAFEBABE"
definition VERSION :: nat where "VERSION = 2"
definition UMID :: string where "UMID = ''mc''"

definition socket_path :: "string \<Rightarrow> string" where
  "socket_path uml_dir = uml_dir @ ''/'' @ UMID @ ''/mconsole''"

text \<open>\<open>struct.Struct("=III")\<close> in the byte order of the hosts UML runs on.\<close>

definition le32 :: "nat \<Rightarrow> string" where
  "le32 n = map (\<lambda>i. char_of (n div 256 ^ i mod 256)) [0, 1, 2, 3]"

definition unle32 :: "string \<Rightarrow> nat" where
  "unle32 s = foldr (\<lambda>c n. of_char c + 256 * n) s 0"

definition reply_header :: nat where "reply_header = 12"

text \<open>\<open>request\<close> before it waits: the datagram, or why there is none.\<close>

definition request_datagram :: "bool \<Rightarrow> string \<Rightarrow> string \<Rightarrow> string + string" where
  "request_datagram exists path command =
     (if length command \<ge> MAX_DATA then
        Inl (''command is longer than '' @ show_nat MAX_DATA @ '' bytes: '' @ py_repr command)
      else if \<not> exists then
        Inl (''no mconsole socket at '' @ path @ '': this guest was started without one, or its kernel has no CONFIG_MCONSOLE'')
      else Inr (le32 MAGIC @ le32 VERSION @ le32 (length command) @ command))"

text \<open>One datagram of a reply: whether it is an error, whether more follow, the text.\<close>

definition read_reply :: "string \<Rightarrow> (bool \<times> bool \<times> string) option" where
  "read_reply datagram =
     (if length datagram < reply_header then None
      else Some (unle32 (take 4 datagram) \<noteq> 0, unle32 (take 4 (drop 4 datagram)) \<noteq> 0,
        rstrip_char (CHR 0x00) (take (unle32 (take 4 (drop 8 datagram))) (drop reply_header datagram))))"

text \<open>
  The loop of \<open>request\<close> over the datagrams on the socket. The result is what it returns or
  raises, with the datagrams left on the socket; \<^const>\<open>None\<close> if it is still waiting.
\<close>

datatype mc_answer = Said string | Refused string | Garbled

fun collect_reply ::
  "(string \<Rightarrow> string) \<Rightarrow> string \<Rightarrow> string list \<Rightarrow> bool \<Rightarrow> string list \<Rightarrow> (mc_answer \<times> string list) option" where
  "collect_reply decode command parts failed [] = None"
| "collect_reply decode command parts failed (d # ds) =
     (case read_reply d of
        None \<Rightarrow> Some (Garbled, ds)
      | Some (err, again, said) \<Rightarrow>
         (let parts' = parts @ [decode said]; failed' = (failed \<or> err) in
          if again then collect_reply decode command parts' failed' ds
          else Some (if failed' then Refused (command @ '': '' @ concat parts') else Said (concat parts'), ds)))"

text \<open>\<open>Mconsole.balloon\<close>.\<close>

definition balloon_command :: "int \<Rightarrow> string" where
  "balloon_command delta =
     ''config mem='' @ (if delta < 0 then ''-'' else ''+'') @ show_nat (nat (\<bar>delta\<bar> div 1024)) @ ''K''"

lemma unle32_le32: "n < 2 ^ 32 \<Longrightarrow> unle32 (le32 n) = n"
proof -
  assume n: "n < 2 ^ 32"
  have "n div 16777216 < 256" using n by (simp add: less_mult_imp_div_less)
  moreover have "n div 65536 = n div 256 div 256" "n div 16777216 = n div 65536 div 256"
    by (simp_all flip: div_mult2_eq)
  ultimately show ?thesis by (simp add: unle32_def le32_def)
qed

interpretation le_word: round_trip le32 unle32 "\<lambda>n. n" "\<lambda>n. n < 2 ^ 32"
  by unfold_locales (simp_all add: unle32_le32)

lemma length_le32 [simp]: "length (le32 n) = 4"
  by (simp add: le32_def)

lemma read_reply_round:
  assumes "length said < 2 ^ 32" and "e < 2 ^ 32" and "m < 2 ^ 32"
  shows "read_reply (le32 e @ le32 m @ le32 (length said) @ said) = Some (e \<noteq> 0, m \<noteq> 0, rstrip_char (CHR 0x00) said)"
  using assms by (simp add: read_reply_def reply_header_def unle32_le32)

text \<open>A reply in several datagrams is read whole, whatever is behind it on the socket.\<close>

fun parts_of :: "(bool \<times> string) list \<Rightarrow> string list \<Rightarrow> bool" where
  "parts_of [] ds = (ds = [])"
| "parts_of ((e, t) # said) ds =
     (case ds of [] \<Rightarrow> False
      | d # ds' \<Rightarrow> read_reply d = Some (e, said \<noteq> [], t) \<and> parts_of said ds')"

lemma collect_reply_whole:
  "parts_of said ds \<Longrightarrow> said \<noteq> [] \<Longrightarrow>
   collect_reply decode command parts failed (ds @ rest) =
     (let out = concat (parts @ map (\<lambda>x. decode (snd x)) said)
      in Some (if failed \<or> (\<exists>x\<in>set said. fst x) then Refused (command @ '': '' @ out) else Said out, rest))"
proof (induction said arbitrary: ds parts failed)
  case (Cons x said)
  obtain e t where x: "x = (e, t)" by force
  with Cons.prems obtain d ds' where ds: "ds = d # ds'" and d: "read_reply d = Some (e, said \<noteq> [], t)"
    and rest: "parts_of said ds'" by (auto split: list.splits)
  show ?case
  proof (cases "said = []")
    case True
    then show ?thesis using d x ds rest by (simp add: Let_def)
  next
    case False
    from Cons.IH [OF rest False, of "parts @ [decode t]" "failed \<or> e"]
    show ?thesis using False d ds x by (simp add: Let_def disj_assoc)
  qed
qed simp

text \<open>
  A wait that times out leaves the socket as it was, so the datagrams of a late reply are what the next
  command reads: it answers with them, and its own stay behind in turn.
\<close>

lemma late_reply_misread:
  assumes "collect_reply decode first [] False [] = None" and "parts_of late ds" and "late \<noteq> []"
    and "\<not> (\<exists>x\<in>set late. fst x)"
  shows "collect_reply decode second [] False (ds @ own) = Some (Said (concat (map (\<lambda>x. decode (snd x)) late)), own)"
  using collect_reply_whole [OF assms(2,3), of decode second "[]" False own] assms(4) by (simp add: Let_def)

section \<open>QEMU's balloon\<close>

text \<open>
  The wait of \<open>Qmp.balloon\<close>. Each round of the loop is the time it was entered, the reading, and the
  time after it. It ends when the guest is near the target, when nothing has moved for too long, or
  at the deadline; \<^const>\<open>None\<close> if it is still in the loop.
\<close>

definition SLACK :: int where "SLACK = 8 * 1024 * 1024"
definition STALL :: seconds where "STALL = 5"

datatype waited = Arrived | Stalled | Timed_out

definition balloon_target :: "int \<Rightarrow> int \<Rightarrow> int" where
  "balloon_target actual delta = max 0 (actual + delta)"

fun balloon_wait ::
  "int \<Rightarrow> seconds \<Rightarrow> int \<Rightarrow> seconds \<Rightarrow> (seconds \<times> int \<times> seconds) list \<Rightarrow> waited option" where
  "balloon_wait target deadline last' moved_at [] = None"
| "balloon_wait target deadline last' moved_at ((t, now, t') # rounds) =
     (if \<not> t < deadline then Some Timed_out
      else if \<bar>now - target\<bar> \<le> SLACK then Some Arrived
      else if now \<noteq> last' then balloon_wait target deadline now t' rounds
      else if t' - moved_at > STALL then Some Stalled
      else balloon_wait target deadline last' moved_at rounds)"

definition rounds_spaced :: "seconds \<Rightarrow> (seconds \<times> int \<times> seconds) list \<Rightarrow> bool" where
  "rounds_spaced start rounds \<longleftrightarrow>
     (\<forall>i < length rounds. start + of_nat i / 5 \<le> fst (rounds ! i))"

text \<open>With a sleep of a fifth of a second in each round, the loop ends.\<close>

lemma balloon_wait_ends:
  "\<exists>i < length rounds. \<not> fst (rounds ! i) < deadline \<Longrightarrow>
   balloon_wait target deadline last' moved_at rounds \<noteq> None"
proof (induction rounds arbitrary: last' moved_at)
  case (Cons r rounds)
  obtain t now t' where r: "r = (t, now, t')" by (cases r)
  have "\<exists>i < length rounds. \<not> fst (rounds ! i) < deadline" if "t < deadline"
  proof -
    from Cons.prems obtain i where i: "i < length (r # rounds)" "\<not> fst ((r # rounds) ! i) < deadline" by blast
    with that r obtain j where "i = Suc j" by (cases i) auto
    with i show ?thesis by auto
  qed
  with Cons.IH r show ?case by auto
qed simp

lemma balloon_wait_bounded:
  assumes "rounds_spaced start rounds" and "5 * (deadline - start) + 1 \<le> of_nat (length rounds)" and "start \<le> deadline"
  shows "balloon_wait target deadline last' moved_at rounds \<noteq> None"
proof (rule balloon_wait_ends)
  have "rounds \<noteq> []" using assms(2,3) by auto
  then obtain i where i: "length rounds = Suc i" by (cases rounds) auto
  then have "start + of_nat i / 5 \<le> fst (rounds ! i)" using assms(1) by (simp add: rounds_spaced_def)
  moreover have "deadline \<le> start + of_nat i / 5" using assms(2) i by (simp add: field_simps)
  ultimately show "\<exists>i < length rounds. \<not> fst (rounds ! i) < deadline" using i by (intro exI [of _ i]) simp
qed

lemma balloon_arrived:
  "balloon_wait target deadline last' moved_at rounds = Some Arrived \<Longrightarrow>
     \<exists>r\<in>set rounds. \<bar>fst (snd r) - target\<bar> \<le> SLACK"
  by (induction target deadline last' moved_at rounds rule: balloon_wait.induct) (auto split: if_splits)

section \<open>What the guest and the host say\<close>

text \<open>\<open>Machine.meminfo\<close>: the numbers of \<open>/proc/meminfo\<close>.\<close>

definition meminfo_line :: "string \<Rightarrow> (string, int) dict \<Rightarrow> (string, int) dict" where
  "meminfo_line line values =
     (case py_partition (CHR '':'') line of (name, _, rest) \<Rightarrow>
        (case py_split rest of [] \<Rightarrow> values
         | f # _ \<Rightarrow> if f \<noteq> [] \<and> list_all is_digit f then AList.update name (int (read_nat f)) values else values))"

definition meminfo :: "string \<Rightarrow> (string, int) dict" where
  "meminfo out = fold meminfo_line (splitlines out) []"

text \<open>
  \<open>Machine.host_memory_kib\<close>: the entries of \<open>/proc/<pid>/fd\<close>, each its target, size and blocks, or
  \<^const>\<open>None\<close> where reading it failed. A \<open>memfd\<close> wins over another deleted file of the size.
\<close>

definition is_deleted :: "string \<Rightarrow> bool" where
  "is_deleted target = suffix ''(deleted)'' target"

fun memory_file :: "int \<Rightarrow> nat option \<Rightarrow> (string \<times> int \<times> nat) option list \<Rightarrow> nat option" where
  "memory_file want found [] = found"
| "memory_file want found (None # es) = memory_file want found es"
| "memory_file want found (Some (target, sz, blocks) # es) =
     (if \<not> is_deleted target \<or> sz \<noteq> want then memory_file want found es
      else if contains ''memfd:'' target then Some (blocks div 2)
      else memory_file want (Some (blocks div 2)) es)"

lemma memory_file_memfd:
  assumes "Some (target, want, blocks) \<in> set es" and "is_deleted target" and "contains ''memfd:'' target"
  shows "\<exists>t b. Some (t, want, b) \<in> set es \<and> contains ''memfd:'' t \<and> memory_file want found es = Some (b div 2)"
  using assms
proof (induction es arbitrary: found)
  case (Cons e es)
  show ?case
  proof (cases e)
    case None
    with Cons.prems have "Some (target, want, blocks) \<in> set es" by simp
    from Cons.IH [OF this Cons.prems(2,3)] None show ?thesis by auto
  next
    case (Some x)
    obtain t sz b where x: "x = (t, sz, b)" by (cases x)
    show ?thesis
    proof (cases "is_deleted t \<and> sz = want \<and> contains ''memfd:'' t")
      case True
      then show ?thesis using Some x by auto
    next
      case False
      with Cons.prems Some x have "Some (target, want, blocks) \<in> set es" by auto
      note ih = Cons.IH [OF this Cons.prems(2,3)]
      obtain found' where "memory_file want found (e # es) = memory_file want found' es"
      proof (cases "\<not> is_deleted t \<or> sz \<noteq> want")
        case True
        then show thesis using Some x that [of found] by auto
      next
        case nomem: False
        then show thesis using Some x False that [of "Some (b div 2)"] by simp
      qed
      with ih [of found'] show ?thesis by fastforce
    qed
  qed
qed simp

text \<open>What a guest is asked to give back is never more than was asked for, and less by under a kibibyte.\<close>

definition balloon_size :: "int \<Rightarrow> string" where
  "balloon_size delta = show_nat (nat (\<bar>delta\<bar> div 1024)) @ ''K''"

lemma balloon_command_size: "balloon_command delta = ''config mem='' @ (if delta < 0 then ''-'' else ''+'') @ balloon_size delta"
  by (simp add: balloon_command_def balloon_size_def)

lemma balloon_size_bytes:
  "memory_bytes (balloon_size delta) = Some (\<bar>delta\<bar> div 1024 * 1024)"
  unfolding balloon_size_def by (subst memory_bytes_scaled [where k = 1024]) (simp_all add: size_scale_def)

end
