(* ===== verification/Container.thy ===== *)
theory Container
  imports Json
begin

text \<open>
  \<^verbatim>\<open>src/pkgs/uml-runner/uml_runner/container.py\<close>: a guest as a rootless OCI container. The
  configuration crun is given, the probe of what the host must have, and the loops of the launcher.
  What a probe tries on the host (a namespace, a tap, a cgroup, a mapping) and the text of the files
  it reads are data of a \<open>probe_world\<close>; \<^const>\<open>None\<close> for a text is the \<open>OSError\<close> of reading it.
\<close>

section \<open>Ids\<close>

definition SUBORDINATE_IDS :: int where "SUBORDINATE_IDS = 65536"

record id_range =
  ir_start :: int
  ir_count :: int

text \<open>
  \<open>subordinate\<close>: the first line that gives the user a range, by name or by number. A number that is
  none raises; the lines before it have been passed over by then.
\<close>

fun subordinate_lines :: "string \<Rightarrow> int \<Rightarrow> string list \<Rightarrow> string + id_range option" where
  "subordinate_lines user uid [] = Inr None"
| "subordinate_lines user uid (l # ls) =
     (case split_on (CHR '':'') (strip l) of
        [who, first, count] \<Rightarrow>
          if who = user \<or> who = show_int uid then
            (case (py_int first, py_int count) of
               (Some s, Some n) \<Rightarrow> Inr (Some \<lparr>ir_start = s, ir_count = n\<rparr>)
             | _ \<Rightarrow> Inl ''ValueError'')
          else subordinate_lines user uid ls
      | _ \<Rightarrow> subordinate_lines user uid ls)"

definition subordinate :: "string option \<Rightarrow> string \<Rightarrow> int \<Rightarrow> string + id_range option" where
  "subordinate contents user uid =
     (case contents of None \<Rightarrow> Inr None | Some s \<Rightarrow> subordinate_lines user uid (splitlines s))"

text \<open>\<open>_mapping\<close>, as the entries (container id, host id, how many) and as the configuration's JSON.\<close>

definition mapping :: "int \<Rightarrow> id_range \<Rightarrow> (int \<times> int \<times> int) list" where
  "mapping host extra = [(0, host, 1), (1, ir_start extra, SUBORDINATE_IDS)]"

definition mapping_json :: "(int \<times> int \<times> int) list \<Rightarrow> json" where
  "mapping_json m = JList (map (\<lambda>(c, h, n).
     JObj [(''containerID'', JInt c), (''hostID'', JInt h), (''size'', JInt n)]) m)"

text \<open>The host id behind an id of the guest, as the kernel reads such a mapping.\<close>

fun host_id :: "(int \<times> int \<times> int) list \<Rightarrow> int \<Rightarrow> int option" where
  "host_id [] c = None"
| "host_id ((c0, h, n) # m) c = (if c0 \<le> c \<and> c < c0 + n then Some (h + (c - c0)) else host_id m c)"

section \<open>The configuration\<close>

definition capabilities :: "string list" where
  "capabilities = map (\<lambda>n. ''CAP_'' @ n) (py_split
     (''CHOWN DAC_OVERRIDE DAC_READ_SEARCH FOWNER FSETID KILL SETGID SETUID '' @
      ''SETPCAP LINUX_IMMUTABLE NET_BIND_SERVICE NET_BROADCAST NET_ADMIN '' @
      ''NET_RAW IPC_LOCK IPC_OWNER SYS_MODULE SYS_RAWIO SYS_CHROOT '' @
      ''SYS_PTRACE SYS_PACCT SYS_ADMIN SYS_BOOT SYS_NICE SYS_RESOURCE '' @
      ''SYS_TIME SYS_TTY_CONFIG MKNOD LEASE AUDIT_WRITE AUDIT_CONTROL '' @
      ''SETFCAP MAC_OVERRIDE MAC_ADMIN SYSLOG WAKE_ALARM BLOCK_SUSPEND '' @
      ''AUDIT_READ PERFMON BPF CHECKPOINT_RESTORE''))"

definition AGENT_DIR :: string where "AGENT_DIR = ''/run/host/agent''"

record mount =
  mo_destination :: string
  mo_type :: string
  mo_source :: string
  mo_options :: "string list"

definition bind_mount :: "string \<Rightarrow> string \<Rightarrow> string list \<Rightarrow> mount" where
  "bind_mount source destination opts =
     \<lparr>mo_destination = destination, mo_type = ''bind'', mo_source = source, mo_options = ''rbind'' # opts\<rparr>"

definition fs_mount :: "string \<Rightarrow> string \<Rightarrow> string list \<Rightarrow> mount" where
  "fs_mount fskind destination opts =
     \<lparr>mo_destination = destination, mo_type = fskind, mo_source = fskind, mo_options = opts\<rparr>"

record oci_args =
  oc_hostname :: string
  oc_init :: string
  oc_setpriv :: string
  oc_rootfs :: string
  oc_store :: string
  oc_agent_dir :: string
  oc_artifacts :: "string option"
  oc_uid :: int
  oc_gid :: int
  oc_subuid :: "id_range option"
  oc_subgid :: "id_range option"
  oc_writable_store :: bool

definition store_mount :: "oci_args \<Rightarrow> mount" where
  "store_mount a =
     (if oc_writable_store a then
        \<lparr>mo_destination = ''/nix/store'', mo_type = ''overlay'', mo_source = ''overlay'',
         mo_options = [''lowerdir='' @ oc_store a @ ''/store'', ''upperdir='' @ oc_rootfs a @ ''/.nix-upper'',
                       ''workdir='' @ oc_rootfs a @ ''/.nix-work'', ''userxattr'']\<rparr>
      else bind_mount (oc_store a @ ''/store'') ''/nix/store'' [''ro''])"

definition oci_mounts :: "oci_args \<Rightarrow> mount list" where
  "oci_mounts a =
     [fs_mount ''proc'' ''/proc'' [''nosuid'', ''noexec'', ''nodev''],
      fs_mount ''tmpfs'' ''/dev'' [''nosuid'', ''strictatime'', ''mode=755'', ''size=65536k''],
      fs_mount ''devpts'' ''/dev/pts'' [''nosuid'', ''noexec'', ''newinstance'', ''ptmxmode=0666'', ''mode=0620'', ''gid=3''],
      fs_mount ''tmpfs'' ''/dev/shm'' [''nosuid'', ''noexec'', ''nodev'', ''mode=1777''],
      fs_mount ''mqueue'' ''/dev/mqueue'' [''nosuid'', ''noexec'', ''nodev''],
      fs_mount ''sysfs'' ''/sys'' [''nosuid'', ''noexec'', ''nodev'', ''ro''],
      fs_mount ''cgroup2'' ''/sys/fs/cgroup'' [''nosuid'', ''noexec'', ''nodev'', ''rw''],
      fs_mount ''tmpfs'' ''/run'' [''nosuid'', ''nodev'', ''mode=755''],
      fs_mount ''tmpfs'' ''/tmp'' [''nosuid'', ''nodev'', ''mode=1777''],
      store_mount a,
      bind_mount (oc_agent_dir a) AGENT_DIR [''rw'']] @
     (case oc_artifacts a of None \<Rightarrow> [] | Some d \<Rightarrow> [bind_mount d ''/artifacts'' [''rw'']])"

definition mount_json :: "mount \<Rightarrow> json" where
  "mount_json m = JObj
     [(''destination'', JStr (mo_destination m)), (''type'', JStr (mo_type m)),
      (''source'', JStr (mo_source m)), (''options'', JList (map JStr (mo_options m)))]"

definition namespaces :: "oci_args \<Rightarrow> string list" where
  "namespaces a =
     [''pid'', ''ipc'', ''uts'', ''mount'', ''cgroup'', ''network''] @
     (case oc_subuid a of None \<Rightarrow> [] | Some _ \<Rightarrow> [''user''])"

definition id_mappings :: "oci_args \<Rightarrow> jdict" where
  "id_mappings a =
     (case (oc_subuid a, oc_subgid a) of
        (Some u, Some g) \<Rightarrow>
          [(''uidMappings'', mapping_json (mapping (oc_uid a) u)),
           (''gidMappings'', mapping_json (mapping (oc_gid a) g))]
      | _ \<Rightarrow> [])"

definition oci_config :: "oci_args \<Rightarrow> json" where
  "oci_config a =
     (let caps = JList (map JStr capabilities) in
      JObj
       [(''ociVersion'', JStr ''1.0.2''),
        (''hostname'', JStr (oc_hostname a)),
        (''root'', JObj [(''path'', JStr (oc_rootfs a)), (''readonly'', JBool False)]),
        (''process'', JObj
          [(''terminal'', JBool True),
           (''user'', JObj [(''uid'', JInt 0), (''gid'', JInt 0)]),
           (''args'', JList (map JStr [oc_setpriv a, ''--pdeathsig'', ''KILL'', ''--'', oc_init a])),
           (''env'', JList (map JStr [''PATH=/run/current-system/sw/bin'', ''container=crun'', ''TERM=dumb''])),
           (''cwd'', JStr ''/''),
           (''capabilities'', JObj [(''bounding'', caps), (''effective'', caps), (''permitted'', caps)]),
           (''noNewPrivileges'', JBool False)]),
        (''mounts'', JList (map mount_json (oci_mounts a))),
        (''linux'', JObj
          ([(''namespaces'', JList (map (\<lambda>k. JObj [(''type'', JStr k)]) (namespaces a))),
            (''maskedPaths'', JList []), (''readonlyPaths'', JList [])] @ id_mappings a))])"

section \<open>What the host must have\<close>

record missing =
  ms_what :: string
  ms_why :: string
  ms_remedy :: string

definition missing_text :: "missing \<Rightarrow> string" where
  "missing_text m = ms_what m @ '': '' @ ms_why m @ [LF] @ ''    fix: '' @ ms_remedy m"

text \<open>
  \<open>pw_userns\<close>: whether a child could unshare its user namespace; \<open>pw_tap\<close>: why no tap can be made;
  \<open>pw_cgroup\<close> and \<open>pw_scope\<close>: the cgroup probe here and inside a scope; \<open>pw_map\<close>: why a helper cannot
  map a range.
\<close>

record probe_world =
  pw_uid :: int
  pw_gid :: int
  pw_user :: string
  pw_uid_map :: "string option"
  pw_subuid :: "string option"
  pw_subgid :: "string option"
  pw_userns :: bool
  pw_tap :: "string option"
  pw_cgroup :: bool
  pw_systemd_run :: "string option"
  pw_scoped_cgroup :: bool
  pw_map :: "string \<Rightarrow> int \<Rightarrow> id_range \<Rightarrow> string option"

fun third_number :: "string list \<Rightarrow> int" where
  "third_number (a # b # c # rest) = (case py_int c of None \<Rightarrow> 0 | Some n \<Rightarrow> n)"
| "third_number fields' = 0"

definition owns_ids :: "probe_world \<Rightarrow> bool" where
  "owns_ids w =
     (pw_uid w = 0 \<and>
      (case pw_uid_map w of None \<Rightarrow> False
       | Some s \<Rightarrow> sum_list (map (third_number \<circ> py_split) (splitlines s)) \<ge> SUBORDINATE_IDS))"

definition SCOPE :: "string list" where
  "SCOPE = [''--user'', ''--scope'', ''--quiet'', ''--collect'', ''-p'', ''Delegate=yes'']"

definition scope :: "probe_world \<Rightarrow> string list option" where
  "scope w =
     (case pw_systemd_run w of None \<Rightarrow> None
      | Some path \<Rightarrow> if pw_scoped_cgroup w then Some (path # SCOPE) else None)"

definition needs_scope :: "probe_world \<Rightarrow> bool" where
  "needs_scope w = (\<not> pw_cgroup w)"

definition enough :: "id_range option \<Rightarrow> bool" where
  "enough r = (case r of None \<Rightarrow> False | Some x \<Rightarrow> ir_count x \<ge> SUBORDINATE_IDS)"

definition range_missing :: "string \<Rightarrow> string \<Rightarrow> string \<Rightarrow> id_range option \<Rightarrow> missing list" where
  "range_missing user name path found =
     (if enough found then []
      else [\<lparr>ms_what = show_int SUBORDINATE_IDS @ '' subordinate ids in '' @ path,
             ms_why = user @ '' has '' @ (case found of None \<Rightarrow> ''none'' | Some r \<Rightarrow> show_int (ir_count r)),
             ms_remedy = ''NixOS: users.users.'' @ user @ ''.autoSubUidGidRange = true; elsewhere: usermod --add-'' @
               name @ ''s 100000-165535 '' @ user\<rparr>])"

definition helper_missing :: "probe_world \<Rightarrow> string \<Rightarrow> int \<Rightarrow> id_range \<Rightarrow> missing list" where
  "helper_missing w helper host extra =
     (case pw_map w helper host extra of None \<Rightarrow> []
      | Some why \<Rightarrow> if why = [] then [] else
          [\<lparr>ms_what = ''a working '' @ helper, ms_why = why,
             ms_remedy = ''install shadow's uidmap tools, setuid or with cap_setuid/cap_setgid; NixOS has them in /run/wrappers/bin''\<rparr>])"

text \<open>\<open>_probe_ranges\<close>; a file with a number that is none raises.\<close>

definition probe_ranges :: "probe_world \<Rightarrow> string + missing list" where
  "probe_ranges w =
     and_then (subordinate (pw_subuid w) (pw_user w) (pw_uid w)) (\<lambda>u.
     and_then (subordinate (pw_subgid w) (pw_user w) (pw_uid w)) (\<lambda>g.
       Inr (range_missing (pw_user w) ''subuid'' ''/etc/subuid'' u @
            range_missing (pw_user w) ''subgid'' ''/etc/subgid'' g @
            (case (u, g) of
               (Some ur, Some gr) \<Rightarrow>
                 if pw_userns w \<and> enough u \<and> enough g
                 then helper_missing w ''newuidmap'' (pw_uid w) ur @ helper_missing w ''newgidmap'' (pw_gid w) gr
                 else []
             | _ \<Rightarrow> []))))"

definition tap_missing :: "probe_world \<Rightarrow> bool \<Rightarrow> missing list" where
  "tap_missing w tun =
     (case pw_tap w of None \<Rightarrow> []
      | Some why \<Rightarrow> if tun \<and> why \<noteq> [] then
          [\<lparr>ms_what = ''a tap device'', ms_why = why,
             ms_remedy = ''in a Nix build, put /dev/net in extra-sandbox-paths (ghanix: nix.install.devNet = true)''\<rparr>]
          else [])"

definition userns_missing :: "probe_world \<Rightarrow> missing list" where
  "userns_missing w =
     (if pw_userns w then []
      else [\<lparr>ms_what = ''a user namespace'', ms_why = ''unshare(CLONE_NEWUSER) failed'',
             ms_remedy = ''allow unprivileged user namespaces: user.max_user_namespaces > 0, and on Ubuntu kernel.apparmor_restrict_unprivileged_userns=0''\<rparr>])"

definition cgroup_missing :: "probe_world \<Rightarrow> missing list" where
  "cgroup_missing w =
     (if pw_cgroup w \<or> scope w \<noteq> None then []
      else [\<lparr>ms_what = ''a cgroup systemd can write in'',
             ms_why = ''a cgroup2 mounted in a new cgroup namespace was not writable, and systemd-run --user could not make a delegated scope'',
             ms_remedy = ''run under a user systemd, or in a cgroup delegated to you; in a Nix build, ask for the uid-range system feature''\<rparr>])"

definition probe :: "probe_world \<Rightarrow> bool \<Rightarrow> string + missing list" where
  "probe w tun =
     and_then (if owns_ids w then Inr [] else probe_ranges w) (\<lambda>ranges.
       Inr (tap_missing w tun @ userns_missing w @ ranges @ cgroup_missing w))"

text \<open>\<open>store_is_one_mount\<close>, from \<open>/proc/self/mountinfo\<close>.\<close>

definition mount_point :: "string \<Rightarrow> string" where
  "mount_point line = (case drop 4 (py_split line) of [] \<Rightarrow> [] | p # _ \<Rightarrow> p)"

definition store_is_one_mount :: "string option \<Rightarrow> string \<Rightarrow> bool" where
  "store_is_one_mount mountinfo store =
     (case mountinfo of None \<Rightarrow> False
      | Some s \<Rightarrow> \<not> list_ex (\<lambda>l. startswith (mount_point l) (store @ ''/store/'')) (splitlines s))"

definition probe_report :: "probe_world \<Rightarrow> string option \<Rightarrow> bool \<Rightarrow> string + (string list \<times> nat)" where
  "probe_report w mountinfo tun =
     and_then (probe w tun) (\<lambda>ms. Inr
       (if ms \<noteq> [] then
          (map (\<lambda>m. ''missing '' @ missing_text m) ms @
             [''this host cannot run a container guest: '' @ show_nat (length ms) @ '' missing''], 1)
        else
          ([''ok: user namespace, cgroup, ids: '' @
              (if owns_ids w then ''the build's own (uid-range)'' else ''subordinate ids'') @
              '', store: '' @ (if store_is_one_mount mountinfo ''/nix'' then ''overlay'' else ''read-only bind'') @
              '', uplink: '' @ (if pw_tap w = None then ''yes'' else ''no (no tap device)'')], 0)))"

section \<open>The launcher\<close>

text \<open>
  \<open>_relay\<close>: what happened at the pty, one event per turn of the loop. A read that fails with
  \<open>EIO\<close>, or a quiet half second, ends the relay only once crun has exited.
\<close>

datatype pty_event = Quiet bool | Read_failed bool | Bytes string

fun relay :: "pty_event list \<Rightarrow> string \<times> bool" where
  "relay [] = ([], False)"
| "relay (Quiet gone # es) = (if gone then ([], True) else relay es)"
| "relay (Read_failed gone # es) = (if gone then ([], True) else relay es)"
| "relay (Bytes d # es) = (if d = [] then ([], True) else (case relay es of (out, fin) \<Rightarrow> (d @ out, fin)))"

text \<open>
  \<open>tap_relay\<close>: a frame read at one side, with whether the other side took it. \<^const>\<open>None\<close> is a read
  that would block; the empty frame, and a failed read, end the relay.
\<close>

datatype side = Tap | Segment

datatype tap_event = Frame_read side "string option" bool | Frame_error side

fun other_side :: "side \<Rightarrow> side" where
  "other_side Tap = Segment"
| "other_side Segment = Tap"

fun tap_relay :: "tap_event list \<Rightarrow> (side \<times> string) list \<times> bool" where
  "tap_relay [] = ([], False)"
| "tap_relay (Frame_error s # es) = ([], True)"
| "tap_relay (Frame_read s None took # es) = tap_relay es"
| "tap_relay (Frame_read s (Some f) took # es) =
     (if f = [] then ([], True)
      else (case tap_relay es of (out, fin) \<Rightarrow> ((if took then [(other_side s, f)] else []) @ out, fin)))"

text \<open>What a line of \<open>mountinfo\<close> says after the separator: the kind of file system first.\<close>

definition mount_kind :: "string \<Rightarrow> string option" where
  "mount_kind line =
     (case py_partition_at '' - '' line of (_, _, after) \<Rightarrow>
        (case py_split after of [] \<Rightarrow> None | k # _ \<Rightarrow> Some k))"

definition cgroup2_mounted :: "string \<Rightarrow> bool" where
  "cgroup2_mounted mountinfo =
     list_ex (\<lambda>l. mount_point l = ''/sys/fs/cgroup'' \<and> mount_kind l = Some ''cgroup2'') (splitlines mountinfo)"

text \<open>
  \<open>main\<close> in the mode \<open>run\<close>: the wait for crun's console, the helpers, the relay, and the cleanup that
  follows however it ends. Each turn of the first loop is whether crun has exited, and what came in:
  nothing, or the descriptors of one connection.
\<close>

record launcher =
  ln_crun_exit :: "int option"
  ln_helpers :: "nat set"
  ln_sockets :: bool
  ln_deleted :: bool
  ln_said :: "string list"
  ln_out :: string

record launch_world =
  lw_accepts :: "(bool \<times> int list option) list"
  lw_init_pid :: "string + int"
  lw_uplink :: "string + nat"
  lw_lan :: nat
  lw_console :: "pty_event list"
  lw_exit :: int

fun await_master :: "(bool \<times> int list option) list \<Rightarrow> int option" where
  "await_master [] = None"
| "await_master ((gone, got) # es) =
     (if gone then None
      else (case got of Some (m # _) \<Rightarrow> Some m | _ \<Rightarrow> await_master es))"

definition start_helpers :: "bool \<Rightarrow> bool \<Rightarrow> launch_world \<Rightarrow> launcher \<Rightarrow> string option \<times> launcher" where
  "start_helpers uplink lan w st =
     (case lw_init_pid w of
        Inl e \<Rightarrow> (Some e, st)
      | Inr _ \<Rightarrow>
         (case (if uplink then lw_uplink w else Inr 0) of
            Inl e \<Rightarrow> (Some e, st)
          | Inr p \<Rightarrow>
             (None, st\<lparr>ln_helpers := ln_helpers st \<union> (if uplink then {p} else {}) \<union> (if lan then {lw_lan w} else {})\<rparr>)))"

definition launcher_start :: launcher where
  "launcher_start = \<lparr>ln_crun_exit = None, ln_helpers = {}, ln_sockets = True, ln_deleted = False,
     ln_said = [], ln_out = []\<rparr>"

definition relayed :: "launch_world \<Rightarrow> launcher \<Rightarrow> int \<times> launcher" where
  "relayed w st = (lw_exit w, st\<lparr>ln_out := fst (relay (lw_console w)), ln_crun_exit := Some (lw_exit w)\<rparr>)"

definition launcher_body :: "bool \<Rightarrow> bool \<Rightarrow> launch_world \<Rightarrow> int \<times> launcher" where
  "launcher_body uplink lan w =
     (case await_master (lw_accepts w) of
        None \<Rightarrow> (lw_exit w, launcher_start\<lparr>ln_crun_exit := Some (lw_exit w)\<rparr>)
      | Some _ \<Rightarrow>
          if uplink \<or> lan then
            (case start_helpers uplink lan w launcher_start of
               (Some e, st) \<Rightarrow> (1, st\<lparr>ln_said := [''uml-crun: '' @ e]\<rparr>)
             | (None, st) \<Rightarrow> relayed w st)
          else relayed w launcher_start)"

definition launcher_cleanup :: "launch_world \<Rightarrow> launcher \<Rightarrow> launcher" where
  "launcher_cleanup w st =
     st\<lparr>ln_sockets := False,
        ln_crun_exit := (case ln_crun_exit st of None \<Rightarrow> Some (lw_exit w) | Some c \<Rightarrow> Some c),
        ln_helpers := {}, ln_deleted := True\<rparr>"

definition launcher_run :: "bool \<Rightarrow> bool \<Rightarrow> launch_world \<Rightarrow> int \<times> launcher" where
  "launcher_run uplink lan w = (case launcher_body uplink lan w of (code, st) \<Rightarrow> (code, launcher_cleanup w st))"

section \<open>What holds of it\<close>

text \<open>The console's bytes are relayed in order, and none before the end is lost.\<close>

fun pty_data :: "pty_event list \<Rightarrow> string" where
  "pty_data [] = []"
| "pty_data (Bytes d # es) = d @ pty_data es"
| "pty_data (e # es) = pty_data es"

lemma relay_prefix: "prefix (fst (relay es)) (pty_data es)"
  by (induction es rule: relay.induct) (auto split: prod.splits)

lemma relay_all:
  "\<forall>e\<in>set es. e \<noteq> Quiet True \<and> e \<noteq> Read_failed True \<and> e \<noteq> Bytes [] \<Longrightarrow> relay es = (pty_data es, False)"
  by (induction es rule: relay.induct) auto

lemma launcher_leaves_nothing:
  "launcher_run uplink lan w = (code, st) \<Longrightarrow>
     ln_helpers st = {} \<and> \<not> ln_sockets st \<and> ln_deleted st \<and> ln_crun_exit st \<noteq> None"
  by (auto simp: launcher_run_def launcher_cleanup_def split: prod.splits option.splits)

lemma launcher_status:
  "launcher_run uplink lan w = (code, st) \<Longrightarrow> code = lw_exit w \<or> code = 1 \<and> ln_said st \<noteq> []"
  by (auto simp: launcher_run_def launcher_body_def launcher_cleanup_def relayed_def
      split: prod.splits option.splits if_splits)

text \<open>Frames go to the other side, unchanged and in order.\<close>

fun frames_from :: "side \<Rightarrow> tap_event list \<Rightarrow> string list" where
  "frames_from s [] = []"
| "frames_from s (Frame_read t (Some f) took # es) = (if t = s then f # frames_from s es else frames_from s es)"
| "frames_from s (e # es) = frames_from s es"

lemma tap_relay_subseq:
  "subseq (map snd (filter (\<lambda>x. fst x = other_side s) (fst (tap_relay es)))) (frames_from s es)"
proof (induction es rule: tap_relay.induct)
  case (4 t f took es)
  obtain out fin where o: "tap_relay es = (out, fin)" by force
  have "other_side t = other_side s \<longleftrightarrow> t = s" by (cases t; cases s) auto
  with 4 o show ?case by (cases "f = []") auto
qed auto

lemma subordinate_found:
  assumes "subordinate contents user uid = Inr (Some r)"
  shows "\<exists>text. contents = Some text \<and> (\<exists>l\<in>set (splitlines text).
    \<exists>who a b. split_on (CHR '':'') (strip l) = [who, a, b] \<and> (who = user \<or> who = show_int uid) \<and>
      py_int a = Some (ir_start r) \<and> py_int b = Some (ir_count r))"
proof -
  have *: "subordinate_lines user uid ls = Inr (Some r) \<Longrightarrow> \<exists>l\<in>set ls.
    \<exists>who a b. split_on (CHR '':'') (strip l) = [who, a, b] \<and> (who = user \<or> who = show_int uid) \<and>
      py_int a = Some (ir_start r) \<and> py_int b = Some (ir_count r)" for ls
    by (induction user uid ls rule: subordinate_lines.induct)
      (fastforce split: list.splits if_splits option.splits)+
  show ?thesis using assms * by (auto simp: subordinate_def split: option.splits)
qed

lemma mapping_hosts:
  assumes "host_id (mapping host extra) c = Some h"
  shows "h = host \<or> ir_start extra \<le> h \<and> h < ir_start extra + SUBORDINATE_IDS"
  using assms by (auto simp: mapping_def split: if_splits)

lemma mapping_total: "0 \<le> c \<Longrightarrow> c \<le> SUBORDINATE_IDS \<Longrightarrow> host_id (mapping host extra) c \<noteq> None"
  by (auto simp: mapping_def)

lemma mapping_injective:
  assumes "host < ir_start extra \<or> ir_start extra + SUBORDINATE_IDS \<le> host"
    and "host_id (mapping host extra) c = Some h" and "host_id (mapping host extra) d = Some h"
  shows "c = d"
  using assms by (auto simp: mapping_def split: if_splits)

lemma probe_ranges_enough:
  assumes "probe w tun = Inr []" and "\<not> owns_ids w"
  shows "\<exists>u g. subordinate (pw_subuid w) (pw_user w) (pw_uid w) = Inr (Some u) \<and> enough (Some u) \<and>
    subordinate (pw_subgid w) (pw_user w) (pw_uid w) = Inr (Some g) \<and> enough (Some g)"
proof -
  from assms have "probe_ranges w = Inr []" by (auto simp: probe_def and_then_Inr)
  then obtain u g where ug: "subordinate (pw_subuid w) (pw_user w) (pw_uid w) = Inr u"
    "subordinate (pw_subgid w) (pw_user w) (pw_uid w) = Inr g"
    and r: "range_missing (pw_user w) ''subuid'' ''/etc/subuid'' u = []"
      "range_missing (pw_user w) ''subgid'' ''/etc/subgid'' g = []"
    by (auto simp: probe_ranges_def and_then_Inr)
  from r have "enough u" "enough g" by (auto simp: range_missing_def split: if_splits)
  with ug show ?thesis by (cases u; cases g) (auto simp: enough_def)
qed

end
