(* ===== verification/Backend.thy ===== *)
theory Backend
  imports Machine_Spec Events Memory Container
begin

text \<open>
  \<^verbatim>\<open>src/pkgs/uml-runner/uml_runner/backend.py\<close>: what each kind of guest is made of. A backend turns a
  guest into a command line, the descriptors it inherits and the processes beside it. What the host
  answers on the way (the room on a file system, the helpers that start or die, the id of a new
  directory) is data; the pids and descriptors a launch has taken are kept, so that it can be said
  what a launch that fails leaves behind.
\<close>

datatype launch_error = Backend_error string | Forward_failed forward_error | Raised_error string

definition of_forward :: "forward_error + 'a \<Rightarrow> launch_error + 'a" where
  "of_forward r = (case r of Inl e \<Rightarrow> Inl (Forward_failed e) | Inr x \<Rightarrow> Inr x)"

record guest_job =
  gj_spec :: machine_spec
  gj_tools :: toolchain
  gj_artifacts :: "string option"
  gj_offline :: bool
  gj_forward :: "rule list"

record host_facts =
  hf_start :: int
  hf_ephemeral :: "int \<times> int"
  hf_dns :: "string option"
  hf_path :: string
  hf_mountinfo :: "string option"
  hf_room :: "string \<Rightarrow> int option"
  hf_exec :: "string \<Rightarrow> bool"
  hf_fresh :: string

record launch_plan =
  la_argv :: "string list"
  la_pass_fds :: "nat list"
  la_env :: "(string, string) dict"
  la_helpers :: "nat list"
  la_memory :: "string option"
  la_pid_file :: "string option"
  la_cleanup :: "string list"
  la_agent_path :: "string option"

section \<open>Where things go\<close>

text \<open>\<open>_tail\<close> of a log; \<^const>\<open>Inl\<close> is the error of reading it.\<close>

definition log_tail :: "string \<Rightarrow> string + string \<Rightarrow> string" where
  "log_tail path contents =
     (case contents of
        Inl e \<Rightarrow> ''('' @ path @ '' unreadable: '' @ e @ '')''
      | Inr s \<Rightarrow> (let t = join [LF] (last_n 20 (splitlines s)) in if t = [] then ''('' @ path @ '' is empty)'' else t))"

text \<open>\<open>_fstype\<close>: the longest mount point above the path, the last of them on a tie.\<close>

definition covers :: "string \<Rightarrow> string \<Rightarrow> bool" where
  "covers point path = (path = point \<or> startswith path (rstrip_char (CHR ''/'') point @ ''/''))"

definition fstype_line :: "string \<Rightarrow> string \<Rightarrow> (string \<times> string) option" where
  "fstype_line path line =
     (case py_partition_at '' - '' line of (before, _, after) \<Rightarrow>
        (case (drop 4 (py_split before), py_split after) of
           (point # _, fskind # _) \<Rightarrow> if covers point path then Some (point, fskind) else None
         | _ \<Rightarrow> None))"

fun fstype_scan :: "string \<Rightarrow> int \<Rightarrow> string option \<Rightarrow> string list \<Rightarrow> string option" where
  "fstype_scan path longest found [] = found"
| "fstype_scan path longest found (l # ls) =
     (case fstype_line path l of
        None \<Rightarrow> fstype_scan path longest found ls
      | Some (point, fskind) \<Rightarrow>
          if int (length point) \<ge> longest then fstype_scan path (int (length point)) (Some fskind) ls
          else fstype_scan path longest found ls)"

definition fstype :: "host_facts \<Rightarrow> string \<Rightarrow> string option" where
  "fstype hf path =
     (case hf_mountinfo hf of None \<Rightarrow> None | Some s \<Rightarrow> fstype_scan path (- 1) None (splitlines s))"

definition fits_guest_ram :: "host_facts \<Rightarrow> string \<Rightarrow> int \<Rightarrow> bool" where
  "fits_guest_ram hf d sz =
     (if fstype hf d \<noteq> Some ''tmpfs'' then False
      else (case hf_room hf d of None \<Rightarrow> False | Some room \<Rightarrow> if room < sz then False else hf_exec hf d))"

definition PHYSMEM_DIRS :: "string list" where "PHYSMEM_DIRS = [''/dev/shm'', ''/tmp'']"

definition physmem_dir :: "host_facts \<Rightarrow> string \<Rightarrow> launch_error + string option" where
  "physmem_dir hf memory =
     (case memory_bytes memory of
        None \<Rightarrow> Inl (Raised_error ''ValueError'')
      | Some sz \<Rightarrow> Inr (find (\<lambda>d. fits_guest_ram hf d sz) PHYSMEM_DIRS))"

text \<open>\<open>socket_dir\<close>: the run directory, or a new short one that has to be removed afterwards.\<close>

definition socket_dir :: "host_facts \<Rightarrow> string \<Rightarrow> string \<Rightarrow> string option \<Rightarrow> string \<times> string list" where
  "socket_dir hf rundir name fallback =
     (if length (rundir @ ''/'' @ name) < UNIX_PATH_MAX then (rundir, [])
      else (let made = (case fallback of None \<Rightarrow> ''/tmp'' | Some d \<Rightarrow> if d = [] then ''/tmp'' else d) @ ''/uml-'' @ hf_fresh hf
            in (made, [made])))"

lemma fstype_scan_found: "fstype_scan path longest found ls = Some k \<Longrightarrow>
    found = Some k \<or> (\<exists>l\<in>set ls. \<exists>p. fstype_line path l = Some (p, k))"
proof (induction ls arbitrary: longest found)
  case (Cons l ls)
  show ?case
  proof (cases "fstype_line path l")
    case None
    with Cons.prems Cons.IH [of longest found] show ?thesis by auto
  next
    case (Some pk)
    obtain p k' where pk: "pk = (p, k')" by force
    show ?thesis
    proof (cases "longest \<le> int (length p)")
      case True
      with Cons.prems Some pk Cons.IH [of "int (length p)" "Some k'"] show ?thesis by auto
    next
      case False
      with Cons.prems Some pk Cons.IH [of longest found] show ?thesis by auto
    qed
  qed
qed simp

lemma physmem_dir_sound:
  assumes "physmem_dir hf memory = Inr (Some d)"
  shows "\<exists>sz room. memory_bytes memory = Some sz \<and> d \<in> set PHYSMEM_DIRS \<and> fstype hf d = Some ''tmpfs'' \<and>
    hf_room hf d = Some room \<and> sz \<le> room \<and> hf_exec hf d"
proof -
  obtain sz where sz: "memory_bytes memory = Some sz" and f: "find (\<lambda>d. fits_guest_ram hf d sz) PHYSMEM_DIRS = Some d"
    using assms by (auto simp: physmem_dir_def split: option.splits)
  from f have "fits_guest_ram hf d sz" "d \<in> set PHYSMEM_DIRS" by (auto simp: find_Some_iff)
  with sz show ?thesis by (auto simp: fits_guest_ram_def split: if_splits option.splits)
qed

lemma socket_dir_fits:
  assumes "socket_dir hf rundir name fallback = (d, made)"
    and "length (hf_fresh hf) \<le> 8" and "length name \<le> 20"
    and "\<And>f. fallback = Some f \<Longrightarrow> length f \<le> 40"
  shows "length (d @ ''/'' @ name) < UNIX_PATH_MAX"
  using assms by (auto simp: socket_dir_def Let_def UNIX_PATH_MAX_def split: if_splits option.splits)

section \<open>UML\<close>

definition VECTOR_DEPTH :: nat where "VECTOR_DEPTH = 64"

definition vec :: "nat \<Rightarrow> nat \<Rightarrow> int \<Rightarrow> string" where
  "vec unit fd mtu =
     ''vec'' @ show_nat unit @ '':transport=fd,fd='' @ show_nat fd @ '',depth='' @ show_nat VECTOR_DEPTH @
     '',mtu='' @ show_int mtu"

definition forward_args :: "host_facts \<Rightarrow> guest_job \<Rightarrow> launch_error + string list" where
  "forward_args hf j = of_forward (to_args (hf_start hf) (hf_ephemeral hf) (gj_forward j))"

fun fds_of :: "nat option list \<Rightarrow> nat list" where
  "fds_of [] = []"
| "fds_of (None # fs) = fds_of fs"
| "fds_of (Some fd # fs) = fd # fds_of fs"

definition uml_launch :: "host_facts \<Rightarrow> guest_job \<Rightarrow> string \<Rightarrow> nat \<Rightarrow> nat option \<Rightarrow> launch_error + launch_plan" where
  "uml_launch hf j rundir agent_fd lan_fd =
     (let spec = gj_spec j; tools = gj_tools j in
      and_then (physmem_dir hf (mp_memory spec)) (\<lambda>ram.
      and_then (forward_args hf j) (\<lambda>fwd.
        (case socket_dir hf rundir (UMID @ ''/mconsole'') ram of (uml_dir, cleanup) \<Rightarrow>
          Inr \<lparr>la_argv =
                [opt_str (tc_bridge tools), ''--vec'', vec 0 3 (mp_mtu spec)] @
                concat (map (\<lambda>v. [''--passt'', v]) (uplink_args (hf_dns hf) (gj_offline j))) @
                fwd @
                [opt_str (tc_kernel tools),
                 ''ubd0='' @ rundir @ ''/cow,'' @ opt_str (mp_image spec),
                 ''root=/dev/ubda'', ''rw'', ''init=/init'', ''mem='' @ mp_memory spec,
                 ''ssl0=fd:'' @ show_nat agent_fd, ''seccomp='' @ mp_seccomp spec,
                 ''uml_dir='' @ uml_dir, ''umid='' @ UMID] @
                (case gj_artifacts j of None \<Rightarrow> [] | Some a \<Rightarrow> [''UML_ARTIFACTS='' @ a]) @
                (case lan_fd of None \<Rightarrow> [] | Some fd \<Rightarrow> [vec 1 fd (mp_mtu spec)]),
               la_pass_fds = fds_of [Some agent_fd, lan_fd],
               la_env = (''PATH'', path_parent (tc_passt tools) @ '':'' @ hf_path hf) #
                 (case ram of None \<Rightarrow> [] | Some d \<Rightarrow> [(''TMPDIR'', d)]),
               la_helpers = [], la_memory = Some (socket_path uml_dir),
               la_pid_file = Some (uml_dir @ ''/'' @ UMID @ ''/pid''), la_cleanup = cleanup,
               la_agent_path = None\<rparr>))))"

section \<open>QEMU\<close>

text \<open>
  A helper comes to nothing because its socket could not be made, exits at once, or serves on a
  descriptor under a pid. \<open>_scratch_disk\<close> fails with what \<open>qemu-img\<close> said, or opens two descriptors.
\<close>

datatype served = Not_bound string | Died int | Serves nat nat

record qemu_world =
  qw_store :: served
  qw_artifacts :: served
  qw_disk :: "string + nat \<times> nat"
  qw_passt :: served
  qw_passt_log :: "string + string"

definition virtiofsd :: "string \<Rightarrow> string \<Rightarrow> string \<Rightarrow> served \<Rightarrow> launch_error + nat \<times> nat" where
  "virtiofsd dir name shared out =
     (case out of
        Not_bound e \<Rightarrow> Inl (Backend_error (''could not make a socket at '' @ dir @ ''/'' @ name @ '': '' @ e))
      | Died rc \<Rightarrow> Inl (Backend_error (''virtiofsd exited ('' @ show_int rc @ '') instead of serving '' @ shared))
      | Serves fd pid \<Rightarrow> Inr (fd, pid))"

definition scratch_disk :: "string option \<Rightarrow> string + nat \<times> nat \<Rightarrow> launch_error + nat \<times> nat" where
  "scratch_disk img made =
     (case img of
        None \<Rightarrow> Inl (Backend_error ''this guest has no root image'')
      | Some i \<Rightarrow>
         (case made of
            Inl e \<Rightarrow> Inl (Backend_error (''could not make a scratch disk over '' @ i @ '': '' @ strip e))
          | Inr fds \<Rightarrow> Inr fds))"

definition passt :: "host_facts \<Rightarrow> guest_job \<Rightarrow> string \<Rightarrow> qemu_world \<Rightarrow> launch_error + nat \<times> nat" where
  "passt hf j rundir w =
     and_then (forward_args hf j) (\<lambda>_.
       (case qw_passt w of
          Not_bound e \<Rightarrow> Inl (Raised_error e)
        | Died rc \<Rightarrow> Inl (Backend_error (''passt exited ('' @ show_int rc @ '') instead of serving the uplink:'' @ [LF] @
            log_tail (rundir @ ''/passt.log'') (qw_passt_log w)))
        | Serves fd pid \<Rightarrow> Inr (fd, pid)))"

definition boot_value :: "jdict \<Rightarrow> string \<Rightarrow> launch_error + string" where
  "boot_value d k = (case map_of d k of None \<Rightarrow> Inl (Raised_error ''KeyError'') | Some v \<Rightarrow> Inr (py_str v))"

definition qemu_argv ::
  "guest_job \<Rightarrow> string \<Rightarrow> nat \<Rightarrow> nat option \<Rightarrow> nat \<Rightarrow> nat option \<Rightarrow> nat \<times> nat \<Rightarrow> nat \<Rightarrow> launch_error + string list" where
  "qemu_argv j sockets agent_fd lan_fd vfs_fd art_fd disk_fds passt_fd =
     (let spec = gj_spec j; boot = mp_boot spec in
      and_then (boot_value boot ''kernel'') (\<lambda>krn.
      and_then (boot_value boot ''initrd'') (\<lambda>initrd.
      and_then (boot_value boot ''cmdline'') (\<lambda>cmdline.
      and_then (boot_value boot ''toplevel'') (\<lambda>top_level.
        Inr ([opt_str (tc_qemu (gj_tools j)),
          ''-machine'', ''q35,accel=kvm,memory-backend=guest-memory'',
          ''-cpu'', if truthy (jget boot ''nested'') then ''host'' else ''host,-vmx,-svm'',
          ''-smp'', show_int (mp_cpus spec), ''-m'', mp_memory spec,
          ''-nodefaults'', ''-no-reboot'', ''-display'', ''none'',
          ''-object'', ''memory-backend-memfd,id=guest-memory,size='' @ mp_memory spec @ '',share=on'',
          ''-kernel'', krn, ''-initrd'', initrd, ''-append'', cmdline @ '' init='' @ top_level @ ''/init'',
          ''-add-fd'', ''fd='' @ show_nat (fst disk_fds) @ '',set=1'',
          ''-add-fd'', ''fd='' @ show_nat (snd disk_fds) @ '',set=1'',
          ''-drive'', ''file=/dev/fdset/1,if=virtio,format=qcow2'',
          ''-serial'', ''stdio'',
          ''-chardev'', ''socket,id=virtiofs,fd='' @ show_nat vfs_fd,
          ''-device'', ''vhost-user-fs-pci,chardev=virtiofs,tag=nix'',
          ''-chardev'', ''socket,id=agent,fd='' @ show_nat agent_fd,
          ''-device'', ''virtio-serial'', ''-device'', ''virtconsole,chardev=agent'',
          ''-netdev'', ''stream,id=vec0,addr.type=fd,addr.str='' @ show_nat passt_fd,
          ''-device'', ''virtio-net-pci,netdev=vec0,mac='' @ machine_mac spec 0,
          ''-device'', ''virtio-balloon-pci,free-page-reporting=on'',
          ''-qmp'', ''unix:'' @ sockets @ ''/qmp,server=on,wait=off''] @
          (case art_fd of None \<Rightarrow> []
           | Some fd \<Rightarrow> [''-chardev'', ''socket,id=artifacts,fd='' @ show_nat fd,
                        ''-device'', ''vhost-user-fs-pci,chardev=artifacts,tag=artifacts'']) @
          (case lan_fd of None \<Rightarrow> []
           | Some fd \<Rightarrow> [''-netdev'', ''dgram,id=vec1,local.type=fd,local.str='' @ show_nat fd,
                        ''-device'', ''virtio-net-pci,netdev=vec1,mac='' @ machine_mac spec 1 @
                          '',host_mtu='' @ show_int (mp_mtu spec)])))))))"

text \<open>\<open>_launch\<close>: beside the result, the helpers started and the descriptors opened by then.\<close>

definition artifacts_server :: "guest_job \<Rightarrow> string \<Rightarrow> qemu_world \<Rightarrow> launch_error + (nat \<times> nat) option" where
  "artifacts_server j sockets w =
     (case gj_artifacts j of
        None \<Rightarrow> Inr None
      | Some a \<Rightarrow> and_then (virtiofsd sockets ''art'' a (qw_artifacts w)) (\<lambda>x. Inr (Some x)))"

definition qemu_steps ::
  "host_facts \<Rightarrow> guest_job \<Rightarrow> qemu_world \<Rightarrow> string \<Rightarrow> nat \<Rightarrow> nat option \<Rightarrow>
     (nat list \<times> nat list) \<times> (launch_error + launch_plan)" where
  "qemu_steps hf j w rundir agent_fd lan_fd =
     (case socket_dir hf rundir ''qmp'' None of (sockets, cleanup) \<Rightarrow>
      (case virtiofsd sockets ''vfs'' (mp_store (gj_spec j)) (qw_store w) of
         Inl e \<Rightarrow> (([], []), Inl e)
       | Inr (vfs_fd, vfsd) \<Rightarrow>
      (case artifacts_server j sockets w of
         Inl e \<Rightarrow> (([vfsd], [vfs_fd]), Inl e)
       | Inr art \<Rightarrow>
         (let hs = vfsd # fds_of [map_option snd art]; fds = vfs_fd # fds_of [map_option fst art] in
      (case scratch_disk (mp_image (gj_spec j)) (qw_disk w) of
         Inl e \<Rightarrow> ((hs, fds), Inl e)
       | Inr (d0, d1) \<Rightarrow>
      (case passt hf j rundir w of
         Inl e \<Rightarrow> ((hs, fds @ [d0, d1]), Inl e)
       | Inr (passt_fd, passt_proc) \<Rightarrow>
         ((hs @ [passt_proc], fds @ [d0, d1, passt_fd]),
          and_then (qemu_argv j sockets agent_fd lan_fd vfs_fd (map_option fst art) (d0, d1) passt_fd) (\<lambda>argv.
            Inr \<lparr>la_argv = argv,
                 la_pass_fds = fds_of [Some agent_fd, Some passt_fd, lan_fd, Some vfs_fd, map_option fst art,
                                      Some d0, Some d1],
                 la_env = [], la_helpers = hs @ [passt_proc], la_memory = Some (sockets @ ''/qmp''),
                 la_pid_file = None, la_cleanup = cleanup, la_agent_path = None\<rparr>))))))))"

text \<open>
  The processes and descriptors of the host. \<open>Qemu.launch\<close>: a failure after the first helper kills
  the helpers and closes the descriptors there are.
\<close>

record host_res =
  hr_running :: "nat set"
  hr_fds :: "nat set"

definition qemu_launch ::
  "host_facts \<Rightarrow> guest_job \<Rightarrow> qemu_world \<Rightarrow> string \<Rightarrow> nat \<Rightarrow> nat option \<Rightarrow> host_res \<Rightarrow>
     (launch_error + launch_plan) \<times> host_res" where
  "qemu_launch hf j w rundir agent_fd lan_fd h =
     (case qemu_steps hf j w rundir agent_fd lan_fd of
        ((hs, fds), r) \<Rightarrow>
          (let h1 = \<lparr>hr_running = hr_running h \<union> set hs, hr_fds = hr_fds h \<union> set fds\<rparr> in
           case r of
             Inr l \<Rightarrow> (Inr l, h1)
           | Inl e \<Rightarrow> (Inl e, \<lparr>hr_running = hr_running h1 - set hs, hr_fds = hr_fds h1 - set fds\<rparr>)))"

text \<open>A launch that fails takes nothing with it; one that works hands on all it took.\<close>

lemma in_fds_of: "x \<in> set (fds_of fs) \<longleftrightarrow> Some x \<in> set fs"
  by (induction fs rule: fds_of.induct) auto

lemma qemu_steps_plan:
  assumes "qemu_steps hf j w rundir agent_fd lan_fd = ((hs, fds), Inr l)"
  shows "la_helpers l = hs \<and> set fds \<subseteq> set (la_pass_fds l) \<and>
    set (la_pass_fds l) \<subseteq> set fds \<union> {agent_fd} \<union> set_option lan_fd"
proof -
  have opt: "set (fds_of (x # xs)) = set_option x \<union> set (fds_of xs)" for x xs by (cases x) auto
  show ?thesis using assms unfolding qemu_steps_def
    by (auto simp: Let_def and_then_Inr opt simp del: fds_of.simps(2,3) split: prod.splits sum.splits)
qed

lemma qemu_launch_failed:
  assumes "qemu_launch hf j w rundir agent_fd lan_fd h = (Inl e, h')"
    and "qemu_steps hf j w rundir agent_fd lan_fd = ((hs, fds), r)"
    and "set hs \<inter> hr_running h = {}" and "set fds \<inter> hr_fds h = {}"
  shows "h' = h"
proof -
  have "r = Inl e" and h': "h' = \<lparr>hr_running = hr_running h \<union> set hs - set hs, hr_fds = hr_fds h \<union> set fds - set fds\<rparr>"
    using assms(1,2) by (auto simp: qemu_launch_def Let_def split: sum.splits)
  moreover have "hr_running h \<union> set hs - set hs = hr_running h" "hr_fds h \<union> set fds - set fds = hr_fds h"
    using assms(3,4) by blast+
  ultimately show ?thesis by simp
qed

section \<open>Containers\<close>

record container_world =
  kw_probe :: probe_world
  kw_setuid :: bool
  kw_python :: string
  kw_pid :: nat
  kw_pythonpath :: string

text \<open>\<open>_pasta_forwards\<close>: no more than passt would forward.\<close>

definition pasta_forwards :: "string list \<Rightarrow> string list" where
  "pasta_forwards args =
     args @ [''--tcp-ns'', ''none'', ''--udp-ns'', ''none''] @
     concat (map (\<lambda>flag. if flag \<in> set args then [] else [flag, ''none'']) [''--tcp-ports'', ''--udp-ports''])"

definition no_host :: "missing list \<Rightarrow> launch_error" where
  "no_host ms = Backend_error (''this host cannot run a container guest:'' @ [LF] @
     join [LF] (map (\<lambda>m. ''  '' @ missing_text m) ms))"

definition value_error :: "string + 'a \<Rightarrow> launch_error + 'a" where
  "value_error r = (case r of Inl e \<Rightarrow> Inl (Raised_error e) | Inr x \<Rightarrow> Inr x)"

text \<open>The ids of the guest: the runner's own where it is root with enough of them, or the user's ranges.\<close>

definition guest_ranges :: "probe_world \<Rightarrow> launch_error + (id_range option \<times> id_range option)" where
  "guest_ranges p =
     (if owns_ids p then Inr (None, None)
      else and_then (value_error (subordinate (pw_subuid p) (pw_user p) (pw_uid p))) (\<lambda>u.
           and_then (value_error (subordinate (pw_subgid p) (pw_user p) (pw_uid p))) (\<lambda>g.
             if u = None \<or> g = None then Inl (Raised_error ''AssertionError'') else Inr (u, g))))"

definition container_argv ::
  "host_facts \<Rightarrow> guest_job \<Rightarrow> container_world \<Rightarrow> string \<Rightarrow> nat option \<Rightarrow> string list \<Rightarrow> string list" where
  "container_argv hf j kw rundir lan_fd fwd =
     (let spec = gj_spec j; tools = gj_tools j; p = kw_probe kw;
          tun = (lan_fd \<noteq> None \<or> pw_tap p = None) in
      (if needs_scope p then (case scope p of None \<Rightarrow> [] | Some prefix' \<Rightarrow> prefix') else []) @
      [kw_python kw, ''-m'', ''uml_runner.crun_launch'', ''run'', ''--crun'', opt_str (tc_crun tools),
       ''--state'', rundir @ ''/crun'', ''--bundle'', rundir @ ''/bundle'',
       ''--name'', ''uml-'' @ mp_name spec @ ''-'' @ show_nat (kw_pid kw)] @
      (case lan_fd of None \<Rightarrow> []
       | Some fd \<Rightarrow> [''--lan-fd'', show_nat fd, ''--mtu'', show_int (mp_mtu spec), ''--mac'', machine_mac spec 1]) @
      (if tun then
         [''--pasta-log'', rundir @ ''/passt.log'', ''--'', path_parent (tc_passt tools) @ ''/pasta'',
          ''--foreground'', ''--ns-ifname'', ''vec0''] @
         uplink_args (hf_dns hf) (gj_offline j) @ pasta_forwards fwd
       else []))"

text \<open>\<open>Container.launch\<close>: the plan, and the configuration it writes for crun.\<close>

definition container_launch ::
  "host_facts \<Rightarrow> guest_job \<Rightarrow> container_world \<Rightarrow> string \<Rightarrow> nat option \<Rightarrow> launch_error + launch_plan \<times> oci_args" where
  "container_launch hf j kw rundir lan_fd =
     (let spec = gj_spec j; p = kw_probe kw in
      and_then (value_error (probe p (lan_fd \<noteq> None))) (\<lambda>ms.
        if ms \<noteq> [] then Inl (no_host ms)
        else if mp_image spec = None then
          Inl (Backend_error (mp_name spec @ '': this guest has no root template''))
        else
        (case socket_dir hf rundir ''agent/sock'' None of (sockets, cleanup) \<Rightarrow>
          and_then (guest_ranges p) (\<lambda>(subuid, subgid).
          and_then (boot_value (mp_boot spec) ''toplevel'') (\<lambda>top_level.
          and_then (forward_args hf j) (\<lambda>fwd.
            Inr (\<lparr>la_argv = container_argv hf j kw rundir lan_fd fwd,
                   la_pass_fds = fds_of [lan_fd], la_env = [(''PYTHONPATH'', kw_pythonpath kw)],
                   la_helpers = [], la_memory = None, la_pid_file = None, la_cleanup = cleanup,
                   la_agent_path = Some (sockets @ ''/agent/sock'')\<rparr>,
                 \<lparr>oc_hostname = mp_name spec, oc_init = top_level @ ''/init'',
                   oc_setpriv = opt_str (tc_setpriv (gj_tools j)), oc_rootfs = rundir @ ''/root'',
                   oc_store = mp_store spec, oc_agent_dir = sockets @ ''/agent'', oc_artifacts = gj_artifacts j,
                   oc_uid = pw_uid p, oc_gid = pw_gid p, oc_subuid = subuid, oc_subgid = subgid,
                   oc_writable_store = store_is_one_mount (hf_mountinfo hf) (mp_store spec)\<rparr>)))))))"

text \<open>\<open>get\<close>, the backend a spec names.\<close>

datatype backend = Uml | Qemu | Container_guest

definition backends :: "(string \<times> backend) list" where
  "backends = [(''uml'', Uml), (''qemu'', Qemu), (''container'', Container_guest)]"

definition get_backend :: "string \<Rightarrow> string + backend" where
  "get_backend name =
     (case map_of backends name of
        Some b \<Rightarrow> Inr b
      | None \<Rightarrow> Inl (''no backend '' @ py_repr name @ ''; have '' @
          join '', '' (sort_by str_le (map fst backends))))"

text \<open>\<open>Uml.memory_control\<close>: the client's socket is beside the guest's.\<close>

definition with_name :: "string \<Rightarrow> string \<Rightarrow> string" where
  "with_name p name = path_parent p @ ''/'' @ name"

definition memory_client :: "string \<Rightarrow> string" where
  "memory_client p = with_name p ''client''"

lemma pasta_forwards_closed:
  "flag \<in> {''--tcp-ports'', ''--udp-ports''} \<Longrightarrow> flag \<in> set (pasta_forwards args)"
  by (auto simp: pasta_forwards_def)

lemma pasta_forwards_namespace: "sublist [''--tcp-ns'', ''none'', ''--udp-ns'', ''none''] (pasta_forwards args)"
  unfolding pasta_forwards_def by (rule sublist_appendI)

text \<open>A guest that is launched has the ids of its ranges, each as long as the mapping needs.\<close>

lemma container_launch_ranges:
  assumes "container_launch hf j kw rundir lan_fd = Inr (l, a)"
  shows "oc_uid a = pw_uid (kw_probe kw) \<and> oc_gid a = pw_gid (kw_probe kw) \<and>
    (if owns_ids (kw_probe kw) then oc_subuid a = None \<and> oc_subgid a = None
     else \<exists>u g. oc_subuid a = Some u \<and> oc_subgid a = Some g \<and>
       subordinate (pw_subuid (kw_probe kw)) (pw_user (kw_probe kw)) (pw_uid (kw_probe kw)) = Inr (Some u) \<and>
       subordinate (pw_subgid (kw_probe kw)) (pw_user (kw_probe kw)) (pw_uid (kw_probe kw)) = Inr (Some g) \<and>
       SUBORDINATE_IDS \<le> ir_count u \<and> SUBORDINATE_IDS \<le> ir_count g)"
proof -
  let ?p = "kw_probe kw"
  obtain subuid subgid where p: "probe ?p (lan_fd \<noteq> None) = Inr []" "guest_ranges ?p = Inr (subuid, subgid)"
    and a: "oc_uid a = pw_uid ?p" "oc_gid a = pw_gid ?p" "oc_subuid a = subuid" "oc_subgid a = subgid"
    using assms unfolding container_launch_def Let_def
    by (auto simp: and_then_Inr value_error_def split: prod.splits if_splits sum.splits)
  show ?thesis
  proof (cases "owns_ids ?p")
    case True
    with p a show ?thesis by (simp add: guest_ranges_def)
  next
    case False
    with probe_ranges_enough [OF p(1)] obtain u g where u:
      "subordinate (pw_subuid ?p) (pw_user ?p) (pw_uid ?p) = Inr (Some u)" "enough (Some u)"
      "subordinate (pw_subgid ?p) (pw_user ?p) (pw_uid ?p) = Inr (Some g)" "enough (Some g)" by blast
    from p(2) False u have "subuid = Some u" "subgid = Some g"
      by (simp_all add: guest_ranges_def value_error_def)
    moreover from u have "SUBORDINATE_IDS \<le> ir_count u" "SUBORDINATE_IDS \<le> ir_count g"
      by (simp_all add: enough_def)
    ultimately show ?thesis using False a u by simp
  qed
qed

section \<open>Property\<close>

text \<open>\<open>/etc/subuid\<close> or \<open>/etc/subgid\<close> grants the user a host id: some line of it has a range with the id in it.\<close>

definition granted :: "string option \<Rightarrow> string \<Rightarrow> int \<Rightarrow> int \<Rightarrow> bool" where
  "granted contents user uid h \<longleftrightarrow>
     (\<exists>s. contents = Some s \<and> (\<exists>l\<in>set (splitlines s). \<exists>who a b first n.
        split_on (CHR '':'') (strip l) = [who, a, b] \<and> (who = user \<or> who = show_int uid) \<and>
        py_int a = Some first \<and> py_int b = Some n \<and> first \<le> h \<and> h < first + n))"

lemma mapping_granted:
  assumes "subordinate contents user uid = Inr (Some r)" and "SUBORDINATE_IDS \<le> ir_count r"
    and "host_id (mapping host r) c = Some h"
  shows "h = host \<or> granted contents user uid h"
  using subordinate_found [OF assms(1)] mapping_hosts [OF assms(3)] assms(2) unfolding granted_def by fastforce

text \<open>
  C40: a container guest gets no host id that is not the user's to give. When a launch without root
  goes ahead, every user and group id of the guest, from 0 to 65536, stands for a host id, and that
  is the runner's own or one that \<open>/etc/subuid\<close> (\<open>/etc/subgid\<close>) grants the user; no other id of
  the guest stands for any.
\<close>

theorem guest_ids_granted:
  assumes "container_launch hf j kw rundir lan_fd = Inr (l, a)" and "\<not> owns_ids (kw_probe kw)"
  shows "\<exists>us gs. id_mappings a = [(''uidMappings'', mapping_json us), (''gidMappings'', mapping_json gs)] \<and>
    (\<forall>c. (host_id us c \<noteq> None \<longleftrightarrow> 0 \<le> c \<and> c \<le> SUBORDINATE_IDS) \<and>
         (host_id gs c \<noteq> None \<longleftrightarrow> 0 \<le> c \<and> c \<le> SUBORDINATE_IDS)) \<and>
    (\<forall>c h. host_id us c = Some h \<longrightarrow> h = pw_uid (kw_probe kw) \<or>
       granted (pw_subuid (kw_probe kw)) (pw_user (kw_probe kw)) (pw_uid (kw_probe kw)) h) \<and>
    (\<forall>c h. host_id gs c = Some h \<longrightarrow> h = pw_gid (kw_probe kw) \<or>
       granted (pw_subgid (kw_probe kw)) (pw_user (kw_probe kw)) (pw_uid (kw_probe kw)) h)"
proof -
  from container_launch_ranges [OF assms(1)] assms(2) obtain u g where
    ids: "oc_uid a = pw_uid (kw_probe kw)" "oc_gid a = pw_gid (kw_probe kw)" "oc_subuid a = Some u" "oc_subgid a = Some g"
    and u: "subordinate (pw_subuid (kw_probe kw)) (pw_user (kw_probe kw)) (pw_uid (kw_probe kw)) = Inr (Some u)"
      "SUBORDINATE_IDS \<le> ir_count u"
    and g: "subordinate (pw_subgid (kw_probe kw)) (pw_user (kw_probe kw)) (pw_uid (kw_probe kw)) = Inr (Some g)"
      "SUBORDINATE_IDS \<le> ir_count g" by auto
  have dom: "host_id (mapping host r) c \<noteq> None \<longleftrightarrow> 0 \<le> c \<and> c \<le> SUBORDINATE_IDS" for host r c
    by (auto simp: mapping_def SUBORDINATE_IDS_def)
  show ?thesis
    by (rule exI [of _ "mapping (oc_uid a) u"], rule exI [of _ "mapping (oc_gid a) g"])
      (use ids dom mapping_granted [OF u] mapping_granted [OF g] in \<open>simp add: id_mappings_def\<close>)
qed

definition demo_probe :: probe_world where
  "demo_probe = \<lparr>pw_uid = 1000, pw_gid = 100, pw_user = ''ann'', pw_uid_map = None,
     pw_subuid = Some ''ann:100000:65536'', pw_subgid = Some ''ann:100000:65536'', pw_userns = True,
     pw_tap = None, pw_cgroup = True, pw_systemd_run = None, pw_scoped_cgroup = False,
     pw_map = (\<lambda>helper host extra. None)\<rparr>"

definition demo_job :: guest_job where
  "demo_job = \<lparr>gj_spec = \<lparr> mp_name = ''one'', mp_backend = ''container'', mp_index = 0, mp_image = Some ''/img'',
       mp_memory = ''128M'', mp_seccomp = ''auto'', mp_cpus = 1, mp_ssh_port = 4325, mp_mtu = 65000,
       mp_network = None, mp_address = None, mp_store = ''/nix'',
       mp_boot = [(''toplevel'', JStr ''/nix/store/sys'')], mp_forward = [] \<rparr>,
     gj_tools = \<lparr>tc_passt = ''/bin/passt'', tc_kernel = None, tc_bridge = None, tc_qemu = None, tc_qemu_img = None,
       tc_virtiofsd = None, tc_crun = Some ''/bin/crun'', tc_setpriv = Some ''/bin/setpriv''\<rparr>,
     gj_artifacts = None, gj_offline = True, gj_forward = []\<rparr>"

definition demo_facts :: host_facts where
  "demo_facts = \<lparr>hf_start = 1024, hf_ephemeral = (32768, 60999), hf_dns = None, hf_path = ''/bin'',
     hf_mountinfo = None, hf_room = (\<lambda>d. None), hf_exec = (\<lambda>d. True), hf_fresh = ''x''\<rparr>"

definition demo_container :: container_world where
  "demo_container = \<lparr>kw_probe = demo_probe, kw_setuid = True, kw_python = ''python3'', kw_pid = 7, kw_pythonpath = ''/lib''\<rparr>"

lemma demo_range:
  "py_int ''65536'' = Some 65536" "py_int ''100000'' = Some 100000"
  "splitlines ''ann:100000:65536'' = [''ann:100000:65536'']" "strip ''ann:100000:65536'' = ''ann:100000:65536''"
  by (simp_all add: py_int_def strip_def lstrip_def rstrip_def is_space_def is_digit_def digit_val_def read_nat_def
      splitlines_def is_line_break_def)

lemma demo_subordinate:
  "subordinate (Some ''ann:100000:65536'') ''ann'' 1000 = Inr (Some \<lparr>ir_start = 100000, ir_count = 65536\<rparr>)"
  by (simp add: subordinate_def demo_range)

lemma demo_launches: "\<exists>l a. container_launch demo_facts demo_job demo_container ''/run/g'' None = Inr (l, a)"
proof -
  let ?r = "\<lparr>ir_start = 100000, ir_count = 65536\<rparr>"
  have p: "pw_subuid demo_probe = Some ''ann:100000:65536''" "pw_subgid demo_probe = Some ''ann:100000:65536''"
    "pw_user demo_probe = ''ann''" "pw_uid demo_probe = 1000" "\<not> owns_ids demo_probe"
    by (simp_all add: demo_probe_def owns_ids_def)
  have "probe_ranges demo_probe = Inr []"
    by (simp add: probe_ranges_def p demo_subordinate range_missing_def enough_def SUBORDINATE_IDS_def helper_missing_def)
      (simp add: demo_probe_def)
  then have "probe demo_probe False = Inr []"
    using p(5) by (simp add: probe_def tap_missing_def userns_missing_def cgroup_missing_def)
      (simp add: demo_probe_def)
  moreover have "guest_ranges demo_probe = Inr (Some ?r, Some ?r)"
    using p by (simp add: guest_ranges_def demo_subordinate value_error_def)
  moreover have "forward_args demo_facts demo_job = Inr []" "boot_value (mp_boot (gj_spec demo_job)) ''toplevel'' = Inr ''/nix/store/sys''"
    "mp_image (gj_spec demo_job) = Some ''/img''" "kw_probe demo_container = demo_probe"
    by (simp_all add: forward_args_def demo_job_def to_args_def of_forward_def boot_value_def demo_container_def)
  ultimately show ?thesis
    by (auto simp: container_launch_def Let_def value_error_def split: prod.splits)
qed

theorem guest_ids_granted_witness:
  "\<exists>a us. id_mappings a = us \<and> length us = 2 \<and>
     (\<exists>l. container_launch demo_facts demo_job demo_container ''/run/g'' None = Inr (l, a))"
proof -
  obtain l a where la: "container_launch demo_facts demo_job demo_container ''/run/g'' None = Inr (l, a)"
    using demo_launches by blast
  have "\<not> owns_ids (kw_probe demo_container)" by (simp add: owns_ids_def demo_container_def demo_probe_def)
  from guest_ids_granted [OF la this] la show ?thesis by fastforce
qed

end
