(* ===== verification/Machine.thy ===== *)
theory Machine
  imports Boot Backend
begin

text \<open>
  \<^verbatim>\<open>src/pkgs/uml-runner/uml_runner/machine.py\<close>: one guest from \<open>start\<close> to \<open>shutdown\<close>, its console, and
  the commands sent to its agent. A \<open>machine\<close> holds the attributes of the class and, beside them, what
  the guest takes of the host: the processes that run for it, its open descriptors and its
  directories. What the backend, the kernel and the guest answer is data.
\<close>

record machine =
  ma_spec :: machine_spec
  ma_rundir :: "string option"
  ma_pid :: "nat option"
  ma_group :: "nat set"
  ma_exit :: "int option"
  ma_pumping :: bool
  ma_history :: "string list"
  ma_queue :: "string list"
  ma_agent_sock :: "nat option"
  ma_guest_sock :: "nat option"
  ma_conn :: "nat option"
  ma_conn_closed :: bool
  ma_helpers :: "nat list"
  ma_spare :: "nat list"
  ma_memory :: bool
  ma_pid_file :: "string option"
  ma_cleanup :: "string list"
  ma_log :: "string list"
  ma_asked :: "(string \<times> seconds) list"
  ma_report :: report
  ma_now :: seconds
  ma_running :: "nat set"
  ma_fds :: "nat set"
  ma_dirs :: "string set"

definition new_machine :: "machine_spec \<Rightarrow> seconds \<Rightarrow> machine" where
  "new_machine spec now =
     \<lparr>ma_spec = spec, ma_rundir = None, ma_pid = None, ma_group = {}, ma_exit = None, ma_pumping = False,
      ma_history = [], ma_queue = [], ma_agent_sock = None, ma_guest_sock = None, ma_conn = None,
      ma_conn_closed = False, ma_helpers = [], ma_spare = [], ma_memory = False, ma_pid_file = None,
      ma_cleanup = [], ma_log = [], ma_asked = [], ma_report = new_report now, ma_now = now,
      ma_running = {}, ma_fds = {}, ma_dirs = {}\<rparr>"

abbreviation ma_name :: "machine \<Rightarrow> string" where "ma_name m \<equiv> mp_name (ma_spec m)"

definition tagged :: "machine \<Rightarrow> string \<Rightarrow> string" where
  "tagged m message = ''['' @ ma_name m @ ''] '' @ message"

definition log_line :: "string \<Rightarrow> machine \<Rightarrow> machine" where
  "log_line message m = m\<lparr>ma_log := ma_log m @ [message]\<rparr>"

section \<open>start\<close>

text \<open>
  What the outside answers a start: the run directory and socket pair, the backend's plan, the pid
  and its process group or why nothing was spawned, how the wait for the agent ended, and for a
  guest without a serial line the descriptor of a new socket and whether it connects.
\<close>

datatype readiness = Ready seconds | No_agent | Exited_early

record start_world =
  aw_rundir :: string
  aw_socks :: "nat \<times> nat"
  aw_plan :: "launch_error + launch_plan"
  aw_spawn :: "exn + nat \<times> nat set"
  aw_ready :: readiness
  aw_agent_fd :: nat
  aw_connects :: bool

definition launch_exn :: "machine \<Rightarrow> launch_error \<Rightarrow> exn" where
  "launch_exn m e =
     (case e of Backend_error t \<Rightarrow> MachineError (tagged m t) | Forward_failed f \<Rightarrow> fault f | Raised_error n \<Rightarrow> Exn n [])"

definition start_prepare :: "start_world \<Rightarrow> machine \<Rightarrow> machine" where
  "start_prepare w m =
     m\<lparr>ma_rundir := Some (aw_rundir w), ma_agent_sock := Some (fst (aw_socks w)),
       ma_guest_sock := Some (snd (aw_socks w)),
       ma_dirs := insert (aw_rundir w) (ma_dirs m),
       ma_fds := ma_fds m \<union> {fst (aw_socks w), snd (aw_socks w)}\<rparr>"

definition start_adopt :: "start_world \<Rightarrow> nat option \<Rightarrow> launch_plan \<Rightarrow> machine \<Rightarrow> machine" where
  "start_adopt w lan_fd plan m =
     (let spare = filter (\<lambda>fd. fd \<noteq> snd (aw_socks w) \<and> Some fd \<noteq> lan_fd) (la_pass_fds plan) in
      log_line (''exec: '' @ join '' '' (la_argv plan))
        (m\<lparr>ma_helpers := la_helpers plan, ma_cleanup := la_cleanup plan, ma_pid_file := la_pid_file plan,
           ma_memory := (if la_memory plan \<noteq> None then True else ma_memory m), ma_spare := spare,
           ma_running := ma_running m \<union> set (la_helpers plan), ma_fds := ma_fds m \<union> set spare,
           ma_dirs := ma_dirs m \<union> set (la_cleanup plan)\<rparr>))"

definition start_spawned :: "nat \<Rightarrow> nat set \<Rightarrow> machine \<Rightarrow> machine" where
  "start_spawned pid grp m =
     m\<lparr>ma_pid := Some pid, ma_group := insert pid grp, ma_exit := None,
       ma_running := ma_running m \<union> insert pid grp,
       ma_fds := ma_fds m - set (ma_spare m), ma_spare := [], ma_pumping := True\<rparr>"

definition start_booted :: "seconds \<Rightarrow> machine \<Rightarrow> machine" where
  "start_booted secs m =
     (let m1 = log_line (''up in '' @ fixed 1 secs @ ''s'') m in
      m1\<lparr>ma_report := report_booted (ma_now m1) (ma_name m1) secs
           [(''backend'', JStr (mp_backend (ma_spec m1))), (''cpus'', JInt (mp_cpus (ma_spec m1))),
            (''memory'', JStr (mp_memory (ma_spec m1)))] (ma_report m1)\<rparr>)"

definition close_fd :: "nat option \<Rightarrow> machine \<Rightarrow> machine" where
  "close_fd fd m = m\<lparr>ma_fds := ma_fds m - set_option fd\<rparr>"

definition start_connect :: "start_world \<Rightarrow> launch_plan \<Rightarrow> machine \<Rightarrow> exn option \<times> machine" where
  "start_connect w plan m =
     (let m1 = (if la_agent_path plan = None then m
                else (let m0 = close_fd (ma_agent_sock m) m
                      in m0\<lparr>ma_agent_sock := Some (aw_agent_fd w), ma_fds := insert (aw_agent_fd w) (ma_fds m0)\<rparr>))
      in if la_agent_path plan \<noteq> None \<and> \<not> aw_connects w then (Some (Exn ''ConnectionRefusedError'' []), m1)
         else (None, (close_fd (ma_guest_sock m1) m1)
                \<lparr>ma_conn := ma_agent_sock m1, ma_conn_closed := False, ma_agent_sock := None, ma_guest_sock := None\<rparr>))"

definition AGENT_READY :: string where "AGENT_READY = ''uml-agent: ready''"

text \<open>\<open>f"{x:g}"\<close> of a deadline in seconds: no point after a whole number.\<close>

definition format_g :: "seconds \<Rightarrow> string" where
  "format_g x = (if x = of_int \<lfloor>x\<rfloor> then show_int \<lfloor>x\<rfloor> else show_float x)"

definition start_ready :: "start_world \<Rightarrow> seconds \<Rightarrow> launch_plan \<Rightarrow> machine \<Rightarrow> exn option \<times> machine" where
  "start_ready w boot_timeout plan m =
     (case aw_ready w of
        No_agent \<Rightarrow> (Some (MachineError (tagged m (''agent did not come up within '' @ format_g boot_timeout @ ''s''))), m)
      | Exited_early \<Rightarrow> (Some (MachineError (tagged m (''guest exited while waiting for '' @ py_repr AGENT_READY))), m)
      | Ready secs \<Rightarrow> start_connect w plan (start_booted secs m))"

definition machine_start :: "start_world \<Rightarrow> nat option \<Rightarrow> seconds \<Rightarrow> machine \<Rightarrow> exn option \<times> machine" where
  "machine_start w lan_fd boot_timeout m =
     (if ma_pid m \<noteq> None then (None, m)
      else (let m1 = start_prepare w m in
        case aw_plan w of
          Inl e \<Rightarrow> (Some (launch_exn m1 e), m1)
        | Inr plan \<Rightarrow>
           (let m2 = start_adopt w lan_fd plan m1 in
            case aw_spawn w of
              Inl e \<Rightarrow> (Some e, m2)
            | Inr (pid, grp) \<Rightarrow> start_ready w boot_timeout plan (start_spawned pid grp m2))))"

section \<open>The process\<close>

text \<open>\<open>_running\<close>, from \<open>/proc/<pid>/stat\<close>: there, and neither a zombie nor dead.\<close>

definition stat_running :: "string option \<Rightarrow> bool" where
  "stat_running contents =
     (case contents of None \<Rightarrow> False
      | Some s \<Rightarrow> (case py_rpartition (CHR '')'') s of (_, _, rest) \<Rightarrow>
          (case py_split rest of [] \<Rightarrow> False | st # _ \<Rightarrow> st \<notin> {''Z'', ''X''})))"

text \<open>\<open>_guest_pid\<close>; \<open>read\<close> is what the pid file says, \<^const>\<open>None\<close> if it cannot be read.\<close>

definition guest_pid :: "(string \<Rightarrow> string option) \<Rightarrow> machine \<Rightarrow> nat option" where
  "guest_pid read m =
     (case ma_pid m of None \<Rightarrow> None
      | Some pid \<Rightarrow>
         (case ma_pid_file m of None \<Rightarrow> Some pid
          | Some f \<Rightarrow> (case read f of None \<Rightarrow> None | Some s \<Rightarrow> map_option nat (py_int (strip s)))))"

definition alive :: "(string \<Rightarrow> string option) \<Rightarrow> machine \<Rightarrow> bool" where
  "alive read m = (case guest_pid read m of None \<Rightarrow> False | Some pid \<Rightarrow> pid \<in> ma_running m)"

text \<open>The process group ends; the connection sees the end of its stream and closes.\<close>

definition process_ends :: "int \<Rightarrow> machine \<Rightarrow> machine" where
  "process_ends code m =
     m\<lparr>ma_exit := Some code, ma_running := ma_running m - ma_group m,
       ma_fds := ma_fds m - set_option (ma_conn m), ma_conn_closed := True\<rparr>"

definition is_up :: "machine \<Rightarrow> bool" where
  "is_up m = (ma_pid m \<noteq> None \<and> ma_exit m = None)"

text \<open>\<open>_reap\<close>: which of \<open>SIGTERM\<close> and \<open>SIGKILL\<close> end the process within their grace.\<close>

definition reap :: "bool \<Rightarrow> bool \<Rightarrow> machine \<Rightarrow> machine" where
  "reap term_ends kill_ends m =
     (if \<not> is_up m then m
      else if term_ends then process_ends (- 15) m
      else if kill_ends then process_ends (- 9) m
      else log_line ''process would not die'' m)"

text \<open>\<open>crash\<close>: the group and the guest's own pid are killed; the polls say whether it is still there.\<close>

definition crash :: "(string \<Rightarrow> string option) \<Rightarrow> bool list \<Rightarrow> machine \<Rightarrow> exn option \<times> machine" where
  "crash read still_there m =
     (if ma_pid m = None then (Some (MachineError (tagged m ''not started'')), m)
      else (let pid = guest_pid read m; m1 = (if is_up m then process_ends (- 9) m else m) in
        if False \<in> set (take 50 still_there)
        then (None, m1\<lparr>ma_running := ma_running m1 - set_option pid\<rparr>)
        else (Some (MachineError (tagged m (''pid '' @ (case pid of None \<Rightarrow> ''None'' | Some p \<Rightarrow> show_nat p) @
               '' survived SIGKILL''))), m1)))"

text \<open>\<open>wait\<close>: the exit code, or \<open>-1\<close> after a \<open>SIGTERM\<close> when the deadline passes.\<close>

definition wait_exit :: "int option \<Rightarrow> machine \<Rightarrow> (exn + int) \<times> machine" where
  "wait_exit exits m =
     (if ma_pid m = None then (Inl (MachineError (tagged m ''not started'')), m)
      else (case ma_exit m of
          Some code \<Rightarrow> (Inr code, m)
        | None \<Rightarrow> (case exits of Some code \<Rightarrow> (Inr code, process_ends code m) | None \<Rightarrow> (Inr (- 1), m))))"

section \<open>The console\<close>

definition console_line :: "(string \<Rightarrow> string) \<Rightarrow> string \<Rightarrow> machine \<Rightarrow> machine" where
  "console_line decode raw m =
     (let line = strip_ansi (rstrip (decode raw)) in
      if line = [] then m
      else (log_line line m)\<lparr>ma_history := last_n CONSOLE_HISTORY (ma_history m @ [line]),
                             ma_queue := ma_queue m @ [line]\<rparr>)"

text \<open>\<open>_pump_console\<close>: \<^const>\<open>None\<close> is a line over the stream's limit, which is skipped.\<close>

fun pump_console :: "(string \<Rightarrow> string) \<Rightarrow> string option list \<Rightarrow> machine \<Rightarrow> machine" where
  "pump_console decode [] m = m"
| "pump_console decode (None # ls) m = pump_console decode ls m"
| "pump_console decode (Some raw # ls) m =
     (if raw = [] then m else pump_console decode ls (console_line decode raw m))"

text \<open>
  \<open>_wait_for_line\<close>: a line of the past, or one that comes off the queue; half a second without one ends
  the wait if the process has exited. \<^const>\<open>None\<close> while it still waits.
\<close>

datatype heard = Line string | Silence bool

fun next_line :: "(string \<Rightarrow> bool) \<Rightarrow> heard list \<Rightarrow> (unit + string) option" where
  "next_line matches [] = None"
| "next_line matches (Line l # hs) = (if matches l then Some (Inr l) else next_line matches hs)"
| "next_line matches (Silence exited # hs) = (if exited then Some (Inl ()) else next_line matches hs)"

definition wait_for_line :: "(string \<Rightarrow> bool) \<Rightarrow> string \<Rightarrow> heard list \<Rightarrow> machine \<Rightarrow> (exn + string) option" where
  "wait_for_line matches pattern hs m =
     (case find matches (ma_history m) of
        Some l \<Rightarrow> Some (Inr l)
      | None \<Rightarrow>
         (case next_line matches hs of
            None \<Rightarrow> None
          | Some (Inr l) \<Rightarrow> Some (Inr l)
          | Some (Inl _) \<Rightarrow> Some (Inl (MachineError (tagged m (''guest exited while waiting for '' @ py_repr pattern))))))"

section \<open>Commands\<close>

text \<open>How one call of the agent ends: \<open>_ask\<close> gives silence and an end of the stream names of their own.\<close>

datatype 'a answered = Answer 'a | No_answer | Went_away | Call_raised exn

definition console_tail :: "nat \<Rightarrow> machine \<Rightarrow> string" where
  "console_tail n m =
     (let t = join [LF] (map (\<lambda>l. ''    | '' @ l) (last_n n (ma_history m)))
      in if t = [] then ''    | (silent)'' else t)"

definition ask :: "string \<Rightarrow> 'a answered \<Rightarrow> seconds \<Rightarrow> machine \<Rightarrow> (exn + 'a) \<times> machine" where
  "ask what ans took m =
     (let m1 = m\<lparr>ma_now := ma_now m + took\<rparr>;
          m2 = m1\<lparr>ma_report := report_step (ma_now m1) (ma_name m) ''rpc'' what took (ma_report m1),
                  ma_asked := ma_asked m1 @ [(what, took)]\<rparr>
      in ((case ans of
             Answer v \<Rightarrow> Inr v
           | No_answer \<Rightarrow> Inl (MachineError (tagged m (''guest stopped answering during: '' @ what @ [LF] @ console_tail 15 m)))
           | Went_away \<Rightarrow> Inl (MachineError (tagged m (''guest went away during: '' @ what @ [LF] @ console_tail 15 m)))
           | Call_raised e \<Rightarrow> Inl e), m2))"

text \<open>\<open>_agent\<close>: without a connection no call is made, and none recorded.\<close>

definition ask_agent :: "string \<Rightarrow> 'a answered \<Rightarrow> seconds \<Rightarrow> machine \<Rightarrow> (exn + 'a) \<times> machine" where
  "ask_agent what ans took m =
     (if ma_conn m = None then (Inl (MachineError (tagged m ''agent is not connected'')), m)
      else ask what ans took m)"

definition execute_command ::
  "string \<Rightarrow> string option \<Rightarrow> (int \<times> string) answered \<Rightarrow> seconds \<Rightarrow> machine \<Rightarrow> (exn + int \<times> string) \<times> machine" where
  "execute_command command label ans took m =
     ask_agent (case label of None \<Rightarrow> command | Some l \<Rightarrow> if l = [] then command else l) ans took m"

definition succeed ::
  "string \<Rightarrow> (int \<times> string) answered \<Rightarrow> seconds \<Rightarrow> machine \<Rightarrow> (exn + string) \<times> machine" where
  "succeed command ans took m =
     (case execute_command command None ans took m of
        (Inl e, m') \<Rightarrow> (Inl e, m')
      | (Inr (rc, out), m') \<Rightarrow>
          (if rc \<noteq> 0 then Inl (MachineError (tagged m (''command failed (exit '' @ show_int rc @ ''): '' @ command @ [LF] @ out)))
           else Inr out, m'))"

definition fail_command ::
  "string \<Rightarrow> (int \<times> string) answered \<Rightarrow> seconds \<Rightarrow> machine \<Rightarrow> (exn + string) \<times> machine" where
  "fail_command command ans took m =
     (case execute_command command None ans took m of
        (Inl e, m') \<Rightarrow> (Inl e, m')
      | (Inr (rc, out), m') \<Rightarrow>
          (if rc = 0 then Inl (MachineError (tagged m (''command unexpectedly succeeded: '' @ command @ [LF] @ out)))
           else Inr out, m'))"

text \<open>\<open>count_processes\<close>, over the name and the command line of each process.\<close>

definition count_processes :: "string \<Rightarrow> (string \<times> string) list \<Rightarrow> nat" where
  "count_processes pattern ps = length (filter (\<lambda>(n, c). contains pattern n \<or> contains pattern c) ps)"

text \<open>
  \<open>_wait_for_unit\<close>: the state each poll answered and the time after it; \<open>journal\<close> is what the journal
  said when it was asked for. \<^const>\<open>None\<close> while it still waits.
\<close>

fun wait_for_unit ::
  "machine \<Rightarrow> string \<Rightarrow> seconds \<Rightarrow> exn + string \<Rightarrow> ((exn + string) \<times> seconds) list \<Rightarrow> (exn + unit) option" where
  "wait_for_unit m unit_name deadline journal [] = None"
| "wait_for_unit m unit_name deadline journal ((Inl e, now) # polls) = Some (Inl e)"
| "wait_for_unit m unit_name deadline journal ((Inr st, now) # polls) =
     (if st = ''active'' then Some (Inr ())
      else if st = ''failed'' then
        Some (case journal of Inl e \<Rightarrow> Inl e
              | Inr j \<Rightarrow> Inl (MachineError (tagged m (''unit '' @ unit_name @ '' failed:'' @ [LF] @ j))))
      else if now > deadline then
        Some (case journal of Inl e \<Rightarrow> Inl e
              | Inr j \<Rightarrow> Inl (MachineError (tagged m (''timed out waiting for unit '' @ unit_name @ '' (state: '' @ st @ '')'' @ [LF] @ j))))
      else wait_for_unit m unit_name deadline journal polls)"

section \<open>shutdown\<close>

record stop_world =
  zw_poweroff :: "(int \<times> string) answered"
  zw_took :: seconds
  zw_term_ends :: bool
  zw_kill_ends :: bool

text \<open>
  The polite part: only a guest that is alive is asked to power off, and only then is the connection
  closed here. What the call raises is passed over when it is an error of this class or of its bases.
\<close>

definition passed_over :: "exn \<Rightarrow> bool" where
  "passed_over e =
     (case e of Exn n _ \<Rightarrow> n \<in> set ([''MachineError'', ''EOFError'', ''IncompleteReadError''] @ OS_ERRORS)
      | Cancelled \<Rightarrow> False)"

definition goodbye_closed :: "machine \<Rightarrow> machine" where
  "goodbye_closed m = (close_fd (ma_conn m) m)\<lparr>ma_conn := None, ma_conn_closed := True\<rparr>"

definition say_goodbye :: "(string \<Rightarrow> string option) \<Rightarrow> stop_world \<Rightarrow> machine \<Rightarrow> exn option \<times> machine" where
  "say_goodbye read w m =
     (if ma_conn m \<noteq> None \<and> \<not> ma_conn_closed m \<and> alive read m
      then (case execute_command ''systemctl poweroff'' None (zw_poweroff w) (zw_took w) m of
              (Inr _, m1) \<Rightarrow> (None, goodbye_closed m1)
            | (Inl e, m1) \<Rightarrow> if passed_over e then (None, goodbye_closed m1) else (Some e, m1))
      else (None, m))"

definition let_go :: "stop_world \<Rightarrow> machine \<Rightarrow> machine" where
  "let_go w m =
     (let m2 = (close_fd (ma_guest_sock m) (close_fd (ma_agent_sock m) m))\<lparr>ma_agent_sock := None, ma_guest_sock := None\<rparr>;
          m3 = reap (zw_term_ends w) (zw_kill_ends w) m2;
          m4 = m3\<lparr>ma_running := ma_running m3 - set (ma_helpers m3), ma_helpers := []\<rparr>
      in m4\<lparr>ma_pumping := False, ma_memory := False,
            ma_dirs := ma_dirs m4 - set (ma_cleanup m4) - set_option (ma_rundir m4),
            ma_cleanup := [], ma_rundir := None\<rparr>)"

definition shutdown :: "(string \<Rightarrow> string option) \<Rightarrow> stop_world \<Rightarrow> machine \<Rightarrow> exn option \<times> machine" where
  "shutdown read w m =
     (case say_goodbye read w m of
        (Some e, m1) \<Rightarrow> (Some e, m1)
      | (None, m1) \<Rightarrow> (None, let_go w m1))"

section \<open>What a guest takes of the host\<close>

text \<open>
  Every process, descriptor and directory a guest has taken is one the machine knows of and will give
  back: \<open>accounted\<close>. The descriptors a plan opened for the child are among them only until the child
  is spawned.
\<close>

definition accounted :: "machine \<Rightarrow> bool" where
  "accounted m \<longleftrightarrow>
     ma_running m \<subseteq> set (ma_helpers m) \<union> (if is_up m then ma_group m else {}) \<and>
     ma_fds m \<subseteq> set_option (ma_agent_sock m) \<union> set_option (ma_guest_sock m) \<union> set (ma_spare m) \<union>
       (if ma_conn_closed m then {} else set_option (ma_conn m)) \<and>
     ma_dirs m \<subseteq> set (ma_cleanup m) \<union> set_option (ma_rundir m)"

definition idle :: "machine \<Rightarrow> bool" where
  "idle m \<longleftrightarrow> ma_running m = {} \<and> ma_fds m = {} \<and> ma_dirs m = {} \<and> ma_pid m = None \<and> ma_exit m = None \<and>
     ma_agent_sock m = None \<and> ma_guest_sock m = None \<and> ma_conn m = None \<and> ma_spare m = []"

lemma idle_new: "idle (new_machine spec now)"
  by (simp add: idle_def new_machine_def)

lemma log_line_fields [simp]:
  "ma_running (log_line l m) = ma_running m" "ma_fds (log_line l m) = ma_fds m" "ma_dirs (log_line l m) = ma_dirs m"
  "ma_helpers (log_line l m) = ma_helpers m" "ma_group (log_line l m) = ma_group m" "ma_pid (log_line l m) = ma_pid m"
  "ma_exit (log_line l m) = ma_exit m" "ma_agent_sock (log_line l m) = ma_agent_sock m"
  "ma_guest_sock (log_line l m) = ma_guest_sock m" "ma_spare (log_line l m) = ma_spare m"
  "ma_conn (log_line l m) = ma_conn m" "ma_conn_closed (log_line l m) = ma_conn_closed m"
  "ma_cleanup (log_line l m) = ma_cleanup m" "ma_rundir (log_line l m) = ma_rundir m"
  "ma_pid_file (log_line l m) = ma_pid_file m" "is_up (log_line l m) = is_up m"
  by (simp_all add: log_line_def is_up_def)

lemma accounted_log [simp]: "accounted (log_line l m) = accounted m"
  by (simp add: accounted_def)

lemma accounted_report [simp]: "accounted (m\<lparr>ma_report := r\<rparr>) = accounted m"
  by (simp add: accounted_def is_up_def)

lemma start_accounted:
  assumes "machine_start w lan_fd t m = (e, m')" and "idle m"
  shows "accounted m'"
proof -
  let ?m1 = "start_prepare w m"
  have m1: "accounted ?m1" "ma_pid ?m1 = None" "ma_conn ?m1 = None" "ma_spare ?m1 = []"
    using assms(2) by (auto simp: accounted_def start_prepare_def idle_def)
  have m2: "accounted (start_adopt w lan_fd plan ?m1)" for plan
    using assms(2) unfolding start_adopt_def Let_def accounted_log
    by (auto simp: accounted_def start_prepare_def idle_def is_up_def)
  have a: "ma_running (start_adopt w lan_fd plan ?m1) = set (ma_helpers (start_adopt w lan_fd plan ?m1))"
    "ma_conn (start_adopt w lan_fd plan ?m1) = None" for plan
    using assms(2) by (simp_all add: start_adopt_def Let_def start_prepare_def idle_def log_line_def)
  have m3: "accounted (start_spawned pid grp u) \<and> ma_conn (start_spawned pid grp u) = None"
    if "accounted u" "ma_running u = set (ma_helpers u)" "ma_conn u = None" for pid grp u
    using that by (auto simp: accounted_def start_spawned_def is_up_def split: if_splits)
  have m4: "accounted (snd (start_ready w t plan u))" if "accounted u" "ma_conn u = None" "ma_spare u = []" for u plan
  proof (cases "aw_ready w")
    case (Ready secs)
    let ?b = "start_booted secs u"
    have "accounted ?b" "ma_conn ?b = None" "ma_spare ?b = []"
      using that by (simp_all add: start_booted_def Let_def)
    then have "accounted (snd (start_connect w plan ?b))"
      by (auto simp: start_connect_def Let_def close_fd_def accounted_def is_up_def split: if_splits)
    with Ready show ?thesis by (simp add: start_ready_def)
  qed (use that in \<open>simp_all add: start_ready_def\<close>)
  show ?thesis
  proof (cases "aw_plan w")
    case (Inl x)
    with assms m1 show ?thesis by (simp add: machine_start_def Let_def idle_def)
  next
    case (Inr plan)
    note plan = this
    show ?thesis
    proof (cases "aw_spawn w")
      case (Inl x)
      with assms plan have "m' = start_adopt w lan_fd plan ?m1" by (simp add: machine_start_def Let_def idle_def)
      with m2 show ?thesis by simp
    next
      case (Inr pg)
      obtain pid grp where "pg = (pid, grp)" by force
      moreover have "ma_spare (start_spawned pid grp (start_adopt w lan_fd plan ?m1)) = []"
        by (simp add: start_spawned_def)
      ultimately have "m' = snd (start_ready w t plan (start_spawned pid grp (start_adopt w lan_fd plan ?m1)))"
        "accounted (snd (start_ready w t plan (start_spawned pid grp (start_adopt w lan_fd plan ?m1))))"
        using assms plan Inr m3 [OF m2 a, of pid grp plan] m4 [of "start_spawned pid grp (start_adopt w lan_fd plan ?m1)" plan]
        by (simp_all add: machine_start_def Let_def idle_def)
      then show ?thesis by simp
    qed
  qed
qed

lemma accounted_ask: "accounted (snd (ask what ans took m)) = accounted m"
  by (simp add: ask_def Let_def accounted_def is_up_def)

lemma ask_fields [simp]:
  "ma_running (snd (ask what ans took m)) = ma_running m" "ma_fds (snd (ask what ans took m)) = ma_fds m"
  "ma_dirs (snd (ask what ans took m)) = ma_dirs m" "ma_conn (snd (ask what ans took m)) = ma_conn m"
  "ma_conn_closed (snd (ask what ans took m)) = ma_conn_closed m" "ma_pid (snd (ask what ans took m)) = ma_pid m"
  "ma_pid_file (snd (ask what ans took m)) = ma_pid_file m" "ma_exit (snd (ask what ans took m)) = ma_exit m"
  "ma_spare (snd (ask what ans took m)) = ma_spare m" "ma_group (snd (ask what ans took m)) = ma_group m"
  "ma_helpers (snd (ask what ans took m)) = ma_helpers m" "ma_history (snd (ask what ans took m)) = ma_history m"
  "ma_agent_sock (snd (ask what ans took m)) = ma_agent_sock m" "ma_guest_sock (snd (ask what ans took m)) = ma_guest_sock m"
  "ma_cleanup (snd (ask what ans took m)) = ma_cleanup m" "ma_rundir (snd (ask what ans took m)) = ma_rundir m"
  by (simp_all add: ask_def Let_def)

lemma accounted_closed:
  "accounted m \<Longrightarrow> accounted (goodbye_closed m) \<and> is_up (goodbye_closed m) = is_up m \<and>
     ma_spare (goodbye_closed m) = ma_spare m \<and> ma_conn (goodbye_closed m) = None"
  by (auto simp: goodbye_closed_def close_fd_def accounted_def is_up_def split del: if_split split: if_splits)

lemma goodbye_keeps:
  assumes "say_goodbye read w m = (None, m1)" and "accounted m"
  shows "accounted m1 \<and> is_up m1 = is_up m \<and> ma_spare m1 = ma_spare m \<and> (m1 = m \<or> ma_conn m1 = None)"
proof (cases "ma_conn m \<noteq> None \<and> \<not> ma_conn_closed m \<and> alive read m")
  case True
  define m0 where "m0 = snd (ask ''systemctl poweroff'' (zw_poweroff w) (zw_took w) m)"
  have m0: "accounted m0" "is_up m0 = is_up m" "ma_spare m0 = ma_spare m"
    using assms(2) by (simp_all add: m0_def accounted_ask is_up_def)
  have "m1 = goodbye_closed m0"
    using assms(1) True
    by (auto simp: say_goodbye_def execute_command_def ask_agent_def m0_def split: prod.splits sum.splits if_splits)
  with accounted_closed [OF m0(1)] m0 show ?thesis by simp
next
  case False
  with assms show ?thesis by (auto simp: say_goodbye_def split: if_splits)
qed

text \<open>
  What is left after a shutdown whose signals work: no process, no directory, and of the descriptors
  at most those a plan had opened for a child that was never spawned.
\<close>

lemma let_go_leaves:
  assumes "accounted m" and "zw_term_ends w \<or> zw_kill_ends w"
    and "ma_conn m = None \<or> ma_conn_closed m \<or> is_up m"
  shows "ma_running (let_go w m) = {} \<and> ma_dirs (let_go w m) = {} \<and> ma_fds (let_go w m) \<subseteq> set (ma_spare m)"
proof -
  define m2 where "m2 = (close_fd (ma_guest_sock m) (close_fd (ma_agent_sock m) m))\<lparr>ma_agent_sock := None, ma_guest_sock := None\<rparr>"
  have m2: "accounted m2" "is_up m2 = is_up m" "ma_spare m2 = ma_spare m"
    "ma_agent_sock m2 = None" "ma_guest_sock m2 = None" "ma_conn m2 = None \<or> ma_conn_closed m2 \<or> is_up m2"
    using assms(1,3) by (auto simp: m2_def accounted_def close_fd_def is_up_def)
  define m3 where "m3 = reap (zw_term_ends w) (zw_kill_ends w) m2"
  have m3: "ma_running m3 \<subseteq> set (ma_helpers m3)" "ma_fds m3 \<subseteq> set (ma_spare m)"
    "ma_dirs m3 \<subseteq> set (ma_cleanup m3) \<union> set_option (ma_rundir m3)"
    using m2 assms(2) by (auto simp: m3_def reap_def process_ends_def accounted_def is_up_def split: if_splits)
  have "ma_running (let_go w m) = ma_running m3 - set (ma_helpers m3)"
    "ma_fds (let_go w m) = ma_fds m3"
    "ma_dirs (let_go w m) = ma_dirs m3 - set (ma_cleanup m3) - set_option (ma_rundir m3)"
    unfolding let_go_def Let_def m2_def [symmetric] m3_def [symmetric] by simp_all
  with m3 show ?thesis by auto
qed

lemma shutdown_leaves:
  assumes "shutdown read w m = (None, m')" and "accounted m" and "zw_term_ends w \<or> zw_kill_ends w"
    and "ma_conn m = None \<or> ma_conn_closed m \<or> is_up m"
  shows "ma_running m' = {} \<and> ma_dirs m' = {} \<and> ma_fds m' \<subseteq> set (ma_spare m)"
proof -
  from assms(1) obtain m1 where m1: "say_goodbye read w m = (None, m1)" and m': "m' = let_go w m1"
    by (auto simp: shutdown_def split: prod.splits option.splits)
  from goodbye_keeps [OF m1 assms(2)] assms(4) have "accounted m1" "ma_conn m1 = None \<or> ma_conn_closed m1 \<or> is_up m1"
    and s: "ma_spare m1 = ma_spare m" by auto
  from let_go_leaves [OF this(1) assms(3) this(2)] s m' show ?thesis by simp
qed

section \<open>Between start and shutdown\<close>

inductive life :: "machine \<Rightarrow> machine \<Rightarrow> bool" where
  asked: "ma_conn m \<noteq> None \<Longrightarrow> life m (snd (ask what (ans :: (int \<times> string) answered) took m))"
| heard: "life m (console_line decode raw m)"
| ended: "is_up m \<Longrightarrow> life m (process_ends code m)"
| crashed: "crash read polls m = (e, m') \<Longrightarrow> life m m'"
| waited: "wait_exit code m = (r, m') \<Longrightarrow> life m m'"

definition machine_started :: "machine \<Rightarrow> bool" where
  "machine_started m \<longleftrightarrow> (\<exists>w lan_fd t e m0. idle m0 \<and> machine_start w lan_fd t m0 = (e, m))"

definition life_ok :: "machine \<Rightarrow> bool" where
  "life_ok m \<longleftrightarrow> accounted m \<and> (ma_pid m = None \<longrightarrow> ma_conn m = None) \<and>
     (ma_exit m \<noteq> None \<longrightarrow> ma_conn_closed m) \<and> (ma_pid m \<noteq> None \<longrightarrow> ma_spare m = [])"

lemma start_fields:
  assumes "machine_start w lan_fd t m = (e, m')" and "idle m"
  shows "ma_exit m' = None \<and> (ma_pid m' = None \<longrightarrow> ma_conn m' = None) \<and> (ma_pid m' \<noteq> None \<longrightarrow> ma_spare m' = [])"
proof -
  have b: "ma_exit (start_booted s u) = ma_exit u" "ma_pid (start_booted s u) = ma_pid u"
    "ma_spare (start_booted s u) = ma_spare u" "ma_conn (start_booted s u) = ma_conn u" for s u
    by (simp_all add: start_booted_def Let_def)
  have c: "ma_exit (snd (start_connect w plan u)) = ma_exit u" "ma_pid (snd (start_connect w plan u)) = ma_pid u"
    "ma_spare (snd (start_connect w plan u)) = ma_spare u" for plan u
    by (simp_all add: start_connect_def Let_def close_fd_def)
  have r: "ma_exit (snd (start_ready w t plan u)) = ma_exit u" "ma_pid (snd (start_ready w t plan u)) = ma_pid u"
    "ma_spare (snd (start_ready w t plan u)) = ma_spare u" for plan u
    by (cases "aw_ready w"; simp add: start_ready_def b c)+
  have p: "ma_exit (start_prepare w m) = None" "ma_pid (start_prepare w m) = None" "ma_conn (start_prepare w m) = None"
    using assms(2) by (simp_all add: start_prepare_def idle_def)
  have a: "ma_exit (start_adopt w lan_fd plan (start_prepare w m)) = None"
    "ma_pid (start_adopt w lan_fd plan (start_prepare w m)) = None"
    "ma_conn (start_adopt w lan_fd plan (start_prepare w m)) = None" for plan
    using p by (simp_all add: start_adopt_def Let_def)
  have sp: "ma_exit (start_spawned pid grp u) = None" "ma_pid (start_spawned pid grp u) = Some pid"
    "ma_spare (start_spawned pid grp u) = []" for pid grp u
    by (simp_all add: start_spawned_def)
  have m': "m' = snd (machine_start w lan_fd t m)" using assms(1) by simp
  show ?thesis
  proof (cases "aw_plan w")
    case (Inl x)
    then show ?thesis using assms(2) p unfolding m' by (simp add: machine_start_def Let_def idle_def)
  next
    case (Inr plan)
    note plan = this
    show ?thesis
    proof (cases "aw_spawn w")
      case (Inl x)
      then show ?thesis using assms(2) a plan unfolding m' by (simp add: machine_start_def Let_def idle_def)
    next
      case (Inr pg)
      obtain pid grp where "pg = (pid, grp)" by force
      then show ?thesis using assms(2) plan Inr r sp unfolding m' by (simp add: machine_start_def Let_def idle_def)
    qed
  qed
qed

lemma life_ok_start: "machine_started m \<Longrightarrow> life_ok m"
  using start_accounted start_fields unfolding machine_started_def life_ok_def by (metis not_None_eq)

lemma accounted_ends: "accounted m \<Longrightarrow> is_up m \<Longrightarrow> accounted (process_ends code m)"
  by (auto simp: accounted_def process_ends_def is_up_def split: if_splits)

lemma life_ok_ends: "life_ok m \<Longrightarrow> is_up m \<Longrightarrow> life_ok (process_ends code m)"
  using accounted_ends [of m code] by (auto simp: life_ok_def process_ends_def)

lemma accounted_fewer: "accounted m \<Longrightarrow> accounted (m\<lparr>ma_running := ma_running m - X\<rparr>)"
  unfolding accounted_def is_up_def by (simp cong: if_cong split del: if_split) blast

lemma life_ok_fewer: "life_ok m \<Longrightarrow> life_ok (m\<lparr>ma_running := ma_running m - X\<rparr>)"
  using accounted_fewer [of m X] by (simp add: life_ok_def)

lemma accounted_heard: "accounted (m\<lparr>ma_history := hs, ma_queue := qs\<rparr>) = accounted m"
  by (simp add: accounted_def is_up_def)

lemma life_ok_step: "life m m' \<Longrightarrow> life_ok m \<Longrightarrow> life_ok m'"
proof (induction rule: life.induct)
  case (asked m what ans took)
  then show ?case by (simp add: life_ok_def accounted_ask)
next
  case (heard m decode raw)
  then show ?case by (simp add: console_line_def Let_def life_ok_def accounted_heard split del: if_split split: if_splits)
next
  case (ended m code)
  then show ?case by (simp add: life_ok_ends)
next
  case (crashed read polls m e m')
  then show ?case
    by (auto simp: crash_def Let_def split: if_splits intro: life_ok_fewer life_ok_ends)
next
  case (waited code m r m')
  then show ?case
    by (auto simp: wait_exit_def is_up_def split: if_splits option.splits intro!: life_ok_ends)
qed

interpretation guest_life: invariant machine_started life life_ok
  by unfold_locales (blast intro: life_ok_start life_ok_step)+

lemma shutdown_of_life:
  assumes "life_ok m" and "shutdown read w m = (None, m')" and "zw_term_ends w \<or> zw_kill_ends w"
  shows "ma_running m' = {} \<and> ma_dirs m' = {} \<and> (ma_pid m = None \<or> ma_fds m' = {})"
proof -
  have *: "accounted m" "ma_pid m \<noteq> None \<longrightarrow> ma_spare m = []"
    "ma_conn m = None \<or> ma_conn_closed m \<or> is_up m" using assms(1) by (auto simp: life_ok_def is_up_def)
  from shutdown_leaves [OF assms(2) *(1) assms(3) *(3)] *(2) show ?thesis by auto
qed

section \<open>What the waits answer\<close>

lemma next_line_Inr: "next_line P hs = Some (Inr l) \<Longrightarrow> P l \<and> Line l \<in> set hs"
  by (induction P hs rule: next_line.induct) (auto split: if_splits)

lemma wait_for_line_matches:
  assumes "wait_for_line P pattern hs m = Some (Inr l)"
  shows "P l \<and> (l \<in> set (ma_history m) \<or> Line l \<in> set hs)"
proof (cases "find P (ma_history m)")
  case None
  with assms show ?thesis by (auto simp: wait_for_line_def dest: next_line_Inr split: option.splits sum.splits)
next
  case (Some k)
  with assms have "k = l" by (simp add: wait_for_line_def)
  with Some show ?thesis by (auto simp: find_Some_iff)
qed

lemma next_line_ends: "Silence True \<in> set hs \<Longrightarrow> next_line P hs \<noteq> None"
  by (induction P hs rule: next_line.induct) auto

lemma wait_for_unit_active:
  "wait_for_unit m u deadline journal polls = Some (Inr ()) \<Longrightarrow> \<exists>now. (Inr ''active'', now) \<in> set polls"
  by (induction m u deadline journal polls rule: wait_for_unit.induct) (auto split: if_splits sum.splits)

lemma wait_for_unit_ends:
  "\<exists>(st, now) \<in> set polls. now > deadline \<Longrightarrow> wait_for_unit m u deadline journal polls \<noteq> None"
  by (induction m u deadline journal polls rule: wait_for_unit.induct) auto

lemma succeed_answers:
  "fst (succeed command ans took m) = Inr out \<Longrightarrow> ans = Answer (0, out)"
  by (auto simp: succeed_def execute_command_def ask_agent_def ask_def Let_def
      split: if_splits prod.splits answered.splits)

text \<open>Every call of a connected guest is timed and reported, however it ended.\<close>

lemma ask_recorded:
  "ma_asked (snd (ask what ans took m)) = ma_asked m @ [(what, took)] \<and>
   length (rp_steps (ma_report (snd (ask what ans took m)))) = Suc (length (rp_steps (ma_report m)))"
  by (simp add: ask_def Let_def report_step_def)

section \<open>Properties\<close>


definition demo_plan :: launch_plan where
  "demo_plan = \<lparr>la_argv = [''qemu''], la_pass_fds = [4, 7, 8], la_env = [], la_helpers = [51], la_memory = None,
     la_pid_file = None, la_cleanup = [''/tmp/uml-x''], la_agent_path = None\<rparr>"

definition demo_start_world :: start_world where
  "demo_start_world = \<lparr>aw_rundir = ''/tmp/uml-one'', aw_socks = (3, 4), aw_plan = Inr demo_plan,
     aw_spawn = Inr (50, {60}), aw_ready = Ready 12, aw_agent_fd = 0, aw_connects = True\<rparr>"

definition demo_guest_spec :: machine_spec where
  "demo_guest_spec =
     \<lparr> mp_name = ''one'', mp_backend = ''qemu'', mp_index = 0, mp_image = None, mp_memory = ''128M'',
       mp_seccomp = ''auto'', mp_cpus = 1, mp_ssh_port = 4325, mp_mtu = 65000, mp_network = None,
       mp_address = None, mp_store = ''/nix'', mp_boot = [], mp_forward = [] \<rparr>"

definition demo_up :: machine where
  "demo_up = snd (machine_start demo_start_world None 180 (new_machine demo_guest_spec 0))"

definition demo_stop :: stop_world where
  "demo_stop = \<lparr>zw_poweroff = No_answer, zw_took = 15, zw_term_ends = False, zw_kill_ends = True\<rparr>"

lemma demo_up_started: "reach machine_started life demo_up"
  unfolding demo_up_def machine_started_def
  by (rule reach_start) (use idle_new surjective_pairing in blast)


text \<open>
  A child that was never spawned: the descriptors the plan opened for it are closed neither by \<open>start\<close>
  nor by \<open>shutdown\<close>, so the unlinked disk image behind them stays allocated.
\<close>

theorem unspawned_keeps_fds:
  assumes "idle m" and "aw_plan w = Inr plan" and "aw_spawn w = Inl e"
    and "fd \<in> set (la_pass_fds plan)" and "fd \<notin> {fst (aw_socks w), snd (aw_socks w)}" and "Some fd \<noteq> lan_fd"
  shows "fd \<in> ma_fds (snd (shutdown read z (snd (machine_start w lan_fd t m))))"
proof -
  define m2 where "m2 = start_adopt w lan_fd plan (start_prepare w m)"
  have m2: "snd (machine_start w lan_fd t m) = m2" using assms(1-3) by (simp add: machine_start_def Let_def idle_def m2_def)
  have f: "fd \<in> ma_fds m2" "ma_conn m2 = None" "ma_pid m2 = None"
    "ma_agent_sock m2 = Some (fst (aw_socks w))" "ma_guest_sock m2 = Some (snd (aw_socks w))"
    using assms by (simp_all add: m2_def start_adopt_def Let_def start_prepare_def idle_def)
  then show ?thesis using assms(5) unfolding m2
    by (simp add: shutdown_def let_go_def Let_def say_goodbye_def reap_def is_up_def close_fd_def)
qed

text \<open>A guest whose agent raises anything else when asked to power off is not reaped at all.\<close>

theorem raised_goodbye_keeps_running:
  assumes "ma_conn m \<noteq> None" and "\<not> ma_conn_closed m" and "alive read m"
    and "zw_poweroff w = Call_raised e" and "\<not> passed_over e"
  shows "fst (shutdown read w m) = Some e \<and> ma_running (snd (shutdown read w m)) = ma_running m"
  using assms by (auto simp: shutdown_def say_goodbye_def execute_command_def ask_agent_def ask_def Let_def)

end
