(* ===== verification/Harness.thy ===== *)
theory Harness
  imports Machine
begin

text \<open>
  \<^verbatim>\<open>src/pkgs/uml-runner/uml_runner/harness.py\<close>: a test over guests of its own, from the specification to the
  exit status. It is put together from the segments of \<open>Lan\<close>, the forwards of \<open>Forward\<close> and the guests of
  \<open>Machine\<close>. How each guest starts and stops, whether a signal comes while they boot, and what the test does
  with them are data of a \<open>test_world\<close>; so is the report of the timings at the end. A second signal,
  during the teardown, is not modelled.
\<close>

section \<open>The state and the world\<close>

record harness =
  hn_printed :: "string list"
  hn_errors :: "string list"
  hn_dirs :: "string list"
  hn_vms :: "(string, machine) dict"
  hn_lans :: "lan list"
  hn_kernel :: kernel
  hn_artifacts :: string
  hn_settings :: json
  hn_env :: "(string, string) dict"
  hn_argv :: json
  hn_written :: "(string \<times> jdict) list"

record test_world =
  tw_environ :: "(string, string) dict"
  tw_tempdir :: string
  tw_mkdir :: "string \<Rightarrow> exn option"
  tw_can_bind :: "string \<Rightarrow> int \<Rightarrow> bool"
  tw_unprivileged :: int
  tw_now :: seconds
  tw_starts :: "string \<Rightarrow> start_world"
  tw_signal :: bool
  tw_test :: "(string, machine) dict \<Rightarrow> exn option \<times> (string, machine) dict"
  tw_read :: "string \<Rightarrow> string option"
  tw_stops :: "string \<Rightarrow> stop_world"
  tw_ended :: seconds
  tw_report :: report

definition new_harness :: "kernel \<Rightarrow> harness" where
  "new_harness k =
     \<lparr>hn_printed = [], hn_errors = [], hn_dirs = [], hn_vms = [], hn_lans = [], hn_kernel = k, hn_artifacts = [],
      hn_settings = JObj [], hn_env = [], hn_argv = JList [], hn_written = []\<rparr>"

definition say_line :: "string \<Rightarrow> harness \<Rightarrow> harness" where
  "say_line l h = h\<lparr>hn_printed := hn_printed h @ [l]\<rparr>"

text \<open>\<open>Machines.__getattr__\<close>.\<close>

definition machine_attr :: "string \<Rightarrow> (string, machine) dict \<Rightarrow> exn + machine" where
  "machine_attr name vms =
     (case map_of vms name of
        Some m \<Rightarrow> Inr m
      | None \<Rightarrow> Inl (Exn ''AttributeError'' (''no machine '' @ py_repr name @ '' in this test; have '' @ join '', '' (dict_keys vms))))"

section \<open>Directories and the environment\<close>

definition ARTIFACTS_ENV :: string where "ARTIFACTS_ENV = ''UML_TEST_ARTIFACTS''"

text \<open>A step of the preparation: what it raises, or its value, beside the harness it leaves.\<close>

type_synonym 'a prep = "harness \<Rightarrow> (exn + 'a) \<times> harness"

definition make_dir :: "test_world \<Rightarrow> string \<Rightarrow> unit prep" where
  "make_dir w path h =
     (case tw_mkdir w path of Some e \<Rightarrow> (Inl e, h) | None \<Rightarrow> (Inr (), h\<lparr>hn_dirs := hn_dirs h @ [path]\<rparr>))"

definition artifacts_dir :: "test_world \<Rightarrow> string prep" where
  "artifacts_dir w h =
     (let from_env = dict_get (tw_environ w) ARTIFACTS_ENV [];
          path = (if from_env \<noteq> [] then from_env else tw_tempdir w)
      in case make_dir w path h of
           (Inl e, h1) \<Rightarrow> (Inl e, h1)
         | (Inr _, h1) \<Rightarrow> (Inr path, say_line (''[test] artifacts in '' @ path) h1))"

definition guest_artifacts :: "test_world \<Rightarrow> string \<Rightarrow> string \<Rightarrow> unit prep" where
  "guest_artifacts w top_dir name = make_dir w (top_dir @ ''/'' @ name)"

text \<open>\<open>_impurities\<close>.\<close>

definition impurity_env :: "(string, string) dict \<Rightarrow> string list \<Rightarrow> (string, string) dict" where
  "impurity_env environ names = fold (\<lambda>n. AList.update n (dict_get environ n [])) names []"

definition impurity_line :: "string \<times> string \<Rightarrow> string" where
  "impurity_line kv = ''[test] impurity '' @ fst kv @ ''='' @ (if snd kv \<noteq> [] then py_repr (snd kv) else ''unset'')"

definition impurities :: "test_world \<Rightarrow> string list \<Rightarrow> harness \<Rightarrow> harness" where
  "impurities w names h =
     (let env = impurity_env (tw_environ w) names in fold say_line (map impurity_line env) (h\<lparr>hn_env := env\<rparr>))"

section \<open>The specification\<close>

text \<open>
  \<open>load_spec\<close>, after \<open>parse_known_args\<close> gave the path and the remainder: the text of the file, or what reading it
  raises, and \<open>json.loads\<close>.
\<close>

definition load_spec :: "(string \<Rightarrow> json option) \<Rightarrow> exn + string \<Rightarrow> string list \<Rightarrow> exn + jdict" where
  "load_spec loads contents rest =
     and_then contents (\<lambda>t.
       case loads t of
         None \<Rightarrow> Inl (Exn ''JSONDecodeError'' [])
       | Some (JObj d) \<Rightarrow> Inr (AList.update ''argv'' (JList (map JStr rest)) d)
       | Some _ \<Rightarrow> Inl (Exn ''TypeError'' []))"

text \<open>The items of a list of the specification that have the type they should; others are a \<open>TypeError\<close> or an \<open>AttributeError\<close>.\<close>

definition object_item :: "json \<Rightarrow> exn + jdict" where
  "object_item v = (case v of JObj d \<Rightarrow> Inr d | _ \<Rightarrow> Inl (Exn ''TypeError'' []))"

definition name_item :: "json \<Rightarrow> exn + string" where
  "name_item v = (case v of JStr s \<Rightarrow> Inr s | _ \<Rightarrow> Inl (Exn ''TypeError'' []))"

definition list_items :: "json \<Rightarrow> exn + json list" where
  "list_items v = (case v of JList xs \<Rightarrow> Inr xs | _ \<Rightarrow> Inl (Exn ''TypeError'' []))"

definition text_items :: "jdict \<Rightarrow> (string, string) dict" where
  "text_items d = concat (map (\<lambda>(k, v). case v of JStr s \<Rightarrow> [(k, s)] | _ \<Rightarrow> []) d)"

definition spec_machines :: "jdict \<Rightarrow> exn + machine_spec list" where
  "spec_machines d =
     (case map_of d ''machines'' of
        None \<Rightarrow> Inl (Exn ''KeyError'' (py_repr ''machines''))
      | Some v \<Rightarrow>
          and_then (list_items v) (\<lambda>xs.
          and_then (map_result object_item xs) (\<lambda>ds.
            case map_result machine_from_json ds of Inl e \<Rightarrow> Inl (fault e) | Inr ms \<Rightarrow> Inr ms)))"

definition spec_tools :: "jdict \<Rightarrow> exn + toolchain" where
  "spec_tools d = (case toolchain_from_json (text_items d) of Inl e \<Rightarrow> Inl (fault e) | Inr t \<Rightarrow> Inr t)"

section \<open>Before anything is spawned\<close>

text \<open>\<open>Machine.resolve_forward\<close>, of a guest that is not part of a session.\<close>

definition with_forward :: "rule list \<Rightarrow> machine \<Rightarrow> machine" where
  "with_forward rules m = m\<lparr>ma_spec := (ma_spec m)\<lparr>mp_forward := rules\<rparr>\<rparr>"

definition settle_forward :: "(string \<Rightarrow> int \<Rightarrow> bool) \<Rightarrow> int \<Rightarrow> string set \<Rightarrow> machine \<Rightarrow> (exn + string set) \<times> machine" where
  "settle_forward can_bind low taken m =
     (case resolve can_bind low (mp_forward (ma_spec m)) taken of
        Inl e \<Rightarrow> (Inl (fault e), m)
      | Inr (rules, notes, taken') \<Rightarrow>
          (let m1 = fold log_line (map (\<lambda>n. ''warning: '' @ n) notes) (with_forward rules m) in
           case probe_rules can_bind rules of
             Inl e \<Rightarrow> (Inl (fault e), m1)
           | Inr _ \<Rightarrow> (Inr taken', fold log_line (forward_lines rules) m1)))"

fun settle_all ::
  "(string \<Rightarrow> int \<Rightarrow> bool) \<Rightarrow> int \<Rightarrow> string set \<Rightarrow> (string, machine) dict \<Rightarrow> exn option \<times> (string, machine) dict" where
  "settle_all can_bind low taken [] = (None, [])"
| "settle_all can_bind low taken ((n, m) # vms) =
     (case settle_forward can_bind low taken m of
        (Inl e, m') \<Rightarrow> (Some e, (n, m') # vms)
      | (Inr taken', m') \<Rightarrow>
          (case settle_all can_bind low taken' vms of (e, vms') \<Rightarrow> (e, (n, m') # vms')))"

fun make_guests :: "test_world \<Rightarrow> string \<Rightarrow> machine_spec list \<Rightarrow> (string, machine) dict prep" where
  "make_guests w top_dir [] h = (Inr (hn_vms h), h)"
| "make_guests w top_dir (s # sps) h =
     (case guest_artifacts w top_dir (mp_name s) h of
        (Inl e, h1) \<Rightarrow> (Inl e, h1)
      | (Inr _, h1) \<Rightarrow>
          make_guests w top_dir sps (h1\<lparr>hn_vms := AList.update (mp_name s) (new_machine s (tw_now w)) (hn_vms h1)\<rparr>))"

definition spec_impurities :: "jdict \<Rightarrow> exn + string list" where
  "spec_impurities d = and_then (list_items (dict_get d ''impurities'' (JList []))) (map_result name_item)"

text \<open>The attributes of the run, and the forwards.\<close>

definition furnish :: "test_world \<Rightarrow> jdict \<Rightarrow> string \<Rightarrow> harness \<Rightarrow> exn option \<times> harness" where
  "furnish w d top_dir h =
     (case spec_impurities d of
        Inl e \<Rightarrow> (Some e, h)
      | Inr names \<Rightarrow>
          (let h1 = impurities w names (h\<lparr>hn_settings := dict_get d ''settings'' (JObj []), hn_artifacts := top_dir\<rparr>) in
           case list_items (dict_get d ''argv'' (JList [])) of
             Inl e \<Rightarrow> (Some e, h1)
           | Inr args \<Rightarrow>
               (case settle_all (tw_can_bind w) (tw_unprivileged w) {} (hn_vms h1) of
                  (e, vms) \<Rightarrow> (e, h1\<lparr>hn_argv := JList args, hn_vms := vms\<rparr>))))"

text \<open>The part of \<open>machines\<close> before its \<open>try\<close>.\<close>

definition make_ready :: "test_world \<Rightarrow> jdict \<Rightarrow> harness \<Rightarrow> exn option \<times> harness" where
  "make_ready w d h =
     (case and_then (spec_tools d) (\<lambda>_. spec_machines d) of
        Inl e \<Rightarrow> (Some e, h)
      | Inr sps \<Rightarrow>
         (case build_lans (segments sps) (hn_kernel h) of
            Inl t \<Rightarrow> (Some (Exn ''ValueError'' t), h)
          | Inr (lans, k) \<Rightarrow>
             (case artifacts_dir w (h\<lparr>hn_lans := lans, hn_kernel := k\<rparr>) of
                (Inl e, h1) \<Rightarrow> (Some e, h1)
              | (Inr top_dir, h1) \<Rightarrow>
                  (case make_guests w top_dir sps h1 of
                     (Inl e, h2) \<Rightarrow> (Some e, h2)
                   | (Inr _, h2) \<Rightarrow> furnish w d top_dir h2))))"

section \<open>Booting, the test, and the teardown\<close>

definition BOOT_TIMEOUT :: seconds where "BOOT_TIMEOUT = 180"

definition start_guests ::
  "test_world \<Rightarrow> (string, sock) dict \<Rightarrow> (string, machine) dict \<Rightarrow> exn option list \<times> (string, machine) dict" where
  "start_guests w fds vms =
     (let rs = map (\<lambda>(n, m). (n, machine_start (tw_starts w n) (map_of fds n) BOOT_TIMEOUT m)) vms
      in (map (\<lambda>(n, e, m). e) rs, map (\<lambda>(n, e, m). (n, m)) rs))"

definition detach_all :: "harness \<Rightarrow> harness" where
  "detach_all h =
     (case fold (\<lambda>l (ls, k). case lan_detach l k of (l', k') \<Rightarrow> (ls @ [l'], k')) (hn_lans h) ([], hn_kernel h) of
        (ls, k) \<Rightarrow> h\<lparr>hn_lans := ls, hn_kernel := k\<rparr>)"

definition close_all :: "harness \<Rightarrow> harness" where
  "close_all h =
     fold (\<lambda>l h. case lan_close l (hn_kernel h) of (said, l', k) \<Rightarrow> fold say_line said (h\<lparr>hn_kernel := k\<rparr>)) (hn_lans h) h"

definition stop_guests :: "test_world \<Rightarrow> (string, machine) dict \<Rightarrow> (string, machine) dict" where
  "stop_guests w vms = map (\<lambda>(n, m). (n, snd (shutdown (tw_read w) (tw_stops w n) m))) vms"

text \<open>The body of the \<open>try\<close>: a signal while the guests boot cancels the wait for them.\<close>

definition boot_and_test :: "test_world \<Rightarrow> harness \<Rightarrow> exn option \<times> harness" where
  "boot_and_test w h =
     (let h1 = say_line (''[test] booting '' @ join '', '' (dict_keys (hn_vms h)) @ '' ...'')
                 (h\<lparr>hn_kernel := fold lan_start (hn_lans h) (hn_kernel h)\<rparr>) in
      case start_guests w (lan_fds (hn_lans h)) (hn_vms h1) of (results, vms) \<Rightarrow>
        (let h2 = h1\<lparr>hn_vms := vms\<rparr> in
         if tw_signal w then (Some Cancelled, h2)
         else (let h3 = detach_all h2 in
           case find (\<lambda>r. r \<noteq> None) results of
             Some e \<Rightarrow> (e, h3)
           | None \<Rightarrow> (case tw_test w vms of (r, vms') \<Rightarrow> (r, h3\<lparr>hn_vms := vms'\<rparr>)))))"

definition tear_down :: "test_world \<Rightarrow> harness \<Rightarrow> harness" where
  "tear_down w h =
     (let h1 = say_line ''[test] shutting down ...'' h in close_all (h1\<lparr>hn_vms := stop_guests w (hn_vms h1)\<rparr>))"

definition machines_run :: "test_world \<Rightarrow> jdict \<Rightarrow> harness \<Rightarrow> exn option \<times> harness" where
  "machines_run w d h =
     (case make_ready w d h of
        (Some e, h1) \<Rightarrow> (Some e, h1)
      | (None, h1) \<Rightarrow> (case boot_and_test w h1 of (r, h2) \<Rightarrow> (r, tear_down w h2)))"

section \<open>The exit status\<close>

datatype run_end = Run_passed | Run_exits int | Run_raises exn

definition REPORT_ENV :: string where "REPORT_ENV = ''UML_TEST_REPORT''"

text \<open>\<open>_record\<close>, with \<open>Report.write_if_asked\<close>.\<close>

definition record_end :: "test_world \<Rightarrow> bool \<Rightarrow> string option \<Rightarrow> harness \<Rightarrow> harness" where
  "record_end w good_end error h =
     (let h1 = say_line (report_summary (tw_ended w) 5 (tw_report w)) h;
          path = dict_get (tw_environ w) REPORT_ENV []
      in if path = [] then h1
         else say_line (''[test] timings in '' @ path)
                (h1\<lparr>hn_written := hn_written h1 @ [(path, report_body (tw_ended w) good_end error (tw_report w))]\<rparr>))"

definition fail_line :: "string \<Rightarrow> harness \<Rightarrow> harness" where
  "fail_line l h = h\<lparr>hn_errors := hn_errors h @ [l]\<rparr>"

definition end_of_test :: "test_world \<Rightarrow> exn option \<times> harness \<Rightarrow> run_end \<times> harness" where
  "end_of_test w rh =
     (case rh of
        (None, h) \<Rightarrow> (Run_passed, say_line ''[test] passed'' (record_end w True None h))
      | (Some Cancelled, h) \<Rightarrow>
          (Run_exits 130, fail_line ''[test] interrupted; the guests are down'' (record_end w False (Some ''interrupted by a signal'') h))
      | (Some (Exn n t), h) \<Rightarrow>
          if n \<in> {''MachineError'', ''ForwardError''}
          then (Run_exits 1, fail_line (''[test] FAILED: '' @ t) (record_end w False (Some t) h))
          else (Run_raises (Exn n t), record_end w False (Some (n @ '': '' @ t)) h))"

definition run_test :: "test_world \<Rightarrow> exn + jdict \<Rightarrow> harness \<Rightarrow> run_end \<times> harness" where
  "run_test w spec h =
     end_of_test w (case spec of Inl e \<Rightarrow> (Some e, h) | Inr d \<Rightarrow> machines_run w d h)"

section \<open>What a run leaves on the host\<close>

lemma say_line_fields [simp]:
  "hn_vms (say_line l h) = hn_vms h" "hn_lans (say_line l h) = hn_lans h" "hn_kernel (say_line l h) = hn_kernel h"
  by (simp_all add: say_line_def)

lemma fold_say_line_fields [simp]:
  "hn_vms (fold say_line ls h) = hn_vms h" "hn_lans (fold say_line ls h) = hn_lans h" "hn_kernel (fold say_line ls h) = hn_kernel h"
  by (induction ls arbitrary: h) simp_all

lemma make_dir_fields: "make_dir w path h = (r, h') \<Longrightarrow> hn_vms h' = hn_vms h \<and> hn_lans h' = hn_lans h \<and> hn_kernel h' = hn_kernel h"
  by (auto simp: make_dir_def split: option.splits)

lemma artifacts_dir_fields: "artifacts_dir w h = (r, h') \<Longrightarrow> hn_vms h' = hn_vms h \<and> hn_lans h' = hn_lans h \<and> hn_kernel h' = hn_kernel h"
  by (auto simp: artifacts_dir_def Let_def split: prod.splits sum.splits dest: make_dir_fields)

lemma idle_log [simp]: "idle (log_line l m) = idle m"
  by (simp add: idle_def)

lemma idle_fold_log [simp]: "idle (fold log_line ls m) = idle m"
  by (induction ls arbitrary: m) simp_all

lemma idle_with_forward [simp]: "idle (with_forward rules m) = idle m"
  by (simp add: with_forward_def idle_def)

lemma settle_forward_idle: "settle_forward can_bind low taken m = (r, m') \<Longrightarrow> idle m' = idle m"
  by (auto simp: settle_forward_def Let_def split: sum.splits prod.splits)

definition all_idle :: "(string, machine) dict \<Rightarrow> bool" where
  "all_idle vms \<longleftrightarrow> (\<forall>(n, m)\<in>set vms. idle m)"

lemma all_idle_simps [simp]: "all_idle []" "all_idle ((n, m) # vms) \<longleftrightarrow> idle m \<and> all_idle vms"
  by (simp_all add: all_idle_def)

lemma settle_all_idle:
  "settle_all can_bind low taken vms = (e, vms') \<Longrightarrow> all_idle vms \<Longrightarrow> all_idle vms'"
proof (induction can_bind low taken vms arbitrary: e vms' rule: settle_all.induct)
  case (2 can_bind low taken n m vms)
  obtain r m' where s: "settle_forward can_bind low taken m = (r, m')" by force
  then have m': "idle m'" using settle_forward_idle 2(3) by auto
  show ?case
  proof (cases r)
    case (Inl x)
    then show ?thesis using 2(2,3) s m' by auto
  next
    case (Inr t)
    obtain e1 vms1 where r: "settle_all can_bind low t vms = (e1, vms1)" by force
    with 2(1) [OF s [symmetric] Inr r] 2(3) have "all_idle vms1" by simp
    then show ?thesis using 2(2) s m' Inr r by auto
  qed
qed simp

lemma update_idle: "all_idle vms \<Longrightarrow> idle m0 \<Longrightarrow> all_idle (AList.update n m0 vms)"
  by (induction vms) auto

lemma make_guests_idle:
  "make_guests w top_dir sps h = (r, h') \<Longrightarrow> all_idle (hn_vms h) \<Longrightarrow>
     all_idle (hn_vms h') \<and> hn_lans h' = hn_lans h \<and> hn_kernel h' = hn_kernel h"
proof (induction w top_dir sps h arbitrary: r h' rule: make_guests.induct)
  case (2 w top_dir s sps h)
  obtain r1 h1 where g: "guest_artifacts w top_dir (mp_name s) h = (r1, h1)" by force
  then have h1: "hn_vms h1 = hn_vms h \<and> hn_lans h1 = hn_lans h \<and> hn_kernel h1 = hn_kernel h"
    unfolding guest_artifacts_def by (rule make_dir_fields)
  show ?case
  proof (cases r1)
    case (Inl e)
    with 2 g h1 show ?thesis by simp
  next
    case (Inr u)
    have "all_idle (hn_vms (h1\<lparr>hn_vms := AList.update (mp_name s) (new_machine s (tw_now w)) (hn_vms h1)\<rparr>))"
      using 2(3) h1 update_idle idle_new by simp
    with 2(1) [OF g [symmetric] Inr] 2(2) g Inr h1 show ?thesis by simp
  qed
qed simp

lemma furnish_idle:
  assumes "furnish w d top_dir h = (e, h')" and "all_idle (hn_vms h)"
  shows "all_idle (hn_vms h')"
  using assms by (auto simp: furnish_def impurities_def Let_def split: sum.splits prod.splits dest: settle_all_idle)

lemma make_ready_idle:
  assumes "make_ready w d (new_harness k) = (e, h)"
  shows "all_idle (hn_vms h)"
proof -
  have n: "hn_vms (new_harness k) = []" by (simp add: new_harness_def)
  show ?thesis using assms n
    by (auto simp: make_ready_def split: sum.splits prod.splits
        dest!: artifacts_dir_fields make_guests_idle furnish_idle)
qed

section \<open>The guests after a run\<close>

definition stops_cleanly :: "stop_world \<Rightarrow> bool" where
  "stops_cleanly z \<longleftrightarrow> (zw_term_ends z \<or> zw_kill_ends z) \<and> (case zw_poweroff z of Call_raised e \<Rightarrow> passed_over e | _ \<Rightarrow> True)"

text \<open>What a test may do: it calls the guests, and none other than those it was given.\<close>

definition played :: "(string, machine) dict \<Rightarrow> (string, machine) dict \<Rightarrow> bool" where
  "played vms vms' \<longleftrightarrow> list_all2 (\<lambda>(n, m) (n', m'). n' = n \<and> life\<^sup>*\<^sup>* m m') vms vms'"

definition all_life :: "(string, machine) dict \<Rightarrow> bool" where
  "all_life vms \<longleftrightarrow> (\<forall>(n, m)\<in>set vms. life_ok m)"

lemma goodbye_returns: "stops_cleanly z \<Longrightarrow> \<exists>m'. say_goodbye read z m = (None, m')"
  by (auto simp: say_goodbye_def stops_cleanly_def execute_command_def ask_agent_def ask_def Let_def passed_over_def
      split: answered.splits prod.splits)

lemma shutdown_returns:
  assumes "stops_cleanly z"
  shows "\<exists>m'. shutdown read z m = (None, m')"
proof -
  obtain m1 where "say_goodbye read z m = (None, m1)" using goodbye_returns [OF assms] by blast
  then show ?thesis by (simp add: shutdown_def)
qed

definition nothing_left :: "machine \<Rightarrow> bool" where
  "nothing_left m \<longleftrightarrow> ma_running m = {} \<and> ma_dirs m = {}"

lemma stop_guests_clean:
  assumes "all_life vms" and "\<And>n. stops_cleanly (tw_stops w n)"
  shows "\<forall>(n, m)\<in>set (stop_guests w vms). nothing_left m"
proof -
  have "nothing_left (snd (shutdown (tw_read w) (tw_stops w n) m))" if "life_ok m" for n m
  proof -
    obtain m' where m': "shutdown (tw_read w) (tw_stops w n) m = (None, m')" using shutdown_returns assms(2) by blast
    with shutdown_of_life [OF that m'] assms(2) show ?thesis by (simp add: nothing_left_def stops_cleanly_def)
  qed
  with assms(1) show ?thesis by (auto simp: stop_guests_def all_life_def)
qed

lemma start_guests_life:
  assumes "start_guests w fds vms = (results, vms')" and "all_idle vms"
  shows "all_life vms' \<and> map fst vms' = map fst vms"
proof -
  have "life_ok (snd (machine_start sw fd t m))" if "idle m" for sw fd t m
    using that life_ok_start unfolding machine_started_def by (metis prod.collapse)
  with assms show ?thesis unfolding all_idle_def all_life_def
    by (fastforce simp: start_guests_def Let_def comp_def split_def)
qed

lemma played_life: "played vms vms' \<Longrightarrow> all_life vms \<Longrightarrow> all_life vms' \<and> map fst vms' = map fst vms"
  unfolding played_def
proof (induction rule: list_all2_induct)
  case (Cons x xs y ys)
  obtain n m n' m' where xy: "x = (n, m)" "y = (n', m')" by force
  with Cons guest_life.steps_good show ?case by (auto simp: all_life_def)
qed (simp add: all_life_def)

section \<open>The segments after a run\<close>

text \<open>The sockets of a segment: its ports, and the ends that were for guests.\<close>

definition closed_lan :: "kernel \<Rightarrow> lan \<Rightarrow> bool" where
  "closed_lan k l \<longleftrightarrow> set (la_ports l) \<union> set (la_guest_ends l) \<subseteq> kn_closed k"

lemma lan_close_closes:
  "lan_close l k = (said, l', k') \<Longrightarrow> kn_closed k' = kn_closed k \<union> set (la_ports l) \<union> set (la_guest_ends l)"
  by (auto simp: lan_close_def lan_detach_def Let_def)

lemma close_fold:
  "kn_closed (hn_kernel (fold (\<lambda>l h. case lan_close l (hn_kernel h) of (said, l', k) \<Rightarrow> fold say_line said (h\<lparr>hn_kernel := k\<rparr>)) ls h)) =
     kn_closed (hn_kernel h) \<union> (\<Union>l\<in>set ls. set (la_ports l) \<union> set (la_guest_ends l))"
proof (induction ls arbitrary: h)
  case (Cons l ls)
  obtain said l' k where c: "lan_close l (hn_kernel h) = (said, l', k)" by (metis prod_cases3)
  from Cons [of "fold say_line said (h\<lparr>hn_kernel := k\<rparr>)"] lan_close_closes [OF c] show ?case by (auto simp: c)
qed simp

lemma close_all_closes:
  "kn_closed (hn_kernel (close_all h)) =
     kn_closed (hn_kernel h) \<union> (\<Union>l\<in>set (hn_lans h). set (la_ports l) \<union> set (la_guest_ends l))"
  unfolding close_all_def by (rule close_fold)

lemma close_all_vms [simp]: "hn_vms (close_all h) = hn_vms h"
proof -
  have "hn_vms (fold (\<lambda>l h. case lan_close l (hn_kernel h) of (said, l', k) \<Rightarrow> fold say_line said (h\<lparr>hn_kernel := k\<rparr>)) ls h) = hn_vms h" for ls
    by (induction ls arbitrary: h) (auto split: prod.split)
  then show ?thesis by (simp add: close_all_def)
qed

lemma detach_fold:
  "fold (\<lambda>l (ls, k). case lan_detach l k of (l', k') \<Rightarrow> (ls @ [l'], k')) ls (acc, k) =
     (acc @ map (\<lambda>l. l\<lparr>la_guest_ends := []\<rparr>) ls, k\<lparr>kn_closed := kn_closed k \<union> (\<Union>l\<in>set ls. set (la_guest_ends l))\<rparr>)"
  by (induction ls arbitrary: acc k) (auto simp: lan_detach_def Un_assoc)

lemma detach_all_eq:
  "detach_all h = h\<lparr>hn_lans := map (\<lambda>l. l\<lparr>la_guest_ends := []\<rparr>) (hn_lans h),
     hn_kernel := (hn_kernel h)\<lparr>kn_closed := kn_closed (hn_kernel h) \<union> (\<Union>l\<in>set (hn_lans h). set (la_guest_ends l))\<rparr>\<rparr>"
  by (simp add: detach_all_def detach_fold)

lemma boot_and_test_lans:
  assumes "boot_and_test w h = (r, h')"
  shows "\<forall>l\<in>set (hn_lans h). set (la_ports l) \<union> set (la_guest_ends l) \<subseteq>
    kn_closed (hn_kernel h') \<union> (\<Union>l\<in>set (hn_lans h'). set (la_ports l) \<union> set (la_guest_ends l))"
  using assms by (auto simp: boot_and_test_def Let_def detach_all_eq split: prod.splits if_splits option.splits)

lemma boot_and_test_vms:
  assumes "boot_and_test w h = (r, h')" and "all_idle (hn_vms h)"
    and "\<And>vms r vms'. tw_test w vms = (r, vms') \<Longrightarrow> played vms vms'"
  shows "all_life (hn_vms h') \<and> map fst (hn_vms h') = map fst (hn_vms h)"
proof -
  obtain results vms where s: "start_guests w (lan_fds (hn_lans h)) (hn_vms h) = (results, vms)" by force
  note l = start_guests_life [OF s assms(2)]
  obtain r1 vms1 where t: "tw_test w vms = (r1, vms1)" by force
  with assms(3) played_life l have "all_life vms1 \<and> map fst vms1 = map fst (hn_vms h)" by metis
  with assms(1) l s t show ?thesis
    by (auto simp: boot_and_test_def Let_def detach_all_eq split: if_splits option.splits)
qed


definition demo_test_kernel :: kernel where
  "demo_test_kernel = \<lparr>kn_next = 0, kn_queue = (\<lambda>_. []), kn_limit = 1, kn_closed = {}, kn_readers = {}\<rparr>"

definition demo_test_spec :: jdict where
  "demo_test_spec = [(''passt'', JStr ''passt''),
     (''machines'', JList [JObj [(''name'', JStr ''one''), (''network'', JStr ''lan''), (''index'', JInt 1)]])]"

text \<open>A guest that does not come up in time, and a test that would do nothing.\<close>

definition demo_test_world :: test_world where
  "demo_test_world =
     \<lparr>tw_environ = [], tw_tempdir = ''/tmp/a'', tw_mkdir = (\<lambda>_. None), tw_can_bind = (\<lambda>_ _. True), tw_unprivileged = 1024,
      tw_now = 0, tw_starts = (\<lambda>_. demo_start_world\<lparr>aw_ready := No_agent\<rparr>), tw_signal = False, tw_test = (\<lambda>vms. (None, vms)),
      tw_read = (\<lambda>_. None), tw_stops = (\<lambda>_. demo_stop), tw_ended = 200, tw_report = new_report 0\<rparr>"

lemma demo_made_ready: "fst (make_ready demo_test_world demo_test_spec (new_harness demo_test_kernel)) = None"
  "map fst (hn_vms (snd (make_ready demo_test_world demo_test_spec (new_harness demo_test_kernel)))) = [''one'']"
  by code_simp+


section \<open>The verdict\<close>

lemma say_line_written [simp]: "hn_written (say_line l h) = hn_written h" "hn_written (fold say_line ls h) = hn_written h"
proof -
  show *: "hn_written (say_line l h) = hn_written h" for l h by (simp add: say_line_def)
  show "hn_written (fold say_line ls h) = hn_written h" by (induction ls arbitrary: h) (simp_all add: *)
qed

lemma make_dir_written: "make_dir w path h = (r, h') \<Longrightarrow> hn_written h' = hn_written h"
  by (auto simp: make_dir_def split: option.splits)

lemma artifacts_dir_written: "artifacts_dir w h = (r, h') \<Longrightarrow> hn_written h' = hn_written h"
  by (auto simp: artifacts_dir_def Let_def split: prod.splits sum.splits dest: make_dir_written)

lemma make_guests_written: "make_guests w top_dir sps h = (r, h') \<Longrightarrow> hn_written h' = hn_written h"
proof (induction w top_dir sps h arbitrary: r h' rule: make_guests.induct)
  case (2 w top_dir s sps h)
  then show ?case by (auto simp: guest_artifacts_def split: prod.splits sum.splits dest: make_dir_written)
qed simp

lemma make_ready_written: "make_ready w d h = (e, h') \<Longrightarrow> hn_written h' = hn_written h"
  by (auto simp: make_ready_def furnish_def impurities_def Let_def split: sum.splits prod.splits
      dest!: artifacts_dir_written make_guests_written)

lemma machines_run_written: "machines_run w d h = (r, h') \<Longrightarrow> hn_written h' = hn_written h"
proof -
  have "hn_written (fold (\<lambda>l h. case lan_close l (hn_kernel h) of (said, l', k) \<Rightarrow> fold say_line said (h\<lparr>hn_kernel := k\<rparr>)) ls h) = hn_written h" for ls h
    by (induction ls arbitrary: h) (auto split: prod.split)
  then have "hn_written (tear_down w h) = hn_written h" for h by (simp add: tear_down_def close_all_def)
  then show "machines_run w d h = (r, h') \<Longrightarrow> hn_written h' = hn_written h"
    by (auto simp: machines_run_def boot_and_test_def Let_def detach_all_eq
        split: prod.splits option.splits if_splits dest!: make_ready_written)
qed

text \<open>What a run comes to before its verdict.\<close>

definition outcome_of :: "test_world \<Rightarrow> exn + jdict \<Rightarrow> harness \<Rightarrow> exn option \<times> harness" where
  "outcome_of w spec h = (case spec of Inl e \<Rightarrow> (Some e, h) | Inr d \<Rightarrow> machines_run w d h)"

definition all_went_well :: "test_world \<Rightarrow> exn + jdict \<Rightarrow> harness \<Rightarrow> bool" where
  "all_went_well w spec h \<longleftrightarrow>
     (\<exists>d h1 results vms. spec = Inr d \<and> make_ready w d h = (None, h1) \<and> \<not> tw_signal w \<and>
        start_guests w (lan_fds (hn_lans h1)) (hn_vms h1) = (results, vms) \<and> set results \<subseteq> {None} \<and> fst (tw_test w vms) = None)"

lemma find_error: "find (\<lambda>r. r \<noteq> None) results = None \<longleftrightarrow> set results \<subseteq> {None}"
  by (auto simp: find_None_iff)

lemma find_error_Some: "find (\<lambda>r. r \<noteq> None) results = Some r \<Longrightarrow> r \<noteq> None"
  by (auto simp: find_Some_iff)

lemma boot_and_test_well:
  assumes "start_guests w (lan_fds (hn_lans h1)) (hn_vms h1) = (results, vms)"
  shows "fst (boot_and_test w h1) = None \<longleftrightarrow> \<not> tw_signal w \<and> set results \<subseteq> {None} \<and> fst (tw_test w vms) = None"
  using assms find_error [of results] find_error_Some [of results]
  by (auto simp: boot_and_test_def Let_def detach_all_eq split: option.splits prod.splits)

lemma machines_run_well: "fst (outcome_of w spec h) = None \<longleftrightarrow> all_went_well w spec h"
proof (cases spec)
  case (Inr d)
  obtain e h1 where p: "make_ready w d h = (e, h1)" by force
  obtain results vms where s: "start_guests w (lan_fds (hn_lans h1)) (hn_vms h1) = (results, vms)" by force
  have "fst (machines_run w d h) = None \<longleftrightarrow> e = None \<and> fst (boot_and_test w h1) = None"
    by (auto simp: machines_run_def p split: option.splits prod.splits)
  then show ?thesis using boot_and_test_well [OF s] by (auto simp: outcome_of_def all_went_well_def Inr p s)
qed (simp add: outcome_of_def all_went_well_def)

lemma end_of_test_passed: "fst (end_of_test w (e, h)) = Run_passed \<longleftrightarrow> e = None"
  by (auto simp: end_of_test_def split: option.splits exn.splits if_splits)

lemma end_of_test_written:
  "\<exists>error. hn_written (snd (end_of_test w (e, h))) = hn_written h @
     (if dict_get (tw_environ w) REPORT_ENV [] = [] then []
      else [(dict_get (tw_environ w) REPORT_ENV [], report_body (tw_ended w) (e = None) error (tw_report w))])"
  by (auto simp: end_of_test_def record_end_def fail_line_def Let_def split: option.splits exn.splits)

text \<open>
  C26: The verdict of a test. It passes exactly when the specification could be read and prepared, every guest came
  up, no signal came meanwhile, and the test returned; and where a file for the timings is named, exactly one report is
  written there, however the run ended, and its \<open>passed\<close> is that verdict.
\<close>

theorem verdict_written:
  "(fst (run_test w spec h) = Run_passed \<longleftrightarrow> all_went_well w spec h) \<and>
   (\<exists>error. hn_written (snd (run_test w spec h)) = hn_written h @
     (if dict_get (tw_environ w) REPORT_ENV [] = [] then []
      else [(dict_get (tw_environ w) REPORT_ENV [], report_body (tw_ended w) (all_went_well w spec h) error (tw_report w))]))"
proof -
  obtain e h1 where o: "outcome_of w spec h = (e, h1)" by force
  then have r: "run_test w spec h = end_of_test w (e, h1)" by (simp add: run_test_def outcome_of_def)
  have h1: "hn_written h1 = hn_written h"
    using o machines_run_written by (auto simp: outcome_of_def split: sum.splits)
  have e: "all_went_well w spec h \<longleftrightarrow> e = None" using machines_run_well [of w spec h] o by simp
  show ?thesis unfolding r e using end_of_test_passed end_of_test_written [of w e h1] unfolding h1 by blast
qed

end
