(* ===== verification/Runner_Cli.thy ===== *)
theory Runner_Cli
  imports Harness
begin

text \<open>
  \<^verbatim>\<open>src/pkgs/uml-runner/uml_runner/cli.py\<close>: one guest, with a command or left running. The parsed arguments are a
  record; how the guest starts, answers and stops, what it says it listens on at each poll until the watcher is cancelled, and how
  the wait for it ends are data of a \<open>cli_world\<close>.
\<close>

record guest_args =
  ra_image :: string
  ra_memory :: string
  ra_ssh_port :: int
  ra_mtu :: int
  ra_forward :: string
  ra_command :: "string option"

record cli_world =
  uw_loads :: "string \<Rightarrow> json option"
  uw_can_bind :: "string \<Rightarrow> int \<Rightarrow> bool"
  uw_low :: int
  uw_ephemeral :: "int \<times> int"
  uw_now :: seconds
  uw_start :: start_world
  uw_answer :: "(int \<times> string) answered"
  uw_took :: seconds
  uw_polls :: "(exn + int list) list"
  uw_wait :: "exn + int option"
  uw_read :: "string \<Rightarrow> string option"
  uw_stop :: stop_world

section \<open>What the guest listens on\<close>

definition port_where :: "cli_world \<Rightarrow> machine \<Rightarrow> int \<Rightarrow> string list" where
  "port_where w m port = reachable (mp_forward (ma_spec m)) port (uw_low w) (uw_ephemeral w)"

definition port_line :: "cli_world \<Rightarrow> machine \<Rightarrow> int \<Rightarrow> string" where
  "port_line w m port =
     (let ps = port_where w m port in
      ''[uml]     '' @ ljust 6 (show_int port) @ ''-> '' @ (if ps \<noteq> [] then join '', '' ps else ''not forwarded''))"

definition report_ports :: "cli_world \<Rightarrow> machine \<Rightarrow> int list \<Rightarrow> string list" where
  "report_ports w m ports = (if ports = [] then [] else ''[uml] listening in guest:'' # map (port_line w m) ports)"

text \<open>\<open>_watch\<close>: it ends when the guest no longer answers; an exception of another kind ends its task, which no one reads.\<close>

fun watch :: "cli_world \<Rightarrow> machine \<Rightarrow> int list \<Rightarrow> (exn + int list) list \<Rightarrow> string list" where
  "watch w m seen [] = []"
| "watch w m seen (Inl e # polls) = []"
| "watch w m seen (Inr ports # polls) =
     (if ports \<noteq> seen then report_ports w m (filter (\<lambda>p. p \<notin> set seen) ports) @ watch w m ports polls
      else watch w m seen polls)"

section \<open>The run\<close>

definition cli_spec :: "guest_args \<Rightarrow> rule list \<Rightarrow> machine_spec" where
  "cli_spec a rules =
     \<lparr> mp_name = ''uml'', mp_backend = ''uml'', mp_index = 0, mp_image = Some (ra_image a), mp_memory = ra_memory a,
       mp_seccomp = ''auto'', mp_cpus = 1, mp_ssh_port = ra_ssh_port a, mp_mtu = ra_mtu a, mp_network = None,
       mp_address = None, mp_store = ''/nix'', mp_boot = [], mp_forward = rules \<rparr>"

definition forward_arg :: "cli_world \<Rightarrow> guest_args \<Rightarrow> exn + rule list" where
  "forward_arg w a =
     (case uw_loads w (ra_forward a) of
        None \<Rightarrow> Inl (Exn ''JSONDecodeError'' [])
      | Some v \<Rightarrow> and_then (list_items v) (\<lambda>xs. case map_result rule_item xs of Inl e \<Rightarrow> Inl (fault e) | Inr rs \<Rightarrow> Inr rs))"

definition up_line :: "cli_world \<Rightarrow> guest_args \<Rightarrow> machine \<Rightarrow> string" where
  "up_line w a m =
     (case port_where w m (ra_ssh_port a) of
        p # _ \<Rightarrow> (case py_rpartition (CHR '':'') p of (address, _, port) \<Rightarrow>
                   ''[uml] up; ssh -p '' @ port @ '' root@'' @ address @ '', ^C to stop'')
      | [] \<Rightarrow> ''[uml] up; guest port '' @ show_int (ra_ssh_port a) @ '' is not forwarded, ^C to stop'')"

text \<open>The body of the \<open>try\<close>: the exit code, the machine, and what was printed.\<close>

definition command_of :: "guest_args \<Rightarrow> string option" where
  "command_of a = (case ra_command a of None \<Rightarrow> None | Some c \<Rightarrow> if c = [] then None else Some c)"

definition serve_guest :: "cli_world \<Rightarrow> guest_args \<Rightarrow> machine \<Rightarrow> (exn + int) \<times> machine \<times> string list" where
  "serve_guest w a m =
     (case command_of a of
        Some c \<Rightarrow>
          (case execute_command c None (uw_answer w) (uw_took w) m of
             (Inl e, m1) \<Rightarrow> (Inl e, m1, [])
           | (Inr (rc, out), m1) \<Rightarrow> (Inr rc, m1, [out]))
      | None \<Rightarrow>
          (let said = up_line w a m # watch w m [] (uw_polls w) in
           case uw_wait w of
             Inl e \<Rightarrow> (Inl e, m, said)
           | Inr code \<Rightarrow> (case wait_exit code m of (r, m1) \<Rightarrow> (r, m1, said))))"

text \<open>What the shutdown raises takes the place of what the body came to.\<close>

definition stop_guest :: "cli_world \<Rightarrow> (exn + int) \<times> machine \<times> string list \<Rightarrow> (exn + int) \<times> machine \<times> string list" where
  "stop_guest w t =
     (case t of (r, m, said) \<Rightarrow>
        (case shutdown (uw_read w) (uw_stop w) m of
           (Some e, m1) \<Rightarrow> (Inl e, m1, said)
         | (None, m1) \<Rightarrow> (r, m1, said)))"

definition run_guest :: "cli_world \<Rightarrow> guest_args \<Rightarrow> (exn + int) \<times> machine option \<times> string list" where
  "run_guest w a =
     (case forward_arg w a of
        Inl e \<Rightarrow> (Inl e, None, [])
      | Inr rules \<Rightarrow>
         (case settle_forward (uw_can_bind w) (uw_low w) {} (new_machine (cli_spec a rules) (uw_now w)) of
            (Inl e, m) \<Rightarrow> (Inl e, Some m, [])
          | (Inr _, m) \<Rightarrow>
             (case machine_start (uw_start w) None BOOT_TIMEOUT m of
                (Some e, m1) \<Rightarrow> (Inl e, Some m1, [])
              | (None, m1) \<Rightarrow> (case stop_guest w (serve_guest w a m1) of (r, m2, said) \<Rightarrow> (r, Some m2, said)))))"

text \<open>\<open>main\<close>: a \<open>KeyboardInterrupt\<close> reaches it as the cancellation of \<open>run_guest\<close>.\<close>

datatype cli_end = Cli_exits int "string list" | Cli_raises exn

definition runner_main :: "cli_world \<Rightarrow> guest_args \<Rightarrow> cli_end" where
  "runner_main w a =
     (case fst (run_guest w a) of
        Inr code \<Rightarrow> Cli_exits code []
      | Inl Cancelled \<Rightarrow> Cli_exits 130 []
      | Inl (Exn n t) \<Rightarrow>
          if n \<in> {''MachineError'', ''ForwardError''} then Cli_exits 1 [''[uml] '' @ t] else Cli_raises (Exn n t))"

section \<open>What is told of the ports\<close>

text \<open>The ports one poll adds to the last one that answered.\<close>

fun added :: "int list \<Rightarrow> (exn + int list) list \<Rightarrow> int list list" where
  "added seen [] = []"
| "added seen (Inl e # polls) = []"
| "added seen (Inr ports # polls) = filter (\<lambda>p. p \<notin> set seen) ports # added ports polls"

lemma watch_tells_added: "watch w m seen polls = concat (map (report_ports w m) (added seen polls))"
  by (induction seen polls rule: added.induct) (auto simp: report_ports_def)

section \<open>What is left of the guest\<close>

lemma settled_idle:
  assumes "settle_forward can_bind low taken (new_machine s now) = (r, m)"
  shows "idle m"
  using settle_forward_idle [OF assms] idle_new by simp

lemma serve_guest_life:
  assumes "serve_guest w a m = (r, m1, said)" and "life_ok m"
  shows "life_ok m1"
proof (cases "command_of a")
  case (Some c)
  have "life_ok (snd (execute_command c None (uw_answer w) (uw_took w) m))"
    using assms(2) life_ok_step [OF life.asked]
    by (simp add: execute_command_def ask_agent_def)
  with assms(1) Some show ?thesis by (auto simp: serve_guest_def split: prod.splits sum.splits)
next
  case None
  show ?thesis
  proof (cases "uw_wait w")
    case (Inl e)
    with assms None show ?thesis by (simp add: serve_guest_def Let_def)
  next
    case (Inr code)
    with assms None show ?thesis
      by (auto simp: serve_guest_def Let_def split: prod.splits intro: life_ok_step [OF life.waited])
  qed
qed

text \<open>
  Whatever is asked of a guest that came up, and however that ends, nothing of it is left; a guest that was spawned and
  did not come up is left as it is, with its process and its directory, because \<open>start\<close> is not inside the \<open>try\<close>.
\<close>

lemma guest_stopped:
  assumes "machine_start sw None BOOT_TIMEOUT m = (None, m1)" and "idle m" and "stops_cleanly (uw_stop w)"
    and "stop_guest w (serve_guest w a m1) = (r, m2, said)"
  shows "nothing_left m2"
proof -
  obtain r1 m3 said1 where s: "serve_guest w a m1 = (r1, m3, said1)" by (metis prod_cases3)
  have "life_ok m1" using assms(1,2) life_ok_start unfolding machine_started_def by blast
  with s have l: "life_ok m3" by (rule serve_guest_life)
  obtain m4 where d: "shutdown (uw_read w) (uw_stop w) m3 = (None, m4)" using shutdown_returns [OF assms(3)] by blast
  with assms(4) s have "m2 = m4" by (simp add: stop_guest_def)
  with shutdown_of_life [OF l d] assms(3) show ?thesis by (auto simp: nothing_left_def stops_cleanly_def)
qed

lemma late_guest_kept:
  assumes "idle m" and "aw_plan sw = Inr plan" and "aw_spawn sw = Inr (pid, grp)" and "aw_ready sw = No_agent"
    and "machine_start sw None BOOT_TIMEOUT m = (e, m1)"
  shows "e \<noteq> None \<and> pid \<in> ma_running m1 \<and> aw_rundir sw \<in> ma_dirs m1"
proof -
  have e: "e = fst (machine_start sw None BOOT_TIMEOUT m)" "m1 = snd (machine_start sw None BOOT_TIMEOUT m)" using assms(5) by simp_all
  show ?thesis using assms(1-4) unfolding e
    by (simp add: machine_start_def Let_def start_ready_def start_spawned_def start_adopt_def start_prepare_def idle_def log_line_def)
qed

end
