(* ===== verification/Arguments.thy ===== *)
theory Arguments
  imports Py_Strings
begin

text \<open>
  What the programs of the repository use of Python's \<open>argparse\<close>: a parser is its table of options and
  positionals (\<open>grammar\<close>), and \<open>parse_known\<close> is \<open>parse_known_args\<close>. An option may be written out,
  abbreviated, joined with its value by \<open>=\<close>, or clustered with other flags of one letter; the positionals are
  taken greedily between the options, as since Python 3.12.7, and what nothing takes is
  left over. \<^const>\<open>Inl\<close> is the status the program exits with: 2 for an error, 0 after \<open>--help\<close>.
\<close>

section \<open>Tables\<close>

datatype conversion = To_text | To_int

datatype opt_action = Store conversion | Append | Store_true | Count_up | Show_help

datatype arity = Exactly_one | At_most_one | Remainder | Command_words

datatype arg_value = A_none | A_text string | A_int int | A_texts "string list" | A_flag bool | A_count nat

record opt_arg =
  oa_flags :: "string list"
  oa_dest :: string
  oa_action :: opt_action
  oa_default :: arg_value
  oa_required :: bool

record pos_arg =
  pa_dest :: string
  pa_arity :: arity
  pa_default :: arg_value
  pa_choices :: "string list option"

record grammar =
  gr_opts :: "opt_arg list"
  gr_pos :: "pos_arg list"

type_synonym arg_space = "(string, arg_value) dict"

text \<open>Every parser has \<open>-h\<close>.\<close>

definition help_opt :: opt_arg where
  "help_opt = \<lparr>oa_flags = [''-h'', ''--help''], oa_dest = ''help'', oa_action = Show_help, oa_default = A_none, oa_required = False\<rparr>"

definition all_opts :: "grammar \<Rightarrow> opt_arg list" where
  "all_opts g = help_opt # gr_opts g"

definition find_flag :: "grammar \<Rightarrow> string \<Rightarrow> opt_arg option" where
  "find_flag g w = find (\<lambda>x. w \<in> set (oa_flags x)) (all_opts g)"

definition takes_value :: "opt_arg \<Rightarrow> bool" where
  "takes_value x = (case oa_action x of Store _ \<Rightarrow> True | Append \<Rightarrow> True | _ \<Rightarrow> False)"

section \<open>What a word is\<close>

text \<open>An option that a word stands for, whether by a flag of one dash, and the value joined to it, with whether a \<open>=\<close> joins it.\<close>

datatype word_class = Is_arg | Is_dashes | Is_opt opt_arg bool "(bool \<times> string) option" | Is_unknown | Is_ambiguous

definition DASH :: char where "DASH = CHR ''-''"

definition one_dash :: "string \<Rightarrow> bool" where
  "one_dash w = (case w of a # b # _ \<Rightarrow> a = DASH \<and> b \<noteq> DASH | _ \<Rightarrow> False)"

definition negative_number :: "string \<Rightarrow> bool" where
  "negative_number w =
     (let v = (if w \<noteq> [] \<and> last w = LF then butlast w else w) in
      case py_partition (CHR ''.'') (tl v) of (a, point, b) \<Rightarrow>
        v \<noteq> [] \<and> hd v = DASH \<and> list_all is_digit a \<and> list_all is_digit b \<and> (if point = [] then a \<noteq> [] else b \<noteq> []))"

text \<open>\<open>_get_option_tuples\<close>: the options a word may abbreviate. A flag of one dash has one letter in every table here.\<close>

definition abbreviated :: "grammar \<Rightarrow> string \<Rightarrow> word_class list" where
  "abbreviated g w =
     (if one_dash w then
        (case find_flag g (take 2 w) of Some x \<Rightarrow> [Is_opt x True (Some (False, drop 2 w))] | None \<Rightarrow> [])
      else
        (case py_partition (CHR ''='') w of (a, eq, e) \<Rightarrow>
           map (\<lambda>(x, f). Is_opt x False (if eq = [] then None else Some (True, e)))
             (filter (\<lambda>(x, f). startswith f a) (concat (map (\<lambda>x. map (Pair x) (oa_flags x)) (all_opts g))))))"

definition classify :: "grammar \<Rightarrow> string \<Rightarrow> word_class" where
  "classify g w =
     (if w = [] \<or> hd w \<noteq> DASH then Is_arg
      else case find_flag g w of
        Some x \<Rightarrow> Is_opt x (one_dash w) None
      | None \<Rightarrow>
         if w = [DASH] then Is_arg
         else (case py_partition (CHR ''='') w of (a, eq, e) \<Rightarrow>
           (case if eq = [] then None else find_flag g a of
              Some x \<Rightarrow> Is_opt x (one_dash a) (Some (True, e))
            | None \<Rightarrow>
               (case abbreviated g w of
                  [] \<Rightarrow> if negative_number w \<or> CHR '' '' \<in> set w then Is_arg else Is_unknown
                | [c] \<Rightarrow> c
                | _ \<Rightarrow> Is_ambiguous))))"

text \<open>After a \<open>--\<close> no word is an option.\<close>

fun classify_all :: "grammar \<Rightarrow> string list \<Rightarrow> (string \<times> word_class) list" where
  "classify_all g [] = []"
| "classify_all g (w # ws) =
     (if w = [DASH, DASH] then (w, Is_dashes) # map (\<lambda>v. (v, Is_arg)) ws
      else (w, classify g w) # classify_all g ws)"

definition is_option :: "string \<times> word_class \<Rightarrow> bool" where
  "is_option wc \<longleftrightarrow> snd wc \<notin> {Is_arg, Is_dashes}"

section \<open>Taking an option\<close>

text \<open>
  \<open>consume_optional\<close>. A flag that takes no value leaves the letters joined to it to further flags. \<open>joined\<close>
  answers the options taken, the one that still may want a value from the next word, and what is left over.
\<close>

fun joined :: "grammar \<Rightarrow> opt_arg \<Rightarrow> bool \<Rightarrow> bool \<Rightarrow> string \<Rightarrow>
    ((opt_arg \<times> string option) list \<times> opt_arg option \<times> string list) option" where
  "joined g x short eq e =
     (if takes_value x then Some ([(x, Some e)], None, [])
      else if \<not> short \<or> eq then None
      else (case e of
        [] \<Rightarrow> None
      | c # cs \<Rightarrow>
         if c = DASH then None
         else (case find_flag g [DASH, c] of
           None \<Rightarrow> Some ([(x, None)], None, [DASH # e])
         | Some y \<Rightarrow>
            (case cs of
               [] \<Rightarrow> Some ([(x, None)], Some y, [])
             | d # ds \<Rightarrow>
                (case (if d = CHR ''='' then joined g y True True ds else joined g y True False cs) of
                   None \<Rightarrow> None
                 | Some (taken, wants, left) \<Rightarrow> Some ((x, None) # taken, wants, left))))))"

declare joined.simps [simp del]

definition want_value ::
  "opt_arg \<Rightarrow> (string \<times> word_class) list \<Rightarrow> ((opt_arg \<times> string option) list \<times> (string \<times> word_class) list) option" where
  "want_value x rest =
     (if takes_value x then (case rest of (v, Is_arg) # r \<Rightarrow> Some ([(x, Some v)], r) | _ \<Rightarrow> None)
      else Some ([(x, None)], rest))"

fun consume_optional ::
  "grammar \<Rightarrow> string \<times> word_class \<Rightarrow> (string \<times> word_class) list \<Rightarrow>
   ((opt_arg \<times> string option) list \<times> string list \<times> (string \<times> word_class) list) option" where
  "consume_optional g (w, Is_opt x short None) rest =
     (case want_value x rest of None \<Rightarrow> None | Some (taken, r) \<Rightarrow> Some (taken, [], r))"
| "consume_optional g (w, Is_opt x short (Some (eq, e))) rest =
     (case joined g x short eq e of
        None \<Rightarrow> None
      | Some (taken, None, left) \<Rightarrow> Some (taken, left, rest)
      | Some (taken, Some y, left) \<Rightarrow>
          (case want_value y rest of None \<Rightarrow> None | Some (more_taken, r) \<Rightarrow> Some (taken @ more_taken, left, r)))"
| "consume_optional g (w, Is_unknown) rest = Some ([], [w], rest)"
| "consume_optional g (w, _) rest = None"

text \<open>What an option does to the namespace.\<close>

definition given :: "string option \<Rightarrow> string" where
  "given v = (case v of None \<Rightarrow> [] | Some s \<Rightarrow> s)"

definition take_opt :: "opt_arg \<times> string option \<Rightarrow> arg_space \<Rightarrow> nat + arg_space" where
  "take_opt t ns =
     (case t of (x, v) \<Rightarrow>
       (case oa_action x of
          Show_help \<Rightarrow> Inl 0
        | Store_true \<Rightarrow> Inr (AList.update (oa_dest x) (A_flag True) ns)
        | Count_up \<Rightarrow> Inr (AList.update (oa_dest x)
            (case map_of ns (oa_dest x) of Some (A_count n) \<Rightarrow> A_count (Suc n) | _ \<Rightarrow> A_count 1) ns)
        | Append \<Rightarrow> Inr (AList.update (oa_dest x)
            (case map_of ns (oa_dest x) of Some (A_texts vs) \<Rightarrow> A_texts (vs @ [given v]) | _ \<Rightarrow> A_texts [given v]) ns)
        | Store To_text \<Rightarrow> Inr (AList.update (oa_dest x) (A_text (given v)) ns)
        | Store To_int \<Rightarrow>
            (case py_int (given v) of None \<Rightarrow> Inl 2 | Some i \<Rightarrow> Inr (AList.update (oa_dest x) (A_int i) ns))))"

fun take_opts :: "(opt_arg \<times> string option) list \<Rightarrow> arg_space \<Rightarrow> nat + arg_space" where
  "take_opts [] ns = Inr ns"
| "take_opts (t # ts) ns = and_then (take_opt t ns) (take_opts ts)"

section \<open>Taking positionals\<close>

text \<open>How many words a positional takes, of those in front.\<close>

definition a_dash :: "(string \<times> word_class) list \<Rightarrow> nat" where
  "a_dash ws = (case ws of (_, Is_dashes) # _ \<Rightarrow> 1 | _ \<Rightarrow> 0)"

definition match_pos :: "arity \<Rightarrow> (string \<times> word_class) list \<Rightarrow> nat option" where
  "match_pos a ws =
     (let n = a_dash ws in
      case a of
        Remainder \<Rightarrow> Some (length ws)
      | Command_words \<Rightarrow> (case drop n ws of (_, Is_arg) # _ \<Rightarrow> Some (length ws) | _ \<Rightarrow> None)
      | Exactly_one \<Rightarrow> (case drop n ws of (_, Is_arg) # r \<Rightarrow> Some (n + 1 + a_dash r) | _ \<Rightarrow> None)
      | At_most_one \<Rightarrow> (case drop n ws of (_, Is_arg) # r \<Rightarrow> Some (n + 1 + a_dash r) | _ \<Rightarrow> Some n))"

fun match_most :: "pos_arg list \<Rightarrow> (string \<times> word_class) list \<Rightarrow> nat list" where
  "match_most [] ws = []"
| "match_most (p # ps) ws =
     (case match_pos (pa_arity p) ws of None \<Rightarrow> [] | Some n \<Rightarrow> n # match_most ps (drop n ws))"

text \<open>One that would take nothing in front of an option waits.\<close>

definition match_counts :: "pos_arg list \<Rightarrow> (string \<times> word_class) list \<Rightarrow> nat list" where
  "match_counts ps ws =
     (let ns = match_most ps ws; rest = drop (sum_list ns) ws in
      if rest \<noteq> [] \<and> is_option (hd rest) then rev (dropWhile (\<lambda>n. n = 0) (rev ns)) else ns)"

definition in_choices :: "pos_arg \<Rightarrow> string \<Rightarrow> bool" where
  "in_choices p v = (case pa_choices p of None \<Rightarrow> True | Some vs \<Rightarrow> v \<in> set vs)"

definition take_pos :: "pos_arg \<Rightarrow> string list \<Rightarrow> arg_space \<Rightarrow> nat + arg_space" where
  "take_pos p words ns =
     (case pa_arity p of
        Remainder \<Rightarrow> Inr (AList.update (pa_dest p) (A_texts words) ns)
      | Command_words \<Rightarrow> (let ws = (if hd words = [DASH, DASH] then tl words else words) in
          if in_choices p (hd ws) then Inr (AList.update (pa_dest p) (A_texts ws) ns) else Inl 2)
      | _ \<Rightarrow> (case remove1 [DASH, DASH] words of
          v # _ \<Rightarrow> if in_choices p v then Inr (AList.update (pa_dest p) (A_text v) ns) else Inl 2
        | [] \<Rightarrow> Inr (AList.update (pa_dest p) (pa_default p) ns)))"

text \<open>\<open>consume_positionals\<close>: the namespace, the positionals that are left, and the words that are.\<close>

fun take_each ::
  "nat list \<Rightarrow> pos_arg list \<Rightarrow> (string \<times> word_class) list \<Rightarrow> arg_space \<Rightarrow>
   nat + (arg_space \<times> pos_arg list \<times> (string \<times> word_class) list)" where
  "take_each (n # counts) (p # ps) ws ns =
     and_then (take_pos p (map fst (take n ws)) ns) (take_each counts ps (drop n ws))"
| "take_each _ ps ws ns = Inr (ns, ps, ws)"

definition consume_positionals ::
  "pos_arg list \<Rightarrow> (string \<times> word_class) list \<Rightarrow> arg_space \<Rightarrow>
   nat + (arg_space \<times> pos_arg list \<times> (string \<times> word_class) list)" where
  "consume_positionals ps ws ns = take_each (match_counts ps ws) ps ws ns"

lemma take_each_rest: "take_each counts ps ws ns = Inr (ns', ps', rest) \<Longrightarrow> length rest \<le> length ws"
proof (induction counts ps ws ns rule: take_each.induct)
  case (1 n counts p ps ws ns)
  then obtain ns1 where "take_each counts ps (drop n ws) ns1 = Inr (ns', ps', rest)"
      "take_pos p (map fst (take n ws)) ns = Inr ns1" by (auto simp: and_then_Inr)
  from "1.IH" [OF this(1)] show ?case by simp
qed auto

lemma consume_positionals_rest: "consume_positionals ps ws ns = Inr (ns', ps', rest) \<Longrightarrow> length rest \<le> length ws"
  by (auto simp: consume_positionals_def dest: take_each_rest)

lemma want_value_rest: "want_value x rest = Some (t, r) \<Longrightarrow> length r \<le> length rest"
  by (auto simp: want_value_def split: if_splits list.splits word_class.splits prod.splits)

lemma consume_optional_rest: "consume_optional g wc rest = Some (t, l, r) \<Longrightarrow> length r \<le> length rest"
  by (induction g wc rest rule: consume_optional.induct)
    (auto split: option.splits prod.splits dest: want_value_rest)

section \<open>The loop\<close>

lemma dropWhile_shorter: "\<not> P (hd ws) \<Longrightarrow> list_ex P ws \<Longrightarrow> length (dropWhile (\<lambda>w. \<not> P w) ws) < length ws"
  by (cases ws) (auto intro: le_imp_less_Suc length_dropWhile_le)

function parse_words ::
  "grammar \<Rightarrow> pos_arg list \<Rightarrow> (string \<times> word_class) list \<Rightarrow> arg_space \<Rightarrow> string list \<Rightarrow>
   nat + (arg_space \<times> pos_arg list \<times> string list)" where
  "parse_words g ps ws ns extras =
     (if \<not> list_ex is_option ws then
        (case consume_positionals ps ws ns of
           Inl code \<Rightarrow> Inl code
         | Inr (ns', ps', rest) \<Rightarrow> Inr (ns', ps', extras @ map fst rest))
      else if \<not> is_option (hd ws) then
        (case consume_positionals ps ws ns of
           Inl code \<Rightarrow> Inl code
         | Inr (ns', ps', rest) \<Rightarrow>
             if length rest < length ws then parse_words g ps' rest ns' extras
             else parse_words g ps' (dropWhile (\<lambda>w. \<not> is_option w) ws) ns'
               (extras @ map fst (takeWhile (\<lambda>w. \<not> is_option w) ws)))
      else
        (case consume_optional g (hd ws) (tl ws) of
           None \<Rightarrow> Inl 2
         | Some (taken, left, rest) \<Rightarrow>
             (case take_opts taken ns of
                Inl code \<Rightarrow> Inl code
              | Inr ns' \<Rightarrow> parse_words g ps rest ns' (extras @ left))))"
  by pat_completeness auto

termination
proof (relation "measure (\<lambda>(g, ps, ws, ns, extras). length ws)", goal_cases)
  case (4 g ps ws ns extras z taken z' left rest ns')
  then show ?case by (cases ws) (auto dest!: consume_optional_rest)
qed (auto intro: dropWhile_shorter)

declare parse_words.simps [simp del]

section \<open>The namespace\<close>

definition defaults :: "grammar \<Rightarrow> arg_space" where
  "defaults g =
     map (\<lambda>x. (oa_dest x, oa_default x)) (gr_opts g) @ map (\<lambda>p. (pa_dest p, pa_default p)) (gr_pos g)"

definition lacking :: "grammar \<Rightarrow> arg_space \<Rightarrow> pos_arg list \<Rightarrow> bool" where
  "lacking g ns ps \<longleftrightarrow>
     (\<exists>x\<in>set (gr_opts g). oa_required x \<and> map_of ns (oa_dest x) = Some A_none) \<or> ps \<noteq> []"

definition parse_known :: "grammar \<Rightarrow> string list \<Rightarrow> nat + arg_space \<times> string list" where
  "parse_known g argv =
     and_then (parse_words g (gr_pos g) (classify_all g argv) (defaults g) []) (\<lambda>(ns, ps, extras).
       if lacking g ns ps then Inl 2 else Inr (ns, extras))"

text \<open>\<open>parse_args\<close> refuses what is left over.\<close>

definition parse_exactly :: "grammar \<Rightarrow> string list \<Rightarrow> nat + arg_space" where
  "parse_exactly g argv = and_then (parse_known g argv) (\<lambda>(ns, extras). if extras = [] then Inr ns else Inl 2)"

text \<open>A parser of commands: the first word that is no option chooses the table for everything behind it.\<close>

definition command_grammar :: "string \<Rightarrow> (string, grammar) dict \<Rightarrow> grammar" where
  "command_grammar dest commands =
     \<lparr>gr_opts = [], gr_pos = [\<lparr>pa_dest = dest, pa_arity = Command_words, pa_default = A_none, pa_choices = Some (map fst commands)\<rparr>]\<rparr>"

definition parse_commands :: "string \<Rightarrow> (string, grammar) dict \<Rightarrow> string list \<Rightarrow> nat + string \<times> arg_space" where
  "parse_commands dest commands argv =
     and_then (parse_known (command_grammar dest commands) argv) (\<lambda>(ns, extras).
       (case map_of ns dest of
          Some (A_texts (c # words)) \<Rightarrow>
            (case map_of commands c of
               None \<Rightarrow> Inl 2
             | Some g \<Rightarrow> and_then (parse_known g words) (\<lambda>(inner, left).
                 if extras @ left = [] then Inr (c, inner) else Inl 2))
        | _ \<Rightarrow> Inl 2))"

section \<open>Reading what was written out\<close>

definition plain :: "string \<Rightarrow> bool" where
  "plain w \<longleftrightarrow> w = [] \<or> hd w \<noteq> DASH"

lemma plain_no_dashes: "plain w \<Longrightarrow> w \<noteq> [DASH, DASH]"
  by (auto simp: plain_def)

lemma classify_plain: "plain w \<Longrightarrow> classify g w = Is_arg"
  by (auto simp: plain_def classify_def)

lemma classify_all_plain: "plain w \<Longrightarrow> classify_all g (w # ws) = (w, Is_arg) # classify_all g ws"
  using plain_no_dashes [of w] by (simp add: classify_plain)

lemma classify_all_fst: "map fst (classify_all g ws) = ws"
  by (induction ws) (simp_all add: comp_def)

lemma parse_value:
  assumes "classify g f = Is_opt x s None" "f \<noteq> [DASH, DASH]" "takes_value x" "plain v"
  shows "parse_words g ps (classify_all g (f # v # ws)) ns ex =
    (case take_opt (x, Some v) ns of Inl c \<Rightarrow> Inl c | Inr ns' \<Rightarrow> parse_words g ps (classify_all g ws) ns' ex)"
  by (subst parse_words.simps)
    (use assms plain_no_dashes [OF assms(4)] in \<open>auto simp: is_option_def want_value_def classify_plain and_then_def split: sum.splits\<close>)

lemma parse_flag:
  assumes "classify g f = Is_opt x s None" "f \<noteq> [DASH, DASH]" "\<not> takes_value x"
  shows "parse_words g ps (classify_all g (f # ws)) ns ex =
    (case take_opt (x, None) ns of Inl c \<Rightarrow> Inl c | Inr ns' \<Rightarrow> parse_words g ps (classify_all g ws) ns' ex)"
  by (subst parse_words.simps) (use assms in \<open>auto simp: is_option_def want_value_def and_then_def split: sum.splits\<close>)

lemma parse_unknown:
  assumes "classify g f = Is_unknown" "f \<noteq> [DASH, DASH]"
  shows "parse_words g ps (classify_all g (f # ws)) ns ex = parse_words g ps (classify_all g ws) ns (ex @ [f])"
  by (subst parse_words.simps) (use assms in \<open>auto simp: is_option_def\<close>)

lemma consume_none [simp]: "consume_positionals [] ws ns = Inr (ns, [], ws)"
  by (simp add: consume_positionals_def match_counts_def)

lemma parse_end: "parse_words g [] [] ns ex = Inr (ns, [], ex)"
  by (subst parse_words.simps) simp

text \<open>With no positional left to fill, an argument is left over.\<close>

lemma parse_left:
  assumes "plain v"
  shows "parse_words g [] (classify_all g (v # ws)) ns ex = parse_words g [] (classify_all g ws) ns (ex @ [v])"
proof -
  have v: "\<not> is_option (v, Is_arg)" by (simp add: is_option_def)
  let ?cs = "classify_all g ws"
  consider "\<not> list_ex is_option ?cs" | c cs where "?cs = c # cs" "is_option c" | "list_ex is_option ?cs" "\<not> is_option (hd ?cs)"
    by (cases ?cs) auto
  then show ?thesis
  proof cases
    case 2
    then show ?thesis unfolding classify_all_plain [OF assms] by (subst parse_words.simps) (simp add: v)
  next
    case 3
    then show ?thesis unfolding classify_all_plain [OF assms]
      by (subst parse_words.simps, subst (2) parse_words.simps) (simp add: v)
  qed (unfold classify_all_plain [OF assms], subst parse_words.simps, subst (2) parse_words.simps, simp add: v)
qed

lemma parse_appends:
  assumes f: "classify g f = Is_opt x s None" "f \<noteq> [DASH, DASH]" and x: "oa_action x = Append"
  shows "\<forall>n\<in>set names. plain n \<Longrightarrow> map_of ns (oa_dest x) = Some (A_texts vs) \<Longrightarrow>
    parse_words g ps (classify_all g (concat (map (\<lambda>n. [f, n]) names) @ ws)) ns ex =
    parse_words g ps (classify_all g ws) (AList.update (oa_dest x) (A_texts (vs @ names)) ns) ex"
proof (induction names arbitrary: ns vs)
  case Nil
  then show ?case by (simp add: update_triv)
next
  case (Cons n names)
  have "takes_value x" using x by (simp add: takes_value_def)
  moreover have "plain n" using Cons.prems by simp
  moreover have "take_opt (x, Some n) ns = Inr (AList.update (oa_dest x) (A_texts (vs @ [n])) ns)"
    using x Cons.prems by (simp add: take_opt_def given_def)
  ultimately show ?case
    using Cons.IH [of "AList.update (oa_dest x) (A_texts (vs @ [n])) ns" "vs @ [n]"] Cons.prems
    by (simp add: parse_value [OF f] update_conv' del: classify_all.simps)
qed

text \<open>An option a parser does not know is left over with its value.\<close>

lemma parse_strangers:
  assumes "classify g f = Is_unknown" "f \<noteq> [DASH, DASH]"
  shows "\<forall>n\<in>set names. plain n \<Longrightarrow>
    parse_words g [] (classify_all g (concat (map (\<lambda>n. [f, n]) names) @ ws)) ns ex =
    parse_words g [] (classify_all g ws) ns (ex @ concat (map (\<lambda>n. [f, n]) names))"
proof (induction names arbitrary: ex)
  case (Cons n names)
  then show ?case using parse_unknown [OF assms, of "[]" "n # concat (map (\<lambda>n. [f, n]) names) @ ws"]
    by (simp add: parse_left del: classify_all.simps)
qed simp

text \<open>A command takes all that follows it.\<close>

lemma parse_commands_first:
  assumes c: "plain c" and g: "map_of commands c = Some g"
  shows "parse_commands dest commands (c # ws) =
    and_then (parse_known g ws) (\<lambda>(inner, left). if left = [] then Inr (c, inner) else Inl 2)"
proof -
  let ?g = "command_grammar dest commands" and ?cs = "(c, Is_arg) # classify_all (command_grammar dest commands) ws"
  let ?p = "\<lparr>pa_dest = dest, pa_arity = Command_words, pa_default = A_none, pa_choices = Some (map fst commands)\<rparr>"
  have "c \<in> set (map fst commands)" using g by (metis domI dom_map_of_conv_image_fst set_map)
  then have "take_pos ?p (c # ws) [(dest, A_none)] = Inr [(dest, A_texts (c # ws))]"
    using plain_no_dashes [OF c] by (simp add: take_pos_def in_choices_def)
  then have all: "consume_positionals [?p] ?cs [(dest, A_none)] = Inr ([(dest, A_texts (c # ws))], [], [])"
    by (simp add: consume_positionals_def match_counts_def match_pos_def a_dash_def classify_all_fst)
  have "parse_words ?g [?p] ?cs [(dest, A_none)] [] = Inr ([(dest, A_texts (c # ws))], [], [])"
    by (subst parse_words.simps) (simp add: all is_option_def parse_end)
  then have "parse_known ?g (c # ws) = Inr ([(dest, A_texts (c # ws))], [])"
    unfolding parse_known_def classify_all_plain [OF c]
    by (simp add: command_grammar_def defaults_def lacking_def)
  with g show ?thesis by (simp add: parse_commands_def)
qed

end
