(* ===== verification/Demo.thy ===== *)
theory Demo
  imports Scheduler
begin

text \<open>
  A small run the witnesses are evaluated on: four phases over two guests, a booted session and an
  environment in which no line is JSON.
\<close>

definition demo_phase :: "string \<Rightarrow> string list \<Rightarrow> string list \<Rightarrow> phase_spec" where
  "demo_phase name after nodes =
     \<lparr> ph_name = name, ph_script = Some (''/nix/store/'' @ name @ ''.py''), ph_pytest = None,
       ph_after = after, ph_nodes = nodes, ph_always = False \<rparr>"

definition demo_phases :: "phase_spec list" where
  "demo_phases =
     [demo_phase ''build'' [] [''one''], demo_phase ''lint'' [] [''two''],
      demo_phase ''check'' [''build''] [''one''], demo_phase ''push'' [''check''] []]"

definition demo_spec :: spec where
  "demo_spec =
     \<lparr> sp_uml = None, sp_name = ''demo'', sp_machines = [], sp_phases = demo_phases, sp_settings = [],
       sp_pythonPath = [], sp_knobs = [], sp_kernel = None, sp_bridge = None, sp_passt = None,
       sp_qemu = None, sp_qemuImg = None, sp_virtiofsd = None, sp_crun = None, sp_setpriv = None \<rparr>"

definition demo_machine :: "string \<Rightarrow> machine_spec" where
  "demo_machine name =
     \<lparr> mp_name = name, mp_backend = ''uml'', mp_index = 0, mp_image = None, mp_memory = ''128M'',
       mp_seccomp = ''auto'', mp_cpus = 1, mp_ssh_port = 4325, mp_mtu = 65000, mp_network = None,
       mp_address = None, mp_store = ''/nix'', mp_boot = [], mp_forward = [] \<rparr>"

definition demo_guest :: "string \<Rightarrow> guest" where
  "demo_guest name = \<lparr> gu_spec = demo_machine name, gu_history = [''login:''], gu_alive = True \<rparr>"

definition demo_kernel :: kernel where
  "demo_kernel = \<lparr> kn_next = 0, kn_queue = (\<lambda>_. []), kn_limit = 4, kn_closed = {}, kn_readers = {} \<rparr>"

definition demo_session :: session where
  "demo_session =
     (new_session demo_spec ''out'' False True [] None 0 [] demo_kernel)
       \<lparr>se_vms := Some [(''one'', demo_guest ''one''), (''two'', demo_guest ''two'')]\<rparr>"

definition demo_config :: sched_config where
  "demo_config = \<lparr> sg_control = False, sg_breaks = {}, sg_break_on_failure = False, sg_serial = False,
     sg_every = {''one'', ''two''} \<rparr>"

definition demo_env :: env where
  "demo_env = \<lparr> cx_loads = (\<lambda>_. None), cx_decode = (\<lambda>x. x), cx_fromstring = (\<lambda>_. Inl ''no element found''),
     cx_float = (\<lambda>_. None), cx_traceback = error_text \<rparr>"

definition demo_launched :: sched where
  "demo_launched = sched_turn demo_config (sched_start demo_session)"

lemmas demo_simps = demo_phase_def demo_phases_def demo_spec_def demo_machine_def demo_guest_def
  demo_kernel_def demo_session_def demo_config_def demo_env_def

end
