(* ===== verification/Control.thy ===== *)
theory Control
  imports Demo
begin

text \<open>
  \<^verbatim>\<open>src/pkgs/uml/uml/control.py\<close>: the socket through which a paused run is driven by hand.

  The first half is pure: requests, replies, lines and socket names. Then the console and the
  operations, over the session of \<open>Run_Phase\<close>; what the code a client sends does is data, a list of
  actions and how it ended. The controller serves every client in a task of its own, so \<open>admit\<close> is
  \<open>handle\<close> up to its first await and \<open>perform\<close> the rest, and \<open>ctl_step\<close> interleaves the clients
  with the pause. An exception that leaves a client's task ends the run (\<open>ct_down\<close>): the tasks
  belong to the task group of the drive.
\<close>

section \<open>Requests and replies\<close>

datatype op = STATE | EXEC | INJECT | RUN | PYTEST | CONTINUE

definition ops :: "op list" where
  "ops = [STATE, EXEC, INJECT, RUN, PYTEST, CONTINUE]"

fun op_text :: "op \<Rightarrow> string" where
  "op_text STATE = ''state''"
| "op_text EXEC = ''exec''"
| "op_text INJECT = ''inject''"
| "op_text RUN = ''run''"
| "op_text PYTEST = ''pytest''"
| "op_text CONTINUE = ''continue''"

definition op_of :: "json \<Rightarrow> op option" where
  "op_of v = (case v of JStr s \<Rightarrow> find (\<lambda>x. op_text x = s) ops | _ \<Rightarrow> None)"

record reply =
  rp_ok :: bool
  rp_output :: string
  rp_result :: "string option"
  rp_error :: "string option"
  rp_state :: "(string, string) dict option"

definition plain_reply :: "bool \<Rightarrow> reply" where
  "plain_reply b = \<lparr>rp_ok = b, rp_output = [], rp_result = None, rp_error = None, rp_state = None\<rparr>"

definition refusal :: "string \<Rightarrow> reply" where
  "refusal e = (plain_reply False)\<lparr>rp_error := Some e\<rparr>"

definition opt_json :: "string option \<Rightarrow> json" where
  "opt_json v = (case v of None \<Rightarrow> JNull | Some s \<Rightarrow> JStr s)"

definition reply_json :: "reply \<Rightarrow> json" where
  "reply_json r = JObj
     [(''ok'', JBool (rp_ok r)), (''output'', JStr (rp_output r)), (''result'', opt_json (rp_result r)),
      (''error'', opt_json (rp_error r)),
      (''state'', case rp_state r of None \<Rightarrow> JNull | Some d \<Rightarrow> JObj (map (\<lambda>(k, v). (k, JStr v)) d))]"

definition encode :: "(json \<Rightarrow> string) \<Rightarrow> reply \<Rightarrow> string" where
  "encode dumps r = dumps (reply_json r) @ [LF]"

text \<open>
  \<open>json.loads\<close> of a line: a value, a \<open>JSONDecodeError\<close>, or another \<open>ValueError\<close> (bytes that are no
  text), which \<open>parse_request\<close> lets through as it is.
\<close>

datatype loaded = Loaded json | Not_json string | Not_text string

definition parse_request :: "(string \<Rightarrow> loaded) \<Rightarrow> string \<Rightarrow> string + op \<times> string" where
  "parse_request loads line =
     (case loads line of
        Not_json e \<Rightarrow> Inl (''not JSON: '' @ e)
      | Not_text e \<Rightarrow> Inl e
      | Loaded (JObj raw) \<Rightarrow>
         (case op_of (jget raw ''op'') of
            None \<Rightarrow> Inl (''no such op '' @ json_repr (jget raw ''op'') @ ''; have '' @ join '', '' (map op_text ops))
          | Some x \<Rightarrow>
             (case dict_get raw ''arg'' (JStr []) of
                JStr arg \<Rightarrow>
                  if x \<in> {EXEC, INJECT, RUN, PYTEST} \<and> arg = [] then Inl (op_text x @ '' needs an arg'')
                  else Inr (x, arg)
              | _ \<Rightarrow> Inl ''arg is a string''))
      | _ \<Rightarrow> Inl ''a request is a JSON object'')"

text \<open>\<open>_receive_line\<close>, over the pieces the stream delivers before it ends.\<close>

fun receive_line :: "string \<Rightarrow> string list \<Rightarrow> string" where
  "receive_line buffer pieces =
     (if LF \<in> set buffer then hd (split_on LF buffer)
      else (case pieces of [] \<Rightarrow> hd (split_on LF buffer) | p # ps \<Rightarrow> receive_line (buffer @ p) ps))"

declare receive_line.simps [simp del]

text \<open>\<open>reachable\<close>: the path itself, or a name under the descriptor of its directory.\<close>

definition path_name :: "string \<Rightarrow> string" where
  "path_name p = last (split_on (CHR ''/'') p)"

definition socket_name :: "nat \<Rightarrow> string \<Rightarrow> string" where
  "socket_name fd path =
     (if length path < 100 then path
      else ''/proc/self/fd/'' @ show_nat fd @ ''/'' @ path_name path)"

text \<open>The client, \<open>request\<close>: the line it sends and what it makes of the answer.\<close>

definition request_line :: "(json \<Rightarrow> string) \<Rightarrow> op \<Rightarrow> string \<Rightarrow> string" where
  "request_line dumps x arg = dumps (JObj [(''op'', JStr (op_text x)), (''arg'', JStr arg)]) @ [LF]"

definition json_opt :: "json \<Rightarrow> string option" where
  "json_opt v = (case v of JStr s \<Rightarrow> Some s | _ \<Rightarrow> None)"

definition reply_of :: "json \<Rightarrow> reply option" where
  "reply_of v =
     (case v of
        JObj d \<Rightarrow>
          Some \<lparr>rp_ok = (jget d ''ok'' = JBool True),
                rp_output = (case jget d ''output'' of JStr s \<Rightarrow> s | _ \<Rightarrow> []),
                rp_result = json_opt (jget d ''result''), rp_error = json_opt (jget d ''error''),
                rp_state = (case jget d ''state'' of
                    JObj st \<Rightarrow> Some (map (\<lambda>(k, w). (k, py_str w)) st) | _ \<Rightarrow> None)\<rparr>
      | _ \<Rightarrow> None)"

definition client_reply :: "(string \<Rightarrow> loaded) \<Rightarrow> string list \<Rightarrow> reply option" where
  "client_reply loads pieces =
     (let line = receive_line [] pieces
      in if line = [] then Some (refusal ''the run closed the connection without a reply'')
         else (case loads line of Loaded v \<Rightarrow> reply_of v | _ \<Rightarrow> None))"

lemma op_of_text [simp]: "op_of (JStr (op_text x)) = Some x"
  by (cases x) (simp_all add: op_of_def ops_def)

lemma op_of_sound: "op_of v = Some x \<Longrightarrow> v = JStr (op_text x)"
  by (auto simp: op_of_def find_Some_iff split: json.splits)

lemma receive_line_pieces: "receive_line buffer pieces = hd (split_on LF (buffer @ concat pieces))"
proof (induction pieces arbitrary: buffer)
  case Nil
  then show ?case by (subst receive_line.simps) simp
next
  case (Cons p ps)
  show ?case
  proof (cases "LF \<in> set buffer")
    case True
    then obtain a b where "buffer = a @ LF # b" "LF \<notin> set a" by (metis split_list_first)
    then show ?thesis
      by (subst receive_line.simps) (simp add: split_on_append_field)
  next
    case False
    then show ?thesis using Cons [of "buffer @ p"] by (subst receive_line.simps) simp
  qed
qed

lemma receive_line_found: "LF \<notin> set l \<Longrightarrow> concat pieces = l @ LF # rest \<Longrightarrow> receive_line [] pieces = l"
  by (simp add: receive_line_pieces split_on_append_field)

lemma json_opt_json [simp]: "json_opt (opt_json v) = v"
  by (simp add: json_opt_def opt_json_def split: option.splits)

lemma reply_of_json: "reply_of (reply_json r) = Some r"
proof -
  have d: "map ((\<lambda>(k, w). (k, py_str w)) \<circ> (\<lambda>(k, v). (k, JStr v))) d = d" for d
    by (induction d) auto
  show ?thesis
    by (cases r; cases "rp_state r") (simp_all add: reply_json_def reply_of_def jget_def dict_get_def d)
qed

lemma parse_request_total:
  "x \<in> {EXEC, INJECT, RUN, PYTEST} \<longrightarrow> arg \<noteq> [] \<Longrightarrow>
   loads l = Loaded (JObj [(''op'', JStr (op_text x)), (''arg'', JStr arg)]) \<Longrightarrow>
   parse_request loads l = Inr (x, arg)"
  by (auto simp: parse_request_def jget_def dict_get_def)

section \<open>shlex.split\<close>

text \<open>
  The arguments of a \<open>pytest\<close> request are shell words. \<^verbatim>\<open>shlex.split\<close> in its default mode: quotes
  join words, a backslash escapes outside single quotes, and inside double quotes it escapes
  only itself and the quote. A quote or an escape that is left open raises.
\<close>

datatype shell_state = Between | In_word | In_quotes char | After_escape shell_state

definition BACKSLASH :: char where "BACKSLASH = CHR 0x5C"
definition SQUOTE :: char where "SQUOTE = CHR 0x27"
definition DQUOTE :: char where "DQUOTE = CHR 0x22"

definition shell_space :: "char \<Rightarrow> bool" where
  "shell_space c = (c \<in> {CHR '' '', CHR 0x09, CR, LF})"

fun shell_words :: "shell_state \<Rightarrow> string \<Rightarrow> string \<Rightarrow> string + string list" where
  "shell_words Between w [] = Inr []"
| "shell_words In_word w [] = Inr [w]"
| "shell_words (In_quotes q) w [] = Inl ''No closing quotation''"
| "shell_words (After_escape s) w [] = Inl ''No escaped character''"
| "shell_words Between w (c # cs) =
     (if shell_space c then shell_words Between [] cs
      else if c = BACKSLASH then shell_words (After_escape In_word) [] cs
      else if c = SQUOTE \<or> c = DQUOTE then shell_words (In_quotes c) [] cs
      else shell_words In_word [c] cs)"
| "shell_words In_word w (c # cs) =
     (if shell_space c then and_then (shell_words Between [] cs) (\<lambda>ws. Inr (w # ws))
      else if c = SQUOTE \<or> c = DQUOTE then shell_words (In_quotes c) w cs
      else if c = BACKSLASH then shell_words (After_escape In_word) w cs
      else shell_words In_word (w @ [c]) cs)"
| "shell_words (In_quotes q) w (c # cs) =
     (if c = q then shell_words In_word w cs
      else if c = BACKSLASH \<and> q = DQUOTE then shell_words (After_escape (In_quotes q)) w cs
      else shell_words (In_quotes q) (w @ [c]) cs)"
| "shell_words (After_escape s) w (c # cs) =
     (case s of
        In_quotes q \<Rightarrow> shell_words s (w @ (if c \<noteq> BACKSLASH \<and> c \<noteq> q then [BACKSLASH, c] else [c])) cs
      | _ \<Rightarrow> shell_words s (w @ [c]) cs)"

definition shlex_split :: "string \<Rightarrow> string + string list" where
  "shlex_split s = shell_words Between [] s"

section \<open>The console\<close>

text \<open>
  A module is its statements; \<open>split_last_expression\<close> takes off a final expression. Parsing and
  running code are Python's: \<open>parse\<close> may raise a \<open>SyntaxError\<close>, and \<open>interp\<close> says what a piece of
  code does to the run, what it leaves in the namespace, and its value (\<^const>\<open>None\<close>, or what
  \<open>repr\<close> prints) or the exception it raises.
\<close>

datatype statement = Expr_stmt string | Stmt string
datatype code = Exec_code "statement list" | Eval_code string
datatype nsval = Session_object | Anyio_module | Guest_dict | Guest_object string | Bound string

type_synonym namespace = "(string, nsval) dict"

record ran_code =
  rc_acts :: "action list"
  rc_value :: "exn + string option"
  rc_namespace :: namespace

record python =
  py_parse :: "string \<Rightarrow> exn + statement list"
  py_interp :: "code \<Rightarrow> namespace \<Rightarrow> ran_code"

fun split_last :: "statement list \<Rightarrow> statement list \<times> string option" where
  "split_last [] = ([], None)"
| "split_last [s] = (case s of Expr_stmt e \<Rightarrow> ([], Some e) | Stmt _ \<Rightarrow> ([s], None))"
| "split_last (s # t # ss) = (case split_last (t # ss) of (body, e) \<Rightarrow> (s # body, e))"

text \<open>
  \<open>redirect_stdout\<close>: what is printed goes to a buffer, everything else happens as usual.
\<close>

fun redirect_one :: "env \<Rightarrow> action \<Rightarrow> string \<times> session \<Rightarrow> string \<times> session" where
  "redirect_one cx (Print out) (buf, s) = (buf @ out, s)"
| "redirect_one cx a (buf, s) = (buf, act (cx_loads cx) (cx_decode cx) None a s)"

definition redirected :: "env \<Rightarrow> action list \<Rightarrow> string \<times> session \<Rightarrow> string \<times> session" where
  "redirected cx xs bs = fold (redirect_one cx) xs bs"

text \<open>An exception that is no \<open>Exception\<close> (a cancellation) is not the reply; it leaves \<open>execute\<close>.\<close>

definition failed_code :: "env \<Rightarrow> string \<Rightarrow> exn \<Rightarrow> exn + reply" where
  "failed_code cx output e =
     (if is_exception e
      then Inr \<lparr>rp_ok = False, rp_output = output, rp_result = None, rp_error = Some (cx_traceback cx e), rp_state = None\<rparr>
      else Inl e)"

definition execute :: "env \<Rightarrow> python \<Rightarrow> string \<Rightarrow> namespace \<Rightarrow> session \<Rightarrow> (exn + reply) \<times> namespace \<times> session" where
  "execute cx py source ns s =
     (case py_parse py source of
        Inl e \<Rightarrow> (failed_code cx [] e, ns, s)
      | Inr stmts \<Rightarrow>
         (case split_last stmts of (body, last') \<Rightarrow>
           (let r1 = py_interp py (Exec_code body) ns in
            case redirected cx (rc_acts r1) ([], s) of (out1, s1) \<Rightarrow>
              (case rc_value r1 of
                 Inl e \<Rightarrow> (failed_code cx out1 e, rc_namespace r1, s1)
               | Inr _ \<Rightarrow>
                  (case last' of
                     None \<Rightarrow> (Inr ((plain_reply True)\<lparr>rp_output := out1\<rparr>), rc_namespace r1, s1)
                   | Some e \<Rightarrow>
                      (let r2 = py_interp py (Eval_code e) (rc_namespace r1) in
                       case redirected cx (rc_acts r2) (out1, s1) of (out2, s2) \<Rightarrow>
                         (case rc_value r2 of
                            Inl x \<Rightarrow> (failed_code cx out2 x, rc_namespace r2, s2)
                          | Inr v \<Rightarrow> (Inr ((plain_reply True)\<lparr>rp_output := out2, rp_result := v\<rparr>),
                                      rc_namespace r2, s2))))))))"

section \<open>The operations\<close>

text \<open>What the file system, the imports and pytest answer while a request is served.\<close>

record ctl_world =
  cw_resolved :: "string \<Rightarrow> string"
  cw_exists :: "string \<Rightarrow> bool"
  cw_python :: python
  cw_run :: run_world

definition record_reply :: "string \<Rightarrow> reply \<Rightarrow> session \<Rightarrow> session" where
  "record_reply source r s =
     (let s1 = emits (map (\<lambda>line. mk_event K_OUTPUT line L_INFO None (Some source) None [])
                 (filter (\<lambda>line. strip line \<noteq> []) (splitlines (rp_output r)))) s
      in case rp_error r of
           None \<Rightarrow> s1
         | Some e \<Rightarrow> if e = [] then s1
                     else emit (mk_event K_ERROR (rstrip e) L_ERROR None (Some source) None []) s1)"

definition inject :: "env \<Rightarrow> ctl_world \<Rightarrow> string \<Rightarrow> session \<Rightarrow> (exn + reply) \<times> session" where
  "inject cx w arg s =
     (case load_phase (cw_resolved w arg) (rw_import (cw_run w)) of
        Inl e \<Rightarrow> (failed_code cx [] e, s)
      | Inr (xs, e) \<Rightarrow>
         (case redirected cx xs ([], s) of (out, s1) \<Rightarrow>
            (case e of
               None \<Rightarrow> (Inr ((plain_reply True)\<lparr>rp_output := out\<rparr>), s1)
             | Some x \<Rightarrow> (failed_code cx out x, s1))))"

definition pytest_request :: "env \<Rightarrow> ctl_world \<Rightarrow> string \<Rightarrow> session \<Rightarrow> (exn + reply) \<times> session" where
  "pytest_request cx w arg s =
     (case shlex_split arg of
        Inl e \<Rightarrow> (Inl (Exn ''ValueError'' e), s)
      | Inr [] \<Rightarrow> (Inl (Exn ''ValueError'' ''not enough values to unpack (expected at least 1, got 0)''), s)
      | Inr (path # args) \<Rightarrow>
         (let tests = cw_resolved w path; name = ''pytest:'' @ path_name tests in
          if \<not> cw_exists w tests then (Inr (refusal (''no tests at '' @ tests)), s)
          else if se_vms s = None then (Inr (refusal ''no guests are up''), s)
          else (case session_pytest (cx_loads cx) (cx_decode cx) (rw_is_dir (cw_run w)) (rw_pytest (cw_run w)) name
                       \<lparr>ps_tests = tests, ps_args = args\<rparr> True s of
                  (Inr summary, s1) \<Rightarrow> (Inr ((plain_reply True)\<lparr>rp_result := Some summary\<rparr>), s1)
                | (Inl e, s1) \<Rightarrow>
                    if ex_type e = ''CasesFailed'' \<and> is_exception e
                    then (Inr ((refusal (ex_text e))\<lparr>rp_result := Some ''failed''\<rparr>), s1)
                    else (case failed_code cx [] e of
                            Inl x \<Rightarrow> (Inl x, s1) | Inr r \<Rightarrow> (Inr r, record_reply name r s1)))))"

definition states_text :: "session \<Rightarrow> (string, string) dict" where
  "states_text s = map (\<lambda>(n, st). (n, state_text st)) (se_state s)"

definition run_request :: "env \<Rightarrow> ctl_world \<Rightarrow> string \<Rightarrow> session \<Rightarrow> (exn + reply) \<times> session" where
  "run_request cx w name s =
     (case find (\<lambda>p. ph_name p = name) (sp_phases (se_spec s)) of
        None \<Rightarrow> (Inr (refusal (''no phase '' @ py_repr name)), s)
      | Some phase \<Rightarrow>
         (case run cx (cw_run w) phase s of
            (Inl e, s1) \<Rightarrow> (Inl e, s1)
          | (Inr st, s1) \<Rightarrow>
              (Inr \<lparr>rp_ok = (st = PASSED), rp_output = [], rp_result = Some (state_text st),
                    rp_error = map_of (se_errors s1) name, rp_state = Some (states_text s1)\<rparr>, s1)))"

section \<open>The controller\<close>

text \<open>
  The controller's own attributes beside the session: the event a pause waits on (\<^const>\<open>None\<close>
  when there is none, and whether it is set), the flag a \<open>continue\<close> leaves for after its reply, the
  console's namespace, and the clients by connection.
\<close>

datatype client = Asked string | Working op string | Answered reply

record controller =
  ct_session :: session
  ct_resume :: "bool option"
  ct_continuing :: bool
  ct_namespace :: namespace
  ct_clients :: "(nat, client) dict"
  ct_down :: "exn option"

definition new_controller :: "session \<Rightarrow> controller" where
  "new_controller s = \<lparr>ct_session = s, ct_resume = None, ct_continuing = False,
     ct_namespace = [(''session'', Session_object), (''anyio'', Anyio_module)],
     ct_clients = [], ct_down = None\<rparr>"

definition paused :: "controller \<Rightarrow> bool" where
  "paused ct = (ct_resume ct \<noteq> None)"

text \<open>\<open>pause\<close> up to its wait, and after it.\<close>

definition set_default :: "string \<Rightarrow> nsval \<Rightarrow> namespace \<Rightarrow> namespace" where
  "set_default k v ns = (if map_of ns k = None then AList.update k v ns else ns)"

definition name_guests :: "session \<Rightarrow> namespace \<Rightarrow> namespace" where
  "name_guests s ns =
     (case se_vms s of None \<Rightarrow> ns
      | Some vms \<Rightarrow> fold (\<lambda>n. set_default n (Guest_object n)) (dict_keys vms) (set_default ''vms'' Guest_dict ns))"

definition ctl_pause :: "string \<Rightarrow> controller \<Rightarrow> controller" where
  "ctl_pause reason ct =
     ct\<lparr>ct_resume := Some False, ct_namespace := name_guests (ct_session ct) (ct_namespace ct),
        ct_session := pause_enter reason (ct_session ct)\<rparr>"

definition ctl_wake :: "controller \<Rightarrow> controller" where
  "ctl_wake ct = ct\<lparr>ct_resume := None, ct_session := pause_leave (ct_session ct)\<rparr>"

text \<open>\<open>handle\<close> up to its first await: what is refused or answered at once, and what has to be done.\<close>

definition note_request :: "op \<Rightarrow> string \<Rightarrow> session \<Rightarrow> session" where
  "note_request x arg =
     emit (mk_event K_NOTE (rstrip (''control: '' @ op_text x @ '' '' @ arg)) L_DETAIL None None None
       [(''op'', JStr (op_text x)), (''arg'', JStr arg)])"

definition admit :: "(string \<Rightarrow> loaded) \<Rightarrow> string \<Rightarrow> controller \<Rightarrow> client \<times> controller" where
  "admit loads line ct =
     (case parse_request loads line of
        Inl e \<Rightarrow> (Answered (refusal e), ct)
      | Inr (x, arg) \<Rightarrow>
         (let ct1 = ct\<lparr>ct_session := note_request x arg (ct_session ct)\<rparr> in
          if x = STATE then
            (Answered ((plain_reply True)\<lparr>rp_state := Some (states_text (ct_session ct1)),
                rp_result := Some (if paused ct1 then ''paused'' else ''running'')\<rparr>), ct1)
          else if \<not> paused ct1 then
            (Answered (refusal (op_text x @ '' only while paused; the run is running'')), ct1)
          else if x = CONTINUE then (Answered (plain_reply True), ct1\<lparr>ct_continuing := True\<rparr>)
          else (Working x arg, ct1)))"

text \<open>The rest of \<open>handle\<close>: the reply, or the exception that leaves the client's task.\<close>

fun perform :: "env \<Rightarrow> ctl_world \<Rightarrow> op \<Rightarrow> string \<Rightarrow> controller \<Rightarrow> (exn + reply) \<times> controller" where
  "perform cx w EXEC arg ct =
     (case execute cx (cw_python w) arg (ct_namespace ct) (ct_session ct) of
        (Inl e, ns, s) \<Rightarrow> (Inl e, ct\<lparr>ct_namespace := ns, ct_session := s\<rparr>)
      | (Inr r, ns, s) \<Rightarrow> (Inr r, ct\<lparr>ct_namespace := ns, ct_session := record_reply ''exec'' r s\<rparr>))"
| "perform cx w INJECT arg ct =
     (case inject cx w arg (ct_session ct) of
        (Inl e, s) \<Rightarrow> (Inl e, ct\<lparr>ct_session := s\<rparr>)
      | (Inr r, s) \<Rightarrow> (Inr r, ct\<lparr>ct_session := record_reply (''inject:'' @ path_name arg) r s\<rparr>))"
| "perform cx w PYTEST arg ct =
     (case pytest_request cx w arg (ct_session ct) of (r, s) \<Rightarrow> (r, ct\<lparr>ct_session := s\<rparr>))"
| "perform cx w x arg ct =
     (case run_request cx w arg (ct_session ct) of (r, s) \<Rightarrow> (r, ct\<lparr>ct_session := s\<rparr>))"

definition handle ::
  "env \<Rightarrow> (string \<Rightarrow> loaded) \<Rightarrow> ctl_world \<Rightarrow> string \<Rightarrow> controller \<Rightarrow> (exn + reply) \<times> controller" where
  "handle cx loads w line ct =
     (case admit loads line ct of
        (Answered r, ct1) \<Rightarrow> (Inr r, ct1)
      | (Working x arg, ct1) \<Rightarrow> perform cx w x arg ct1
      | (Asked _, ct1) \<Rightarrow> (Inr (refusal []), ct1))"

text \<open>\<open>_client\<close> after its reply is sent, and a client whose connection is gone by then.\<close>

definition after_reply :: "controller \<Rightarrow> controller" where
  "after_reply ct =
     (if ct_continuing ct \<and> ct_resume ct \<noteq> None
      then ct\<lparr>ct_continuing := False, ct_resume := Some True\<rparr> else ct)"

definition set_client :: "nat \<Rightarrow> client \<Rightarrow> controller \<Rightarrow> controller" where
  "set_client n c ct = ct\<lparr>ct_clients := AList.update n c (ct_clients ct)\<rparr>"

definition drop_client :: "nat \<Rightarrow> controller \<Rightarrow> controller" where
  "drop_client n ct = ct\<lparr>ct_clients := AList.delete n (ct_clients ct)\<rparr>"

definition broken_reply :: exn where
  "broken_reply = Exn ''BrokenResourceError'' []"

inductive ctl_step :: "env \<Rightarrow> (string \<Rightarrow> loaded) \<Rightarrow> controller \<Rightarrow> controller \<Rightarrow> bool" for cx loads where
  ask: "ct_down ct = None \<Longrightarrow> map_of (ct_clients ct) n = None \<Longrightarrow> line \<noteq> [] \<Longrightarrow>
    ctl_step cx loads ct (set_client n (Asked line) ct)"
| admitted: "ct_down ct = None \<Longrightarrow> map_of (ct_clients ct) n = Some (Asked line) \<Longrightarrow>
    admit loads line ct = (c, ct') \<Longrightarrow> ctl_step cx loads ct (set_client n c ct')"
| performed: "ct_down ct = None \<Longrightarrow> map_of (ct_clients ct) n = Some (Working x arg) \<Longrightarrow>
    perform cx w x arg ct = (Inr r, ct') \<Longrightarrow> ctl_step cx loads ct (set_client n (Answered r) ct')"
| crashed: "ct_down ct = None \<Longrightarrow> map_of (ct_clients ct) n = Some (Working x arg) \<Longrightarrow>
    perform cx w x arg ct = (Inl e, ct') \<Longrightarrow> ctl_step cx loads ct (ct'\<lparr>ct_down := Some e\<rparr>)"
| replied: "ct_down ct = None \<Longrightarrow> map_of (ct_clients ct) n = Some (Answered r) \<Longrightarrow>
    ctl_step cx loads ct (after_reply (drop_client n ct))"
| hung_up: "ct_down ct = None \<Longrightarrow> map_of (ct_clients ct) n = Some (Answered r) \<Longrightarrow>
    ctl_step cx loads ct (ct\<lparr>ct_down := Some broken_reply\<rparr>)"
| hold: "ct_down ct = None \<Longrightarrow> ct_resume ct = None \<Longrightarrow> ctl_step cx loads ct (ctl_pause reason ct)"
| woken: "ct_down ct = None \<Longrightarrow> ct_resume ct = Some True \<Longrightarrow> ctl_step cx loads ct (ctl_wake ct)"
| world: "ct_down ct = None \<Longrightarrow> ctl_step cx loads ct (ct\<lparr>ct_session := s\<rparr>)"

inductive_cases ctl_stepE: "ctl_step cx loads ct ct'"

section \<open>What holds of it\<close>

lemma redirected_output: "fst (redirected cx xs (buf, s)) = buf @ concat (map (\<lambda>a. case a of Print out \<Rightarrow> out | _ \<Rightarrow> []) xs)"
proof (induction xs arbitrary: buf s)
  case (Cons a xs)
  then show ?case by (cases a) (simp_all add: redirected_def)
qed (simp add: redirected_def)

text \<open>Redirected code adds nothing to the captured or the real standard output, and keeps the phases.\<close>

lemma redirected_keeps: "keeps s (snd (redirected cx xs (buf, s)))"
proof (induction xs arbitrary: buf s)
  case (Cons a xs)
  obtain b1 s1 where r: "redirect_one cx a (buf, s) = (b1, s1)" by force
  then have "keeps s s1" by (cases a) (auto simp: keeps_act keeps_refl simp del: act.simps)
  moreover have "keeps s1 (snd (redirected cx xs (b1, s1)))" by (rule Cons)
  ultimately have "keeps s (snd (redirected cx xs (b1, s1)))" by (rule keeps_trans)
  then show ?case using r by (simp add: redirected_def)
qed (simp add: redirected_def keeps_refl)

lemma split_last_append:
  "split_last ss = (body, e) \<Longrightarrow> ss = body @ (case e of None \<Rightarrow> [] | Some x \<Rightarrow> [Expr_stmt x])"
  by (induction ss arbitrary: body e rule: split_last.induct) (auto split: prod.splits statement.splits)

lemma map_of_set_default: "map_of (set_default k v ns) n =
    (if n = k \<and> map_of ns k = None then Some v else map_of ns n)"
  by (simp add: set_default_def)

lemma set_defaults_keep: "map_of ns n \<noteq> None \<Longrightarrow> map_of (fold (\<lambda>k. set_default k (f k)) ks ns) n = map_of ns n"
  by (induction ks arbitrary: ns) (auto simp: map_of_set_default)

lemma name_guests_keep:
  "map_of ns n \<noteq> None \<Longrightarrow> map_of (name_guests s ns) n = map_of ns n"
  unfolding name_guests_def
  by (auto simp: map_of_set_default set_defaults_keep split: option.splits)

lemma admit_quiet:
  assumes "\<not> paused ct" and "admit loads line ct = (c, ct')"
  shows "(\<exists>r. c = Answered r \<and> (rp_ok r \<longrightarrow> (\<exists>arg. parse_request loads line = Inr (STATE, arg)))) \<and>
    (ct' = ct \<or> (\<exists>x arg. ct' = ct\<lparr>ct_session := note_request x arg (ct_session ct)\<rparr>))"
proof (cases "parse_request loads line")
  case (Inl e)
  with assms show ?thesis by (auto simp: admit_def refusal_def plain_reply_def)
next
  case (Inr xa)
  obtain x arg where xa: "xa = (x, arg)" by force
  have "ct' = ct\<lparr>ct_session := note_request x arg (ct_session ct)\<rparr>"
    using assms Inr xa by (auto simp: admit_def Let_def paused_def split: if_splits)
  moreover have "\<exists>r. c = Answered r \<and> (rp_ok r \<longrightarrow> x = STATE)"
    using assms Inr xa by (auto simp: admit_def Let_def paused_def refusal_def plain_reply_def split: if_splits)
  ultimately show ?thesis using Inr xa by blast
qed

lemma admit_working: "admit loads line ct = (Working x arg, ct') \<Longrightarrow>
    paused ct \<and> parse_request loads line = Inr (x, arg) \<and> x \<noteq> STATE \<and> x \<noteq> CONTINUE"
  by (auto simp: admit_def Let_def paused_def split: sum.splits if_splits)

section \<open>Properties\<close>

text \<open>
  C33: nothing is done to a run that is not paused. Whatever line a client sends, and whatever
  the world answers, the reply is a refusal unless the request is \<open>state\<close>, and all that has
  happened is that the request was noted in the stream.
\<close>

theorem refused_while_running:
  assumes "\<not> paused ct" and "handle cx loads w line ct = (res, ct')"
  shows "(\<exists>r. res = Inr r \<and> (rp_ok r \<longrightarrow> (\<exists>arg. parse_request loads line = Inr (STATE, arg)))) \<and>
    (ct' = ct \<or> (\<exists>x arg. ct' = ct\<lparr>ct_session := note_request x arg (ct_session ct)\<rparr>))"
proof -
  obtain c ct1 where a: "admit loads line ct = (c, ct1)" by force
  from admit_quiet [OF assms(1) a] obtain r where "c = Answered r" by blast
  then have "res = Inr r" "ct' = ct1" using assms(2) a by (simp_all add: handle_def)
  with admit_quiet [OF assms(1) a] \<open>c = Answered r\<close> show ?thesis by simp
qed

text \<open>
  A request and its reply survive the wire. However the socket cuts the bytes, the server
  reads the operation and argument the client sent, and the client the reply the server gave.
\<close>

theorem request_reply_roundtrip:
  fixes dumps :: "json \<Rightarrow> string" and loads :: "string \<Rightarrow> loaded" and x :: op and arg :: string
  defines "question \<equiv> JObj [(''op'', JStr (op_text x)), (''arg'', JStr arg)]"
  assumes "loads (dumps question) = Loaded question" and "loads (dumps (reply_json r)) = Loaded (reply_json r)"
    and "LF \<notin> set (dumps question)" and "LF \<notin> set (dumps (reply_json r))" and "dumps (reply_json r) \<noteq> []"
    and "x \<in> {EXEC, INJECT, RUN, PYTEST} \<longrightarrow> arg \<noteq> []"
    and "concat up = request_line dumps x arg" and "concat down = encode dumps r"
  shows "parse_request loads (receive_line [] up) = Inr (x, arg) \<and> client_reply loads down = Some r"
proof -
  have "receive_line [] up = dumps question"
    using assms(4,8) receive_line_found [of "dumps question" up "[]"] by (simp add: request_line_def question_def)
  moreover have "receive_line [] down = dumps (reply_json r)"
    using assms(5,9) receive_line_found [of "dumps (reply_json r)" down "[]"] by (simp add: encode_def)
  ultimately show ?thesis
    using assms(2,3,6,7) parse_request_total [of x arg loads "dumps question"]
    by (simp add: client_reply_def question_def reply_of_json)
qed

definition demo_dumps :: "json \<Rightarrow> string" where
  "demo_dumps v = (if obj_get v ''op'' = None then ''{}'' else ''{ }'')"

definition demo_loads :: "string \<Rightarrow> loaded" where
  "demo_loads s = (if s = ''{ }'' then Loaded (JObj [(''op'', JStr ''run''), (''arg'', JStr ''check'')])
     else if s = ''{}'' then Loaded (reply_json (plain_reply True))
     else if s = ''c'' then Loaded (JObj [(''op'', JStr ''continue'')])
     else if s = ''s'' then Loaded (JObj [(''op'', JStr ''state'')])
     else if s = ''p'' then Loaded (JObj [(''op'', JStr ''pytest''), (''arg'', JStr (''tests '' @ [SQUOTE]))])
     else Not_json s)"

theorem request_reply_roundtrip_witness:
  "parse_request demo_loads (receive_line [] [''{'', '' }'' @ [LF]]) = Inr (RUN, ''check'')"
  using request_reply_roundtrip [of demo_loads demo_dumps RUN "''check''" "plain_reply True"
      "[''{'', '' }'' @ [LF]]" "[''{}'' @ [LF]]"]
  by (simp add: demo_loads_def demo_dumps_def obj_get_def reply_json_def request_line_def encode_def)

theorem refused_while_running_witness:
  "\<forall>w. \<exists>r. fst (handle demo_env demo_loads w ''{ }'' (new_controller demo_session)) = Inr r \<and> \<not> rp_ok r"
proof
  fix w
  have p: "parse_request demo_loads ''{ }'' = Inr (RUN, ''check'')"
    by (simp add: parse_request_def demo_loads_def op_of_def ops_def jget_def dict_get_def)
  have "\<not> paused (new_controller demo_session)" by (simp add: paused_def new_controller_def)
  from refused_while_running [OF this prod.collapse [symmetric], of demo_env demo_loads w "''{ }''"] p
  show "\<exists>r. fst (handle demo_env demo_loads w ''{ }'' (new_controller demo_session)) = Inr r \<and> \<not> rp_ok r" by auto
qed

abbreviation serving_one :: "session \<Rightarrow> controller \<Rightarrow> bool" where
  "serving_one s ct \<equiv> ct = new_controller s"

lemma reach_paused: "reach (serving_one s) (ctl_step cx loads) (ctl_pause reason (new_controller s))"
proof (rule reach_step)
  show "reach (serving_one s) (ctl_step cx loads) (new_controller s)" by (rule reach_start) simp
  show "ctl_step cx loads (new_controller s) (ctl_pause reason (new_controller s))"
    by (rule hold) (simp_all add: new_controller_def)
qed

text \<open>
  C35: a \<open>continue\<close> can outlive its pause. Two clients that say \<open>continue\<close> in one pause, the
  second while the first is being answered, leave the flag behind: the next pause, with no
  client in sight, is ended by the next reply, even to a request that only asks for the state.
\<close>

theorem stale_continue:
  assumes "line \<noteq> []" and "parse_request loads line = Inr (CONTINUE, [])"
    and "parse_request loads query = Inr (STATE, [])"
  shows "\<exists>ct. reach (serving_one s) (ctl_step cx loads) ct \<and> ct_clients ct = [] \<and>
    ct_resume ct = Some False \<and> ct_resume (after_reply (snd (handle cx loads w query ct))) = Some True"
proof -
  let ?step = "ctl_step cx loads"
  let ?note = "note_request CONTINUE []"
  define a0 where "a0 = ctl_pause r (new_controller s)"
  define a1 where "a1 = set_client 2 (Asked line) (set_client 1 (Asked line) a0)"
  define a2 where "a2 = set_client 1 (Answered (plain_reply True))
    (a1\<lparr>ct_session := ?note (ct_session a1), ct_continuing := True\<rparr>)"
  define a3 where "a3 = after_reply (drop_client 1 a2)"
  define a4 where "a4 = set_client 2 (Answered (plain_reply True))
    (a3\<lparr>ct_session := ?note (ct_session a3), ct_continuing := True\<rparr>)"
  define a5 where "a5 = ctl_pause r (after_reply (drop_client 2 (ctl_wake a4)))"
  note defs = set_client_def drop_client_def ctl_pause_def ctl_wake_def after_reply_def new_controller_def
  have said: "admit loads line ct = (Answered (plain_reply True),
      ct\<lparr>ct_session := ?note (ct_session ct), ct_continuing := True\<rparr>)" if "ct_resume ct \<noteq> None" for ct
    using assms(2) that by (simp add: admit_def Let_def paused_def)
  have "reach (serving_one s) ?step a0"
    unfolding a0_def by (rule reach_paused)
  then have "reach (serving_one s) ?step (set_client 1 (Asked line) a0)"
    by (rule reach_step) (rule ask, simp_all add: a0_def defs assms(1))
  then have "reach (serving_one s) ?step a1"
    unfolding a1_def by (rule reach_step) (rule ask, simp_all add: a0_def defs assms(1))
  then have "reach (serving_one s) ?step a2"
    unfolding a2_def by (rule reach_step) (rule admitted [of _ _ line], simp_all add: said a1_def a0_def defs)
  then have "reach (serving_one s) ?step a3"
    unfolding a3_def by (rule reach_step) (rule replied, simp_all add: a2_def a1_def a0_def defs)
  then have "reach (serving_one s) ?step a4"
    unfolding a4_def by (rule reach_step) (rule admitted [of _ _ line], simp_all add: said a3_def a2_def a1_def a0_def defs)
  then have "reach (serving_one s) ?step (ctl_wake a4)"
    by (rule reach_step) (rule woken, simp_all add: a4_def a3_def a2_def a1_def a0_def defs)
  then have "reach (serving_one s) ?step (after_reply (drop_client 2 (ctl_wake a4)))"
    by (rule reach_step) (rule replied, simp_all add: a4_def a3_def a2_def a1_def a0_def defs)
  then have "reach (serving_one s) ?step a5"
    unfolding a5_def by (rule reach_step) (rule hold, simp_all add: a4_def a3_def a2_def a1_def a0_def defs)
  moreover have a5: "ct_clients a5 = []" "ct_resume a5 = Some False" "ct_continuing a5"
    by (simp_all add: a5_def a4_def a3_def a2_def a1_def a0_def defs)
  moreover have "ct_resume (after_reply (snd (handle cx loads w query a5))) = Some True"
    using assms(3) a5 by (simp add: handle_def admit_def Let_def after_reply_def)
  ultimately show ?thesis by blast
qed

theorem stale_continue_witness:
  "\<forall>w. \<exists>ct. reach (serving_one demo_session) (ctl_step demo_env demo_loads) ct \<and> ct_clients ct = [] \<and>
    ct_resume ct = Some False \<and>
    ct_resume (after_reply (snd (handle demo_env demo_loads w ''s'' ct))) = Some True"
  by (intro allI, rule stale_continue [of "''c''"])
    (simp_all add: parse_request_def demo_loads_def op_of_def ops_def jget_def dict_get_def)

text \<open>
  C36: a \<open>pytest\<close> request whose words end in an open quote ends the run. The splitting stands
  outside the \<open>try\<close>, so while a run is paused such a request is not answered with its error:
  the exception leaves the client's task and takes the drive, and with it the run, down.
\<close>

theorem open_quote_ends_run:
  assumes "parse_request loads line = Inr (PYTEST, arg)" and "shlex_split arg = Inl e" and "line \<noteq> []"
  shows "\<exists>ct. reach (serving_one s) (ctl_step cx loads) ct \<and> ct_down ct = Some (Exn ''ValueError'' e)"
proof -
  let ?step = "ctl_step cx loads"
  define a0 where "a0 = ctl_pause r (new_controller s)"
  define a1 where "a1 = set_client 1 (Asked line) a0"
  define a2 where "a2 = set_client 1 (Working PYTEST arg)
    (a1\<lparr>ct_session := note_request PYTEST arg (ct_session a1)\<rparr>)"
  note defs = set_client_def ctl_pause_def new_controller_def
  have "reach (serving_one s) ?step a0"
    unfolding a0_def by (rule reach_paused)
  then have "reach (serving_one s) ?step a1"
    unfolding a1_def by (rule reach_step) (rule ask, simp_all add: a0_def defs assms(3))
  then have "reach (serving_one s) ?step a2"
    unfolding a2_def
    by (rule reach_step) (rule admitted [of _ _ line], simp_all add: a1_def a0_def defs admit_def assms(1) paused_def)
  moreover have "perform cx w PYTEST arg a2 = (Inl (Exn ''ValueError'' e), a2)" for w
    by (simp add: pytest_request_def assms(2))
  then have "?step a2 (a2\<lparr>ct_down := Some (Exn ''ValueError'' e)\<rparr>)"
    by (rule crashed [rotated 2]) (simp_all add: a2_def a1_def a0_def defs)
  ultimately have "reach (serving_one s) ?step (a2\<lparr>ct_down := Some (Exn ''ValueError'' e)\<rparr>)"
    by (rule reach_step)
  then show ?thesis by force
qed

theorem open_quote_ends_run_witness:
  "\<exists>ct. reach (serving_one demo_session) (ctl_step demo_env demo_loads) ct \<and>
    ct_down ct = Some (Exn ''ValueError'' ''No closing quotation'')"
  by (rule open_quote_ends_run [of _ "''p''" "''tests '' @ [SQUOTE]"])
    (simp_all add: parse_request_def demo_loads_def op_of_def ops_def jget_def dict_get_def
       shlex_split_def shell_space_def BACKSLASH_def SQUOTE_def DQUOTE_def)

end
