(* ===== verification/Cli.thy ===== *)
theory Cli
  imports Control Sinks
begin

text \<open>
  \<^verbatim>\<open>src/pkgs/uml/uml/cli.py\<close> around the scheduler: the split of the command line, the sinks,
  what \<open>run\<close> checks and deselects before it boots, the sequence of a drive (boot, schedule, evidence,
  teardown), the client command \<open>ctl\<close>, and the exit status. \<open>argparse\<close> turns the arguments before
  \<open>--\<close> into the records \<open>run_args\<close> and \<open>ctl_args\<close>; its tables are in \<open>Command_Lines\<close>.
\<close>

section \<open>The command line\<close>

text \<open>What follows the first \<open>--\<close> is for pytest.\<close>

fun split_dashes :: "string list \<Rightarrow> string list \<times> string list" where
  "split_dashes [] = ([], [])"
| "split_dashes (a # as) =
     (if a = ''--'' then ([], as) else (case split_dashes as of (argv, extra) \<Rightarrow> (a # argv, extra)))"

record run_args =
  ra_out :: string
  ra_only :: "string list"
  ra_breaks :: "string list"
  ra_kernel :: "string option"
  ra_break_on_failure :: bool
  ra_serial :: bool
  ra_offline :: bool
  ra_verbose :: nat
  ra_quiet :: bool
  ra_pytest :: "string list"

definition terminal_level :: "run_args \<Rightarrow> level" where
  "terminal_level args =
     (if ra_quiet args then L_ERROR
      else if ra_verbose args \<ge> 2 then L_CONSOLE
      else if ra_verbose args = 1 then L_DETAIL
      else L_INFO)"

definition sinks_for :: "run_args \<Rightarrow> nat option \<Rightarrow> string \<Rightarrow> broadcast" where
  "sinks_for args room name =
     \<lparr>bc_sinks =
        [TerminalSink \<lparr>te_level = terminal_level args, te_stream = fresh_file None\<rparr>,
         LogSink (fresh_file room), JsonLinesSink (fresh_file room),
         ConsoleFilesSink \<lparr>cf_files = [], cf_room = room\<rparr>,
         JunitSink \<lparr>js_file = fresh_file room, js_name = name, js_events = []\<rparr>],
      bc_broken = {}, bc_stderr = []\<rparr>"

lemma split_dashes_append:
  "split_dashes argv = (a, e) \<Longrightarrow> argv = (if ''--'' \<in> set argv then a @ ''--'' # e else a) \<and> ''--'' \<notin> set a"
  by (induction argv arbitrary: a e) (auto split: if_splits prod.splits)

lemma terminal_level_quiet: "ra_quiet args \<Longrightarrow> terminal_level args = L_ERROR"
  by (simp add: terminal_level_def)

section \<open>Before the boot\<close>

definition knob_event :: "string \<Rightarrow> knob \<Rightarrow> event" where
  "knob_event name k =
     mk_event K_KNOB (''knob '' @ name @ ''='' @ py_repr (kn_value k) @ '' ('' @ kn_source k @ '')'') L_INFO None None None
       [(''knob'', JStr name), (''value'', JStr (kn_value k)), (''source'', JStr (kn_source k)), (''env'', JStr (kn_env k))]"

definition announce :: "session \<Rightarrow> session" where
  "announce s =
     emits (map (\<lambda>(n, k). knob_event n k)
       (sort_by (\<lambda>a b. str_le (fst a) (fst b)) (sp_knobs (se_spec s)))) s"

definition name_list :: "session \<Rightarrow> string list" where
  "name_list s = map ph_name (sp_phases (se_spec s))"

definition unknown_names :: "string list \<Rightarrow> session \<Rightarrow> string list" where
  "unknown_names names s = sort_by str_le (filter (\<lambda>n. n \<notin> set (name_list s)) (remdups names))"

definition deselect :: "string \<Rightarrow> session \<Rightarrow> session" where
  "deselect n s =
     emit (mk_event K_PHASE_FINISHED (n @ '' deselected'') L_DETAIL None (Some n) None
             [(''state'', JStr (state_text DESELECTED))])
       (set_state n DESELECTED s)"

definition select :: "string list \<Rightarrow> session \<Rightarrow> outcome" where
  "select only s =
     (if only = [] then (None, s)
      else if unknown_names only s \<noteq> [] then
        (Some (SessionError (''no such phase: '' @ join '', '' (unknown_names only s) @
          ''; have '' @ join '', '' (name_list s))), s)
      else (None, fold deselect (filter (\<lambda>n. n \<notin> set only) (name_list s)) s))"

text \<open>\<open>run\<close> up to the drive.\<close>

definition prepare :: "run_args \<Rightarrow> session \<Rightarrow> outcome" where
  "prepare args s =
     (case select (ra_only args)
             (announce (emit (mk_event K_RUN_STARTED (''output in '' @ ra_out args) L_INFO None None None []) s)) of
        (Some e, s1) \<Rightarrow> (Some e, s1)
      | (None, s1) \<Rightarrow>
          (if unknown_names (ra_breaks args) s1 \<noteq> []
           then (Some (SessionError (''no such phase to break before: '' @
                   join '', '' (unknown_names (ra_breaks args) s1))), s1)
           else (None, s1)))"

section \<open>The drive\<close>

text \<open>
  \<open>_sequence\<close>. What ends it, a failed boot included, is followed by the evidence: the journals are
  drained, the files written and the guests put down. The schedule is the steps of \<open>Scheduler\<close>
  from \<open>sched_start\<close> to its end, or to the stop that cancels it.
\<close>

record drive_world =
  dw_boot :: boot_world
  dw_raises :: "string \<Rightarrow> string option"
  dw_dumps :: "json \<Rightarrow> string"

definition is_machine_error :: "exn \<Rightarrow> bool" where
  "is_machine_error e = (is_exception e \<and> ex_type e = ''MachineError'')"

definition no_guests :: "exn \<Rightarrow> session \<Rightarrow> session" where
  "no_guests e s =
     replay None (emit (mk_event K_ERROR (''no guests: '' @ ex_text e) L_ERROR None None None []) s)"

definition evidence :: "env \<Rightarrow> drive_world \<Rightarrow> session \<Rightarrow> outcome" where
  "evidence cx w s =
     (case drain (cx_loads cx) (cx_decode cx) s of
        (Some e, s1) \<Rightarrow> (Some e, s1)
      | (None, s1) \<Rightarrow> (None, teardown (dw_raises w) (write_output (dw_dumps w) s1)))"

definition or_raise :: "exn \<Rightarrow> exn option \<Rightarrow> exn option" where
  "or_raise e later = (case later of None \<Rightarrow> Some e | Some x \<Rightarrow> Some x)"

inductive sequence :: "sched_config \<Rightarrow> env \<Rightarrow> drive_world \<Rightarrow> session \<Rightarrow> exn option \<Rightarrow> session \<Rightarrow> bool"
  for cfg cx w where
  no_boot: "boot cx (dw_boot w) s = (Some x, s1) \<Longrightarrow> is_machine_error x \<Longrightarrow>
    evidence cx w (no_guests x s1) = (e, s2) \<Longrightarrow> sequence cfg cx w s e s2"
| boot_raised: "boot cx (dw_boot w) s = (Some x, s1) \<Longrightarrow> \<not> is_machine_error x \<Longrightarrow>
    evidence cx w s1 = (e, s2) \<Longrightarrow> sequence cfg cx w s (or_raise x e) s2"
| scheduled: "boot cx (dw_boot w) s = (None, s1) \<Longrightarrow>
    (sched_step cfg cx)\<^sup>*\<^sup>* (sched_start s1) st \<Longrightarrow> sc_mode st = Finished \<Longrightarrow>
    evidence cx w (sc_session st) = (e, s2) \<Longrightarrow> sequence cfg cx w s e s2"
| stopped: "boot cx (dw_boot w) s = (None, s1) \<Longrightarrow>
    (sched_step cfg cx)\<^sup>*\<^sup>* (sched_start s1) st \<Longrightarrow> sc_mode st = Stopped \<Longrightarrow>
    evidence cx w (sc_session st) = (e, s2) \<Longrightarrow> sequence cfg cx w s (or_raise Cancelled e) s2"

text \<open>\<open>drive\<close>: an exception that leaves the body of a task group leaves it in a group.\<close>

definition grouped :: "exn \<Rightarrow> exn" where
  "grouped e = (case e of Cancelled \<Rightarrow> Cancelled
     | Exn n t \<Rightarrow> Exn ''ExceptionGroup'' (''unhandled errors in a TaskGroup (1 sub-exception)''))"

definition drive_config :: "run_args \<Rightarrow> session \<Rightarrow> sched_config" where
  "drive_config args s =
     \<lparr>sg_control = (ra_breaks args \<noteq> [] \<or> ra_break_on_failure args), sg_breaks = set (ra_breaks args),
      sg_break_on_failure = ra_break_on_failure args, sg_serial = ra_serial args,
      sg_every = {n. \<exists>m\<in>set (sp_machines (se_spec s)). map_of m ''name'' = Some (JStr n)}\<rparr>"

text \<open>\<open>run\<close> after the drive: the timings and the counts, and the exit status.\<close>

definition closing :: "session \<Rightarrow> session" where
  "closing s =
     (let s1 = emits (map (\<lambda>l. mk_event K_NOTE (removeprefix ''[time] '' l) L_INFO None None None [])
                  (splitlines (report_summary (se_now s) 5 (se_report s)))) s
      in emit (mk_event K_NOTE (summarise (se_state s1)) L_INFO None None None []) s1)"

inductive run_command ::
  "run_args \<Rightarrow> env \<Rightarrow> drive_world \<Rightarrow> session \<Rightarrow> exn + nat \<Rightarrow> session \<Rightarrow> bool"
  for args cx w where
  refused: "prepare args s = (Some e, s1) \<Longrightarrow> run_command args cx w s (Inl e) s1"
| raised: "prepare args s = (None, s1) \<Longrightarrow> sequence (drive_config args s1) cx w s1 (Some e) s2 \<Longrightarrow>
    run_command args cx w s (Inl (grouped e)) s2"
| ended: "prepare args s = (None, s1) \<Longrightarrow> sequence (drive_config args s1) cx w s1 None s2 \<Longrightarrow>
    run_command args cx w s (Inr (if session_passed s2 then 0 else 1)) (closing s2)"

inductive_cases sequenceE: "sequence cfg cx w s e s'"
inductive_cases run_commandE: "run_command args cx w s r s'"

text \<open>\<open>main\<close>: the status the process ends with and what it prints, unless the exception is left to Python.\<close>

datatype process_end = Exits nat "string list" | Traceback exn

definition end_of_main :: "exn + nat \<Rightarrow> process_end" where
  "end_of_main r =
     (case r of
        Inr code \<Rightarrow> Exits code []
      | Inl Cancelled \<Rightarrow> Exits 130 []
      | Inl (Exn n m) \<Rightarrow>
          if n \<in> {''SessionError'', ''SpecError''} then Exits 1 [''[uml] '' @ m] else Traceback (Exn n m))"

definition end_of_monitor :: "string \<Rightarrow> string + nat \<Rightarrow> process_end" where
  "end_of_monitor socket r =
     (case r of
        Inr code \<Rightarrow> Exits code []
      | Inl e \<Rightarrow> Exits 3 [''[uml] cannot follow '' @ socket @ '': '' @ e,
          ''[uml] read '' @ path_parent socket @ ''/events.jsonl instead''])"

section \<open>The client\<close>

text \<open>\<open>shlex.join\<close>, with \<open>shlex.quote\<close> for each word.\<close>

definition shell_safe :: "char \<Rightarrow> bool" where
  "shell_safe c = (let n = of_char c :: nat in
     (48 \<le> n \<and> n \<le> 57) \<or> (65 \<le> n \<and> n \<le> 90) \<or> (97 \<le> n \<and> n \<le> 122) \<or> c \<in> set ''_@%+=:,./-'')"

definition shell_quote :: "string \<Rightarrow> string" where
  "shell_quote w =
     (if w = [] then [SQUOTE, SQUOTE]
      else if list_all shell_safe w then w
      else [SQUOTE] @ replace_char SQUOTE [SQUOTE, DQUOTE, SQUOTE, DQUOTE, SQUOTE] w @ [SQUOTE])"

definition shlex_join :: "string list \<Rightarrow> string" where
  "shlex_join ws = join '' '' (map shell_quote ws)"

record ctl_args =
  ca_op :: op
  ca_arg :: string
  ca_pytest :: "string list"

definition ctl_arg :: "string \<Rightarrow> ctl_args \<Rightarrow> string" where
  "ctl_arg stdin args =
     (let arg = (if ca_arg args = ''-'' then stdin else ca_arg args)
      in if ca_op args = PYTEST then shlex_join (arg # ca_pytest args) else arg)"

text \<open>What \<open>ctl\<close> prints, to standard output and standard error, and its exit status.\<close>

definition ctl_output :: "reply \<Rightarrow> string \<times> string \<times> nat" where
  "ctl_output r =
     ((if rp_output r = [] then []
       else rp_output r @ (if last (rp_output r) = LF then [] else [LF])) @
      (case rp_result r of None \<Rightarrow> [] | Some v \<Rightarrow> v @ [LF]) @
      (case rp_state r of None \<Rightarrow> []
       | Some st \<Rightarrow> concat (map (\<lambda>(n, v). n @ [CHR 0x09] @ v @ [LF]) st)),
      (case rp_error r of None \<Rightarrow> [] | Some e \<Rightarrow> if e = [] then [] else rstrip e @ [LF]),
      if rp_ok r then 0 else 1)"

definition ctl_unreachable :: "string \<Rightarrow> string \<Rightarrow> string \<times> nat" where
  "ctl_unreachable out e =
     (''[uml] no run is listening at '' @ path_join out ''control.sock'' @ '': '' @ e @ [LF], 1)"

definition phase_lines :: "spec \<Rightarrow> string list" where
  "phase_lines sp =
     map (\<lambda>p. ph_name p @ (if ph_after p = [] then [] else '' after '' @ join '', '' (ph_after p))) (sp_phases sp)"

section \<open>Quoting\<close>

lemma shell_safe_plain:
  assumes "shell_safe c"
  shows "\<not> shell_space c" "c \<noteq> BACKSLASH" "c \<noteq> SQUOTE" "c \<noteq> DQUOTE"
  using assms
  by (auto simp: shell_safe_def Let_def shell_space_def BACKSLASH_def SQUOTE_def DQUOTE_def)

lemma words_safe: "list_all shell_safe w \<Longrightarrow> shell_words In_word v (w @ rest) = shell_words In_word (v @ w) rest"
  by (induction w arbitrary: v) (simp_all add: shell_safe_plain)

lemma words_escaped:
  "shell_words (In_quotes SQUOTE) v (replace_char SQUOTE [SQUOTE, DQUOTE, SQUOTE, DQUOTE, SQUOTE] w @ SQUOTE # rest)
     = shell_words In_word (v @ w) rest"
proof (induction w arbitrary: v)
  case (Cons c w)
  have "DQUOTE \<noteq> SQUOTE" "SQUOTE \<noteq> DQUOTE" "\<not> shell_space SQUOTE" "\<not> shell_space DQUOTE" "SQUOTE \<noteq> BACKSLASH"
    by (simp_all add: SQUOTE_def DQUOTE_def shell_space_def BACKSLASH_def)
  with Cons show ?case by (cases "c = SQUOTE") simp_all
qed simp

lemma words_quote: "shell_words Between [] (shell_quote w @ rest) = shell_words In_word w rest"
proof -
  have q: "\<not> shell_space SQUOTE" "SQUOTE \<noteq> BACKSLASH"
    by (simp_all add: SQUOTE_def shell_space_def BACKSLASH_def)
  consider "w = []" | c cs where "w = c # cs" "list_all shell_safe w" | "\<not> list_all shell_safe w"
    by (cases w) auto
  then show ?thesis
  proof cases
    case 1
    with q show ?thesis by (simp add: shell_quote_def)
  next
    case 2
    then show ?thesis by (simp add: shell_quote_def shell_safe_plain words_safe)
  next
    case 3
    then have "w \<noteq> []" by auto
    with 3 q words_escaped [of "[]" w rest] show ?thesis by (simp add: shell_quote_def)
  qed
qed

lemma shlex_split_join: "shlex_split (shlex_join ws) = Inr ws"
proof (induction ws rule: induct_list012)
  case 1
  then show ?case by (simp add: shlex_split_def shlex_join_def)
next
  case (2 w)
  then show ?case using words_quote [of w "[]"] by (simp add: shlex_split_def shlex_join_def)
next
  case (3 w v ws)
  have "shell_space (CHR '' '')" by (simp add: shell_space_def)
  then show ?case
    using words_quote [of w "CHR '' '' # shlex_join (v # ws)"] 3 by (simp add: shlex_split_def shlex_join_def)
qed

interpretation shell_line: round_trip shlex_join shlex_split Inr "\<lambda>_. True"
  by unfold_locales (simp_all add: shlex_split_join)

section \<open>Deselecting\<close>

lemma deselect_fields [simp]:
  "se_spec (deselect n s) = se_spec s" "se_state (deselect n s) = AList.update n DESELECTED (se_state s)"
  "se_vms (deselect n s) = se_vms s" "se_booted (deselect n s) = se_booted s" "se_lans (deselect n s) = se_lans s"
  "se_kernel (deselect n s) = se_kernel s"
  by (simp_all add: deselect_def set_state_def emit_def split: option.splits)

lemma deselect_all_state:
  "map_of (se_state (fold deselect ns s)) n = (if n \<in> set ns then Some DESELECTED else map_of (se_state s) n)"
  by (induction ns arbitrary: s) auto

lemma keeps_announce: "keeps s (announce s)"
  by (simp add: announce_def keeps_emits)

lemma select_state:
  assumes "select only s = (None, s')" and "only \<noteq> []"
  shows "map_of (se_state s') n =
    (if n \<in> set (name_list s) \<and> n \<notin> set only then Some DESELECTED else map_of (se_state s) n)"
  using assms by (auto simp: select_def deselect_all_state split: if_splits)

section \<open>The evidence\<close>

text \<open>Putting the guests down leaves what was written and the verdict alone.\<close>

definition same_verdict :: "session \<Rightarrow> session \<Rightarrow> bool" where
  "same_verdict s t \<longleftrightarrow> se_written t = se_written s \<and> se_state t = se_state s \<and> se_errors t = se_errors s"

lemma same_verdict_refl [simp]: "same_verdict s s"
  by (simp add: same_verdict_def)

lemma same_verdict_trans: "same_verdict s t \<Longrightarrow> same_verdict t u \<Longrightarrow> same_verdict s u"
  by (simp add: same_verdict_def)

lemma same_verdict_print: "same_verdict s (task_print p m s)"
  by (simp add: same_verdict_def task_print_def lines_write_def)

lemma same_verdict_fold: "(\<And>x t. same_verdict t (f x t)) \<Longrightarrow> same_verdict s (fold f xs s)"
  by (rule fold_keeps [where P = "same_verdict s"]) (auto intro: same_verdict_trans)

lemma same_verdict_close: "same_verdict s (close_lans s)"
  unfolding close_lans_def
proof (rule same_verdict_fold)
  fix l and t :: session
  obtain said l' k where c: "lan_close l (se_sockets t) = (said, l', k)" by (cases "lan_close l (se_sockets t)")
  have "same_verdict t (t\<lparr>se_sockets := k\<rparr>)" by (simp add: same_verdict_def)
  moreover have "same_verdict (t\<lparr>se_sockets := k\<rparr>)
      (fold (\<lambda>m. task_print None (m @ [LF])) said (t\<lparr>se_sockets := k\<rparr>))"
    by (rule same_verdict_fold) (rule same_verdict_print)
  ultimately show "same_verdict t (case lan_close l (se_sockets t) of (said, l', k) \<Rightarrow>
      fold (\<lambda>m. task_print None (m @ [LF])) said (t\<lparr>se_sockets := k\<rparr>))"
    using c same_verdict_trans by auto
qed

lemma same_verdict_shutdown: "same_verdict s (shutdown_one raises n s)"
  by (auto simp: shutdown_one_def same_verdict_print split: option.split)

lemma same_verdict_teardown: "same_verdict s (teardown raises s)"
proof -
  let ?s1 = "case se_vms s of None \<Rightarrow> s
    | Some vms \<Rightarrow> (fold (shutdown_one raises) (dict_keys vms) s)\<lparr>se_vms := None\<rparr>"
  have "same_verdict s ?s1"
  proof (cases "se_vms s")
    case (Some vms)
    have "same_verdict s (fold (shutdown_one raises) (dict_keys vms) s)"
      by (rule same_verdict_fold) (rule same_verdict_shutdown)
    with Some show ?thesis by (simp add: same_verdict_def)
  qed simp
  moreover have "same_verdict ?s1 (close_lans ?s1)" by (rule same_verdict_close)
  ultimately have "same_verdict s (close_lans ?s1)" by (rule same_verdict_trans)
  then show ?thesis by (simp add: teardown_def same_verdict_def)
qed

lemma vms_print: "se_vms (task_print p m s) = se_vms s"
  by (simp add: task_print_def lines_write_def)

lemma close_lans_vms: "se_vms (close_lans s) = se_vms s"
proof -
  have printed: "se_vms (fold (\<lambda>m. task_print None (m @ [LF])) said u) = se_vms u" for said u
    by (induction said arbitrary: u) (simp_all add: vms_print)
  show ?thesis unfolding close_lans_def
  proof (rule fold_keeps [where P = "\<lambda>t. se_vms t = se_vms s"])
    fix l and t :: session
    assume "se_vms t = se_vms s"
    then show "se_vms (case lan_close l (se_sockets t) of (said, l', k) \<Rightarrow>
        fold (\<lambda>m. task_print None (m @ [LF])) said (t\<lparr>se_sockets := k\<rparr>)) = se_vms s"
      by (simp add: printed split: prod.split)
  qed simp
qed

lemma teardown_down: "se_vms (teardown raises s) = None \<and> se_lans (teardown raises s) = [] \<and> \<not> se_booted (teardown raises s)"
  by (cases "se_vms s") (simp_all add: teardown_def close_lans_vms)

definition status_text :: "session \<Rightarrow> string" where
  "status_text s = (if session_passed s then ''0'' else ''1'') @ [LF]"

lemma write_output_state [simp]: "se_state (write_output dumps s) = se_state s"
  by (simp add: write_output_def Let_def emit_def split: option.split)

lemma write_output_status: "map_of (se_written (write_output dumps s)) ''status'' = Some (status_text s)"
  by (simp add: write_output_def Let_def emit_def status_text_def split: option.split)

lemma evidence_complete:
  assumes "evidence cx w s = (None, s')"
  shows "se_vms s' = None \<and> se_lans s' = [] \<and> map_of (se_written s') ''status'' = Some (status_text s')"
proof -
  obtain s1 where s': "s' = teardown (dw_raises w) (write_output (dw_dumps w) s1)"
    using assms by (auto simp: evidence_def split: prod.splits option.splits)
  let ?o = "write_output (dw_dumps w) s1"
  have "same_verdict ?o s'" unfolding s' by (rule same_verdict_teardown)
  then have "map_of (se_written s') ''status'' = Some (status_text s')"
    using write_output_status [of "dw_dumps w" s1] by (simp add: same_verdict_def status_text_def session_passed_def)
  then show ?thesis using teardown_down s' by simp
qed

lemma evidence_sure:
  "(\<And>t. fst (drain (cx_loads cx) (cx_decode cx) t) = None) \<Longrightarrow> evidence cx w s = (e, s') \<Longrightarrow> e = None"
  by (auto simp: evidence_def split: prod.splits option.splits) (metis fst_conv not_None_eq)

lemma sequence_evidence:
  assumes "sequence cfg cx w s e s'" and "\<And>t. fst (drain (cx_loads cx) (cx_decode cx) t) = None"
  shows "\<exists>s1. evidence cx w s1 = (None, s')"
  using assms(1) by cases (use evidence_sure [OF assms(2)] in blast)+

lemma closing_fields [simp]:
  "se_vms (closing s) = se_vms s" "se_lans (closing s) = se_lans s" "se_written (closing s) = se_written s"
  "se_state (closing s) = se_state s"
  by (simp_all add: closing_def Let_def emit_def split: option.split)

lemma drain_no_json: "cx_loads cx = (\<lambda>l. None) \<Longrightarrow> fst (drain (cx_loads cx) (cx_decode cx) s) = None"
proof -
  assume l: "cx_loads cx = (\<lambda>l. None)"
  have lines: "drain_lines (\<lambda>l. None) d n ls s = (None, s)" for d n ls s
    by (induction ls) (simp_all add: journal_parse_def)
  have "fst (drain_tails (\<lambda>l. None) d ts s) = None" for d ts s
    by (induction ts arbitrary: s) (auto simp: lines split: prod.splits)
  then show ?thesis by (simp add: drain_def l)
qed

section \<open>Properties\<close>


definition demo_args :: run_args where
  "demo_args = \<lparr>ra_out = ''out'', ra_only = [''lint''], ra_breaks = [], ra_kernel = None, ra_break_on_failure = False,
     ra_serial = False, ra_offline = True, ra_verbose = 0, ra_quiet = False, ra_pytest = []\<rparr>"

definition demo_drive :: drive_world where
  "demo_drive = \<lparr>dw_boot = \<lparr>bw_can_bind = (\<lambda>a n. True), bw_start = 1024, bw_acts = [], bw_starts = []\<rparr>,
     dw_raises = (\<lambda>n. None), dw_dumps = json_repr\<rparr>"

lemma demo_prepared:
  "\<exists>s1. prepare demo_args demo_session = (None, s1) \<and> se_spec s1 = demo_spec \<and> se_kernel s1 = None \<and> \<not> se_booted s1"
proof -
  define s0 where "s0 = announce (emit (mk_event K_RUN_STARTED (''output in '' @ ra_out demo_args) L_INFO None None None [])
    demo_session)"
  have s0: "se_spec s0 = demo_spec" "se_kernel s0 = None" "\<not> se_booted s0"
    by (simp_all add: s0_def announce_def emit_def demo_session_def new_session_def split: option.split)
  have "unknown_names [''lint''] s0 = []"
    by (simp add: unknown_names_def name_list_def s0 demo_spec_def demo_phases_def demo_phase_def sort_by_def)
  then have "select (ra_only demo_args) s0 =
      (None, fold deselect (filter (\<lambda>n. n \<notin> set [''lint'']) (name_list s0)) s0)"
    by (simp add: select_def demo_args_def)
  moreover have "se_spec (fold deselect ns s0) = demo_spec \<and> se_kernel (fold deselect ns s0) = None \<and>
      \<not> se_booted (fold deselect ns s0)" for ns
    using s0 by (induction ns rule: rev_induct) simp_all
  moreover have "unknown_names (ra_breaks demo_args) t = []" for t
    by (simp add: unknown_names_def demo_args_def sort_by_def)
  ultimately show ?thesis unfolding prepare_def s0_def [symmetric] by simp
qed


text \<open>
  The words of a \<open>pytest\<close> request survive the shell. What \<open>uml ctl pytest\<close> sends of a path
  and the arguments after \<open>--\<close>, whatever characters they have, the controller splits back into
  that path and those arguments.
\<close>

theorem pytest_words_roundtrip:
  "shlex_split (ctl_arg stdin \<lparr>ca_op = PYTEST, ca_arg = path, ca_pytest = extra\<rparr>) =
    Inr ((if path = ''-'' then stdin else path) # extra)"
  by (simp add: ctl_arg_def shlex_split_join)

end
