(* ===== verification/Server.thy ===== *)
theory Server
  imports Cli
begin

text \<open>
  \<^verbatim>\<open>src/pkgs/uml-eval/uml_eval/server.py\<close>: the MCP server that starts runs and pushes what happens to
  them, and \<^verbatim>\<open>src/pkgs/uml-eval/uml_eval/cli.py\<close>, the program it starts a run with. First what is pure:
  which events of a run are worth a message, the query over its events, the command line, what is
  said of a run that died. Then one run as a state machine: the child writes its file of
  events and exits, \<open>_watch\<close> follows the file and pushes, and monitors come and go.
\<close>

section \<open>An attribute and the words after it\<close>

definition split_attr :: "string \<Rightarrow> string + string list" where
  "split_attr s =
     (let parts = split_on (CHR ''.'') s in
      if [] \<in> set parts then Inl (''not an attribute path: '' @ py_repr s) else Inr parts)"

definition eval_entry :: "(string \<Rightarrow> bool) \<Rightarrow> string \<Rightarrow> string" where
  "eval_entry is_dir f = (if is_dir f then path_join f ''default.nix'' else f)"

text \<open>The arguments from the first \<open>--\<close> on, with it, are for \<open>uml\<close>.\<close>

fun eval_split :: "string list \<Rightarrow> string list \<times> string list" where
  "eval_split [] = ([], [])"
| "eval_split (a # as) =
     (if a = ''--'' then ([], a # as) else (case eval_split as of (h, t) \<Rightarrow> (a # h, t)))"

text \<open>\<open>explain\<close>: the last line that starts with \<open>error:\<close> and what follows it come first.\<close>

definition is_error_line :: "string \<Rightarrow> bool" where
  "is_error_line l = startswith (lstrip l) ''error:''"

definition explain :: "string \<Rightarrow> string" where
  "explain err =
     (let plain = rstrip (strip_ansi err); ls = splitlines plain in
      if \<not> list_ex is_error_line ls then plain
      else (let trail = length (takeWhile (\<lambda>l. \<not> is_error_line l) (rev ls));
                at_last = length ls - trail - 1;
                point = strip (join [LF] (drop at_last ls));
                trace = rstrip (join [LF] (take at_last ls))
            in if trace = [] then point else point @ [LF, LF] @ trace))"

definition EVAL_FAILED :: string where "EVAL_FAILED = ''[uml] evaluation failed:''"

section \<open>What is worth a message\<close>

text \<open>
  \<open>event.get("data") or {}\<close>. An operation on it that its type has not raises; the run writes an
  object or nothing.
\<close>

definition event_data :: "jdict \<Rightarrow> json" where
  "event_data event = py_or (jget event ''data'') (JObj [])"

definition data_get :: "jdict \<Rightarrow> string \<Rightarrow> string + json" where
  "data_get event k =
     (case event_data event of JObj d \<Rightarrow> Inr (jget d k) | _ \<Rightarrow> Inl ''AttributeError'')"

text \<open>\<open>"reason" in data\<close> and \<open>data["reason"]\<close>.\<close>

definition data_reason :: "jdict \<Rightarrow> string + json option" where
  "data_reason event =
     (case event_data event of
        JObj d \<Rightarrow> Inr (map_of d ''reason'')
      | JStr s \<Rightarrow> if contains ''reason'' s then Inl ''TypeError'' else Inr None
      | JList vs \<Rightarrow> if JStr ''reason'' \<in> set vs then Inl ''TypeError'' else Inr None
      | _ \<Rightarrow> Inl ''TypeError'')"

text \<open>\<open>f"{x:.0f}"\<close> of what JSON gave.\<close>

definition whole_seconds :: "json \<Rightarrow> string + string" where
  "whole_seconds v =
     (case v of
        JInt i \<Rightarrow> Inr (fixed 0 (of_int i))
      | JFloat x \<Rightarrow> Inr (fixed 0 x)
      | JBool b \<Rightarrow> Inr (if b then ''1'' else ''0'')
      | JStr _ \<Rightarrow> Inl ''ValueError''
      | _ \<Rightarrow> Inl ''TypeError'')"

type_synonym message_meta = "(string, string) dict"

definition event_phase :: "jdict \<Rightarrow> string" where
  "event_phase event = py_str (dict_get event ''phase'' (JStr []))"

definition states_summary :: "json \<Rightarrow> string + string" where
  "states_summary v =
     (case py_or v (JObj []) of
        JObj d \<Rightarrow> Inr (join '', '' (map (\<lambda>(k, x). k @ '' '' @ py_str x) d))
      | _ \<Rightarrow> Inl ''AttributeError'')"

definition phase_ended :: "jdict \<Rightarrow> string \<Rightarrow> string + (string \<times> message_meta) option" where
  "phase_ended event run_id =
     and_then (data_get event ''state'') (\<lambda>st.
       if st = JStr ''passed'' then
         and_then (whole_seconds (dict_get event ''seconds'' (JInt 0))) (\<lambda>secs.
           Inr (Some (''phase '' @ event_phase event @ '' passed in '' @ secs @ ''s'',
             [(''run'', run_id), (''event'', ''progress''), (''phase'', event_phase event), (''state'', ''passed'')])))
       else if st = JStr ''failed'' then
         and_then (data_get event ''error'') (\<lambda>err.
           Inr (Some (strip (''phase '' @ event_phase event @ '' failed: '' @
                  (if err = JNull \<and> (case event_data event of JObj d \<Rightarrow> map_of d ''error'' = None | _ \<Rightarrow> False) then []
                   else py_str err)),
             [(''run'', run_id), (''event'', ''failed''), (''phase'', event_phase event)])))
       else Inr None)"

definition run_ended :: "jdict \<Rightarrow> string \<Rightarrow> string + (string \<times> message_meta) option" where
  "run_ended event run_id =
     and_then (data_get event ''passed'') (\<lambda>p.
     and_then (data_get event ''states'') (\<lambda>states.
     and_then (states_summary states) (\<lambda>summary.
       Inr (Some (''run '' @ (if truthy p then ''passed'' else ''failed'') @ '': '' @ summary,
         [(''run'', run_id), (''event'', ''finished''), (''passed'', if truthy p then ''true'' else ''false'')])))))"

definition channel_event :: "jdict \<Rightarrow> string \<Rightarrow> string + (string \<times> message_meta) option" where
  "channel_event event run_id =
     (let k = jget event ''kind'' in
      and_then (if k = JStr ''note'' then data_reason event else Inr None) (\<lambda>reason.
        case reason of
          Some r \<Rightarrow> Inr (Some (''paused '' @ py_str r @ ''; the guests are up until the run is resumed or stopped'',
            [(''run'', run_id), (''event'', ''paused''), (''reason'', py_str r)]))
        | None \<Rightarrow>
            if k = JStr ''phase_started'' then
              Inr (Some (''phase '' @ event_phase event @ '' started'',
                [(''run'', run_id), (''event'', ''progress''), (''phase'', event_phase event), (''state'', ''started'')]))
            else if k = JStr ''phase_finished'' then phase_ended event run_id
            else if k = JStr ''run_finished'' then run_ended event run_id
            else Inr None))"

section \<open>The query\<close>

record event_filter =
  ef_kind :: "string option"
  ef_machine :: "string option"
  ef_unit :: "string option"
  ef_phase :: "string option"
  ef_case :: "string option"
  ef_contains :: "string option"
  ef_limit :: int

definition field_is :: "string option \<Rightarrow> json \<Rightarrow> bool" where
  "field_is want v = (case want of None \<Rightarrow> True | Some s \<Rightarrow> v = JStr s)"

definition field_has :: "string option \<Rightarrow> json \<Rightarrow> bool" where
  "field_has want v = (case want of None \<Rightarrow> True | Some s \<Rightarrow> contains s (py_str v))"

definition event_matches :: "event_filter \<Rightarrow> json \<Rightarrow> string + bool" where
  "event_matches fl v =
     (case v of
        JObj e \<Rightarrow>
          (if \<not> (field_is (ef_kind fl) (jget e ''kind'') \<and> field_is (ef_machine fl) (jget e ''machine'') \<and>
                  field_is (ef_phase fl) (jget e ''phase'')) then Inr False
           else and_then (if ef_unit fl = None then Inr JNull else data_get e ''unit'') (\<lambda>u.
             if \<not> field_is (ef_unit fl) u then Inr False
             else and_then (if ef_case fl = None then Inr JNull
                            else and_then (data_get e ''case'') (\<lambda>c. Inr (case event_data e of
                                   JObj d \<Rightarrow> dict_get d ''case'' (JStr []) | _ \<Rightarrow> c))) (\<lambda>c.
               Inr (field_has (ef_case fl) c \<and> field_has (ef_contains fl) (dict_get e ''text'' (JStr []))))))
      | _ \<Rightarrow> Inl ''AttributeError'')"

fun select_from :: "(string \<Rightarrow> json option) \<Rightarrow> event_filter \<Rightarrow> string list \<Rightarrow> string + json list" where
  "select_from loads fl [] = Inr []"
| "select_from loads fl (l # ls) =
     (case loads l of
        None \<Rightarrow> select_from loads fl ls
      | Some v \<Rightarrow>
          and_then (event_matches fl v) (\<lambda>m.
            and_then (select_from loads fl ls) (\<lambda>found. Inr (if m then v # found else found))))"

definition select_events :: "(string \<Rightarrow> json option) \<Rightarrow> event_filter \<Rightarrow> string list \<Rightarrow> string + json list" where
  "select_events loads fl ls =
     and_then (select_from loads fl ls) (\<lambda>found.
       Inr (if ef_limit fl > 0 then last_n (nat (ef_limit fl)) found else found))"

section \<open>The child's command line\<close>

record child_request =
  rq_out :: string
  rq_attr :: "string option"
  rq_spec :: "string option"
  rq_file :: string
  rq_breaks :: "string list"
  rq_break_on_failure :: bool
  rq_only :: "string list"
  rq_offline :: bool
  rq_pytest :: "string list"
  rq_runner :: "string option"
  rq_kernel :: "string option"

definition run_head :: "string \<Rightarrow> child_request \<Rightarrow> string + string list" where
  "run_head python q =
     (if (rq_attr q = None) = (rq_spec q = None) then Inl ''give exactly one of attr and spec''
      else case rq_attr q of
        Some a \<Rightarrow> and_then (split_attr a) (\<lambda>_.
          Inr [path_join (path_parent python) ''uml-eval'', ''run'', a, ''--file'', rq_file q])
      | None \<Rightarrow>
          Inr ((case rq_runner q of
                  Some r \<Rightarrow> [path_join (path_join r ''bin'') ''uml'', ''run'']
                | None \<Rightarrow> [python, ''-m'', ''uml.cli'', ''run'']) @ [''--spec'', opt_str (rq_spec q)]))"

definition run_argv :: "string \<Rightarrow> child_request \<Rightarrow> string + string list" where
  "run_argv python q =
     and_then (run_head python q) (\<lambda>head. Inr
       (head @ [''--out'', rq_out q] @
        concat (map (\<lambda>n. [''--break'', n]) (rq_breaks q)) @
        concat (map (\<lambda>n. [''--only'', n]) (rq_only q)) @
        (if rq_break_on_failure q then [''--break-on-failure''] else []) @
        (if rq_offline q then [''--offline''] else []) @
        (case rq_kernel q of None \<Rightarrow> [] | Some k \<Rightarrow> [''--kernel'', k]) @
        (if rq_pytest q = [] then [] else ''--'' # rq_pytest q)))"

text \<open>\<open>why_it_exited\<close>.\<close>

definition why_it_exited :: "string \<Rightarrow> string" where
  "why_it_exited output =
     (let ls = splitlines output; later = dropWhile (\<lambda>l. \<not> startswith l EVAL_FAILED) ls in
      if later \<noteq> [] then join [LF] (take 4 later) else join [LF] (last_n 15 ls))"

text \<open>\<open>_reply\<close>: a tool answers the fields that say something.\<close>

definition tool_reply :: "reply \<Rightarrow> jdict" where
  "tool_reply r =
     (case reply_json r of JObj d \<Rightarrow> filter (\<lambda>(k, v). v \<noteq> JNull \<and> v \<noteq> JStr []) d | _ \<Rightarrow> [])"

section \<open>A run and those who watch it\<close>

type_synonym run_message = "(string, string) dict"

text \<open>
  One monitor's stream: the copy of the backlog still to send, what has been pushed since, what was
  sent. It is among the watchers until \<open>_monitor\<close> has come to its \<open>finally\<close>; closing its two ends
  takes a turn of the loop of its own (\<open>Closing\<close>), in which the receiving end is closed already.
\<close>

datatype watcher_mode = Serving | Closing | Departed

record watcher =
  wa_todo :: "run_message list"
  wa_queue :: "run_message list"
  wa_sent :: "run_message list"
  wa_mode :: watcher_mode

text \<open>
  \<open>Run\<close>, with its child: the file of events as far as it is written, the exit code, what it printed.
  \<open>cr_stage\<close> is where \<open>_watch\<close> stands; an exception that leaves it takes the server's task group down.
\<close>

datatype watch_stage = At_read | At_lines "string list" | Watch_over | Watch_raised string

record child_run =
  cr_id :: string
  cr_file :: string
  cr_exit :: "int option"
  cr_output :: string
  cr_tail :: tail
  cr_finished :: bool
  cr_stage :: watch_stage
  cr_backlog :: "run_message list"
  cr_watchers :: "(nat, watcher) dict"
  cr_channel :: "(string \<times> message_meta) list"

definition new_child :: "string \<Rightarrow> child_run" where
  "new_child run_id = \<lparr>cr_id = run_id, cr_file = [], cr_exit = None, cr_output = [], cr_tail = fresh_tail,
     cr_finished = False, cr_stage = At_read, cr_backlog = [], cr_watchers = [], cr_channel = []\<rparr>"

definition is_terminal :: "run_message \<Rightarrow> bool" where
  "is_terminal e = (map_of e ''event'' \<in> {Some ''finished'', Some ''exited''})"

text \<open>\<open>send_nowait\<close> to every watcher, in order: a stream whose receiving end is closed raises.\<close>

fun deliver :: "run_message \<Rightarrow> (nat, watcher) dict \<Rightarrow> bool \<times> (nat, watcher) dict" where
  "deliver e [] = (True, [])"
| "deliver e ((i, w) # ws) =
     (case wa_mode w of
        Closing \<Rightarrow> (False, (i, w) # ws)
      | Departed \<Rightarrow> (case deliver e ws of (fine, ws') \<Rightarrow> (fine, (i, w) # ws'))
      | Serving \<Rightarrow> (case deliver e ws of (fine, ws') \<Rightarrow> (fine, (i, w\<lparr>wa_queue := wa_queue w @ [e]\<rparr>) # ws')))"

definition push_message :: "string \<Rightarrow> message_meta \<Rightarrow> child_run \<Rightarrow> child_run" where
  "push_message content meta r =
     (let e = meta @ [(''text'', content)] in
      case deliver e (cr_watchers r) of (fine, ws) \<Rightarrow>
        (let r1 = r\<lparr>cr_backlog := cr_backlog r @ [e], cr_watchers := ws\<rparr> in
         if fine then r1\<lparr>cr_channel := cr_channel r1 @ [(content, meta)]\<rparr>
         else r1\<lparr>cr_stage := Watch_raised ''BrokenResourceError''\<rparr>))"

definition is_verdict :: "jdict \<Rightarrow> bool" where
  "is_verdict event = (jget event ''kind'' = JStr ''run_finished'')"

definition handle_line :: "(string \<Rightarrow> json option) \<Rightarrow> string \<Rightarrow> child_run \<Rightarrow> child_run" where
  "handle_line loads l r =
     (case loads l of
        None \<Rightarrow> r
      | Some (JObj event) \<Rightarrow>
          (let r1 = (if is_verdict event then r\<lparr>cr_finished := True\<rparr> else r) in
           case channel_event event (cr_id r) of
             Inl e \<Rightarrow> r1\<lparr>cr_stage := Watch_raised e\<rparr>
           | Inr None \<Rightarrow> r1
           | Inr (Some (content, meta)) \<Rightarrow> push_message content meta r1)
      | Some _ \<Rightarrow> r\<lparr>cr_stage := Watch_raised ''AttributeError''\<rparr>)"

definition exit_meta :: "string \<Rightarrow> message_meta" where
  "exit_meta run_id = [(''run'', run_id), (''event'', ''exited'')]"

definition exit_text :: "int \<Rightarrow> string \<Rightarrow> string" where
  "exit_text code output = ''run exited '' @ show_int code @ '' without a verdict:'' @ [LF] @ why_it_exited output"

text \<open>One turn of \<open>_watch\<close>: a read of the tail, a line, or the look at the exit code after the last line.\<close>

definition watch_turn :: "(string \<Rightarrow> json option) \<Rightarrow> (string \<Rightarrow> string) \<Rightarrow> child_run \<Rightarrow> child_run" where
  "watch_turn loads decode r =
     (case cr_stage r of
        At_read \<Rightarrow>
          (case tail_read decode (Some (length (cr_file r))) (cr_file r) (cr_tail r) of
             (ls, t) \<Rightarrow> r\<lparr>cr_tail := t, cr_stage := At_lines ls\<rparr>)
      | At_lines (l # ls) \<Rightarrow> handle_line loads l (r\<lparr>cr_stage := At_lines ls\<rparr>)
      | At_lines [] \<Rightarrow>
          (case cr_exit r of
             None \<Rightarrow> r\<lparr>cr_stage := At_read\<rparr>
           | Some code \<Rightarrow>
               if cr_finished r then r\<lparr>cr_stage := Watch_over\<rparr>
               else push_message (exit_text code (cr_output r)) (exit_meta (cr_id r)) (r\<lparr>cr_stage := Watch_over\<rparr>))
      | _ \<Rightarrow> r)"

definition next_message :: "watcher \<Rightarrow> (run_message \<times> watcher) option" where
  "next_message w =
     (case wa_todo w of
        e # es \<Rightarrow> Some (e, w\<lparr>wa_todo := es, wa_sent := wa_sent w @ [e]\<rparr>)
      | [] \<Rightarrow> (case wa_queue w of
          e # es \<Rightarrow> Some (e, w\<lparr>wa_queue := es, wa_sent := wa_sent w @ [e]\<rparr>)
        | [] \<Rightarrow> None))"

definition set_watcher :: "nat \<Rightarrow> watcher \<Rightarrow> child_run \<Rightarrow> child_run" where
  "set_watcher i w r = r\<lparr>cr_watchers := AList.update i w (cr_watchers r)\<rparr>"

fun serving :: "child_run \<Rightarrow> bool" where
  "serving r = (case cr_stage r of Watch_raised _ \<Rightarrow> False | _ \<Rightarrow> True)"

inductive run_step :: "(string \<Rightarrow> json option) \<Rightarrow> (string \<Rightarrow> string) \<Rightarrow> child_run \<Rightarrow> child_run \<Rightarrow> bool"
  for loads decode where
  writes: "serving r \<Longrightarrow> cr_exit r = None \<Longrightarrow> run_step loads decode r (r\<lparr>cr_file := cr_file r @ bytes\<rparr>)"
| exits: "serving r \<Longrightarrow> cr_exit r = None \<Longrightarrow> run_step loads decode r (r\<lparr>cr_exit := Some code, cr_output := out\<rparr>)"
| watched: "serving r \<Longrightarrow> run_step loads decode r (watch_turn loads decode r)"
| connects: "serving r \<Longrightarrow> map_of (cr_watchers r) i = None \<Longrightarrow>
    run_step loads decode r (r\<lparr>cr_watchers := cr_watchers r @
      [(i, \<lparr>wa_todo = cr_backlog r, wa_queue = [], wa_sent = [], wa_mode = Serving\<rparr>)]\<rparr>)"
| sends: "serving r \<Longrightarrow> map_of (cr_watchers r) i = Some w \<Longrightarrow> wa_mode w = Serving \<Longrightarrow>
    next_message w = Some (e, w') \<Longrightarrow>
    run_step loads decode r (set_watcher i (if is_terminal e then w'\<lparr>wa_mode := Closing\<rparr> else w') r)"
| breaks: "serving r \<Longrightarrow> map_of (cr_watchers r) i = Some w \<Longrightarrow> wa_mode w = Serving \<Longrightarrow> next_message w \<noteq> None \<Longrightarrow>
    run_step loads decode r (set_watcher i (w\<lparr>wa_mode := Closing\<rparr>) r)"
| leaves: "serving r \<Longrightarrow> map_of (cr_watchers r) i = Some w \<Longrightarrow> wa_mode w = Closing \<Longrightarrow>
    run_step loads decode r (set_watcher i (w\<lparr>wa_mode := Departed\<rparr>) r)"

section \<open>The tools\<close>

definition get_run :: "(string, child_run) dict \<Rightarrow> string \<Rightarrow> string + child_run" where
  "get_run runs name =
     (case map_of runs name of
        Some r \<Rightarrow> Inr r
      | None \<Rightarrow> Inl (''no run '' @ py_repr name @ ''; have '' @
          (let known = join '', '' (dict_keys runs) in if known = [] then ''none'' else known)))"

text \<open>\<open>state\<close>; \<open>answer_of\<close> is what the control socket answers, if the run has one.\<close>

definition tool_state :: "(string, child_run) dict \<Rightarrow> string \<Rightarrow> (string \<Rightarrow> reply option) \<Rightarrow> string + jdict" where
  "tool_state runs name answer_of =
     and_then (get_run runs name) (\<lambda>r. Inr
       (case cr_exit r of
          Some code \<Rightarrow> [(''run'', JStr name), (''status'', JStr (''exited '' @ show_int code))]
        | None \<Rightarrow> (case answer_of name of
            None \<Rightarrow> [(''run'', JStr name), (''status'', JStr ''starting or running without a control socket'')]
          | Some reply \<Rightarrow> tool_reply reply)))"

definition tool_events ::
  "(string \<Rightarrow> json option) \<Rightarrow> (string \<Rightarrow> string) \<Rightarrow> (string, child_run) dict \<Rightarrow> string \<Rightarrow> event_filter \<Rightarrow> string + json list" where
  "tool_events loads decode runs name fl =
     and_then (get_run runs name) (\<lambda>r. select_events loads fl (splitlines (decode (cr_file r))))"

definition list_runs :: "(string, child_run) dict \<Rightarrow> (string \<times> string) list" where
  "list_runs runs = map (\<lambda>(n, r). (cr_id r,
     case cr_exit r of None \<Rightarrow> ''running'' | Some code \<Rightarrow> ''exited '' @ show_int code)) runs"

text \<open>
  \<open>_stop\<close>: the code a \<open>SIGINT\<close> ends the run with inside a minute, if it does; otherwise it is killed,
  and its exit is not awaited.
\<close>

definition stop_run :: "int option \<Rightarrow> child_run \<Rightarrow> string list \<times> child_run" where
  "stop_run ended r =
     (if cr_exit r \<noteq> None then ([], r)
      else (case ended of
          Some code \<Rightarrow> ([''SIGINT''], r\<lparr>cr_exit := Some code\<rparr>)
        | None \<Rightarrow> ([''SIGINT'', ''SIGKILL''], r)))"

definition run_name :: "string option \<Rightarrow> jdict \<Rightarrow> string" where
  "run_name chosen written =
     replace_char (CHR ''.'') ''-'' (text_or chosen (py_str (dict_get written ''name'' (JStr ''run''))))"

text \<open>\<open>uml-eval\<close>'s \<open>main\<close>: what it says, and whether it execs the program or exits.\<close>

datatype eval_end = Execs string "string list" | Eval_exit int

definition eval_main ::
  "(string \<Rightarrow> bool) \<Rightarrow> string \<Rightarrow> string list \<Rightarrow> string list \<Rightarrow> string + string \<Rightarrow> seconds \<Rightarrow> string list \<times> eval_end" where
  "eval_main is_dir f path rest built secs =
     (let first = ''[uml] evaluating '' @ join ''.'' path @ '' from '' @ eval_entry is_dir f in
      case built of
        Inl err \<Rightarrow> ([first, EVAL_FAILED @ '' '' @ explain err], Eval_exit 1)
      | Inr program \<Rightarrow>
          ([first, ''[uml] evaluated and built in '' @ fixed 1 secs @ ''s''], Execs program (program # rest)))"

text \<open>Nothing of the command line after the first \<open>--\<close> is lost, and nothing before it is taken for \<open>uml\<close>'s.\<close>

lemma eval_split_append: "eval_split argv = (h, t) \<Longrightarrow> argv = h @ t \<and> ''--'' \<notin> set h \<and> (t = [] \<or> hd t = ''--'')"
  by (induction argv arbitrary: h) (auto split: if_splits prod.splits)

lemma split_attr_join: "split_attr s = Inr parts \<Longrightarrow> join ''.'' parts = s \<and> [] \<notin> set parts"
  by (auto simp: split_attr_def Let_def join_split_on split: if_splits)

text \<open>A query answers lines of the file, in order, and no more than was asked for.\<close>

lemma select_from_subseq:
  "select_from loads fl ls = Inr found \<Longrightarrow> subseq (map Some found) (map loads ls)"
proof (induction ls arbitrary: found)
  case (Cons l ls)
  show ?case
  proof (cases "loads l")
    case None
    with Cons show ?thesis by (simp add: list_emb.intros)
  next
    case (Some v)
    with Cons.prems obtain m found' where m: "event_matches fl v = Inr m" "select_from loads fl ls = Inr found'"
      "found = (if m then v # found' else found')" by (auto simp: and_then_Inr)
    with Cons.IH [OF m(2)] Some show ?thesis by auto
  qed
qed simp

lemma select_events_bounded:
  "select_events loads fl ls = Inr found \<Longrightarrow> 0 < ef_limit fl \<Longrightarrow> length found \<le> nat (ef_limit fl)"
  by (auto simp: select_events_def and_then_Inr)

section \<open>What is pushed is what the file says\<close>

definition said_of :: "(string \<Rightarrow> json option) \<Rightarrow> string \<Rightarrow> string \<Rightarrow> run_message list" where
  "said_of loads run_id l =
     (case loads l of
        Some (JObj event) \<Rightarrow>
          (case channel_event event run_id of Inr (Some (content, meta)) \<Rightarrow> [meta @ [(''text'', content)]] | _ \<Rightarrow> [])
      | _ \<Rightarrow> [])"

definition verdict_line :: "(string \<Rightarrow> json option) \<Rightarrow> string \<Rightarrow> bool" where
  "verdict_line loads l = (case loads l of Some (JObj event) \<Rightarrow> is_verdict event | _ \<Rightarrow> False)"

definition complete_lines :: "(string \<Rightarrow> string) \<Rightarrow> string \<Rightarrow> string list" where
  "complete_lines decode content = fst (journal_split decode content)"

fun unhandled :: "watch_stage \<Rightarrow> string list" where
  "unhandled (At_lines ls) = ls"
| "unhandled _ = []"

text \<open>What a run that ended without a verdict is reported as.\<close>

fun last_words :: "watch_stage \<Rightarrow> int option \<Rightarrow> bool \<Rightarrow> string \<Rightarrow> string \<Rightarrow> run_message list" where
  "last_words Watch_over (Some code) finished run_id output =
     (if finished then [] else [exit_meta run_id @ [(''text'', exit_text code output)]])"
| "last_words _ _ _ _ _ = []"

text \<open>Where the watch stands: what it read, what it handled of that, what it said.\<close>

definition watch_at :: "(string \<Rightarrow> json option) \<Rightarrow> (string \<Rightarrow> string) \<Rightarrow> child_run \<Rightarrow> string list \<Rightarrow> bool" where
  "watch_at loads decode r handled \<longleftrightarrow>
     tl_offset (cr_tail r) \<le> length (cr_file r) \<and>
     caught_up decode (take (tl_offset (cr_tail r)) (cr_file r)) (cr_tail r) \<and>
     handled @ unhandled (cr_stage r) = complete_lines decode (take (tl_offset (cr_tail r)) (cr_file r)) \<and>
     (cr_finished r \<longleftrightarrow> (\<exists>l\<in>set handled. verdict_line loads l)) \<and>
     cr_backlog r = concat (map (said_of loads (cr_id r)) handled) @
       last_words (cr_stage r) (cr_exit r) (cr_finished r) (cr_id r) (cr_output r) \<and>
     (cr_stage r = Watch_over \<longrightarrow> cr_exit r \<noteq> None)"

definition watch_ok :: "(string \<Rightarrow> json option) \<Rightarrow> (string \<Rightarrow> string) \<Rightarrow> child_run \<Rightarrow> bool" where
  "watch_ok loads decode r \<longleftrightarrow> (\<exists>handled. watch_at loads decode r handled)"

text \<open>Where a monitor stands: behind the backlog by what it still has to send.\<close>

definition watcher_ok :: "run_message list \<Rightarrow> watcher \<Rightarrow> bool" where
  "watcher_ok backlog w \<longleftrightarrow>
     prefix (wa_sent w) backlog \<and>
     (wa_mode w = Serving \<longrightarrow> wa_sent w @ wa_todo w @ wa_queue w = backlog \<and> \<not> list_ex is_terminal (wa_sent w)) \<and>
     \<not> list_ex is_terminal (butlast (wa_sent w))"

definition run_ok :: "(string \<Rightarrow> json option) \<Rightarrow> (string \<Rightarrow> string) \<Rightarrow> child_run \<Rightarrow> bool" where
  "run_ok loads decode r \<longleftrightarrow>
     distinct (dict_keys (cr_watchers r)) \<and>
     (serving r \<longrightarrow> watch_ok loads decode r \<and> (\<forall>(i, w)\<in>set (cr_watchers r). watcher_ok (cr_backlog r) w))"

lemma in_set_update: "(k, v) \<in> set (AList.update i w d) \<Longrightarrow> (k, v) = (i, w) \<or> (k, v) \<in> set d"
  by (induction d) (auto split: if_splits)

lemma deliver_keys: "dict_keys (snd (deliver e ws)) = dict_keys ws"
  by (induction e ws rule: deliver.induct) (auto simp: dict_keys_def split: watcher_mode.splits prod.splits)

definition queued :: "run_message \<Rightarrow> watcher \<Rightarrow> watcher" where
  "queued e w = (if wa_mode w = Serving then w\<lparr>wa_queue := wa_queue w @ [e]\<rparr> else w)"

lemma deliver_fine: "deliver e ws = (True, ws') \<Longrightarrow> ws' = map (\<lambda>(i, w). (i, queued e w)) ws"
  by (induction e ws arbitrary: ws' rule: deliver.induct)
    (auto simp: queued_def split: watcher_mode.splits prod.splits)

lemma watcher_ok_queued: "watcher_ok backlog w \<Longrightarrow> watcher_ok (backlog @ [e]) (queued e w)"
  by (auto simp: watcher_ok_def queued_def prefix_def)

lemma watcher_ok_new: "watcher_ok backlog \<lparr>wa_todo = backlog, wa_queue = [], wa_sent = [], wa_mode = Serving\<rparr>"
  by (simp add: watcher_ok_def)

lemma watcher_ok_mode: "watcher_ok backlog w \<Longrightarrow> m \<noteq> Serving \<Longrightarrow> watcher_ok backlog (w\<lparr>wa_mode := m\<rparr>)"
  by (auto simp: watcher_ok_def)

lemma watcher_ok_sends:
  assumes "watcher_ok backlog w" and "wa_mode w = Serving" and "next_message w = Some (e, w')"
  shows "watcher_ok backlog (if is_terminal e then w'\<lparr>wa_mode := Closing\<rparr> else w')"
proof -
  from assms(3) have w': "wa_sent w' = wa_sent w @ [e]" "wa_mode w' = wa_mode w"
    "wa_todo w @ wa_queue w = e # wa_todo w' @ wa_queue w'"
    by (auto simp: next_message_def split: list.splits)
  have b: "wa_sent w @ e # wa_todo w' @ wa_queue w' = backlog" "\<not> list_ex is_terminal (wa_sent w)"
    using assms(1,2) w'(3) by (simp_all add: watcher_ok_def)
  then have "prefix (wa_sent w @ [e]) backlog" by (auto simp: prefix_def)
  with b w' assms(2) show ?thesis by (simp add: watcher_ok_def)
qed

text \<open>What a push does to a run: refused by a closing watcher, or heard by all that still serve.\<close>

lemma push_cases:
  obtains (fine) "push_message content meta r =
      r\<lparr>cr_backlog := cr_backlog r @ [meta @ [(''text'', content)]],
        cr_watchers := map (\<lambda>(i, w). (i, queued (meta @ [(''text'', content)]) w)) (cr_watchers r),
        cr_channel := cr_channel r @ [(content, meta)]\<rparr>"
    | (raised) "\<not> serving (push_message content meta r)"
        "dict_keys (cr_watchers (push_message content meta r)) = dict_keys (cr_watchers r)"
proof (cases "deliver (meta @ [(''text'', content)]) (cr_watchers r)")
  case (Pair f ws)
  show thesis
  proof (cases f)
    case True
    from True Pair have "deliver (meta @ [(''text'', content)]) (cr_watchers r) = (True, ws)" by simp
    then have "ws = map (\<lambda>(i, w). (i, queued (meta @ [(''text'', content)]) w)) (cr_watchers r)"
      by (rule deliver_fine)
    with True Pair show thesis by (intro fine) (simp add: push_message_def Let_def)
  next
    case False
    with Pair deliver_keys [of "meta @ [(''text'', content)]" "cr_watchers r"] show thesis
      by (intro raised) (simp_all add: push_message_def Let_def)
  qed
qed

definition all_watchers_ok :: "child_run \<Rightarrow> bool" where
  "all_watchers_ok r \<longleftrightarrow> (\<forall>(i, w)\<in>set (cr_watchers r). watcher_ok (cr_backlog r) w)"

lemma run_ok_serving:
  "serving r \<Longrightarrow> run_ok loads decode r \<longleftrightarrow>
     distinct (dict_keys (cr_watchers r)) \<and> watch_ok loads decode r \<and> all_watchers_ok r"
  by (simp add: run_ok_def all_watchers_ok_def)

lemma run_ok_raised: "\<not> serving r \<Longrightarrow> run_ok loads decode r \<longleftrightarrow> distinct (dict_keys (cr_watchers r))"
  by (simp add: run_ok_def)

lemma all_ok_push:
  "all_watchers_ok r \<Longrightarrow> all_watchers_ok (r\<lparr>cr_backlog := cr_backlog r @ [e],
     cr_watchers := map (\<lambda>(i, w). (i, queued e w)) (cr_watchers r), cr_channel := ch\<rparr>)"
  by (auto simp: all_watchers_ok_def intro: watcher_ok_queued)

lemma keys_queued [simp]: "dict_keys (map (\<lambda>(i, w). (i, queued e w)) ws) = dict_keys ws"
  by (induction ws) (auto simp: dict_keys_def)

lemma all_ok_set:
  "all_watchers_ok r \<Longrightarrow> watcher_ok (cr_backlog r) w \<Longrightarrow> all_watchers_ok (set_watcher i w r)"
  by (auto simp: all_watchers_ok_def set_watcher_def dest: in_set_update)

lemma watch_ok_set [simp]: "watch_ok loads decode (set_watcher i w r) = watch_ok loads decode r"
  by (simp add: watch_ok_def watch_at_def set_watcher_def)

lemma run_ok_set:
  assumes "serving r" and "run_ok loads decode r" and "watcher_ok (cr_backlog r) w"
  shows "run_ok loads decode (set_watcher i w r)"
proof -
  have "serving (set_watcher i w r)" using assms(1) by (simp add: set_watcher_def)
  moreover have "distinct (dict_keys (cr_watchers (set_watcher i w r)))"
    using assms(1,2) by (simp add: run_ok_serving set_watcher_def distinct_keys_update)
  ultimately show ?thesis using assms all_ok_set by (simp add: run_ok_serving)
qed

lemma watch_at_read:
  assumes "watch_at loads decode r handled" and "cr_stage r = At_read"
  shows "watch_ok loads decode (watch_turn loads decode r)"
proof -
  let ?off = "tl_offset (cr_tail r)" and ?file = "cr_file r"
  obtain ls t where read: "tail_read decode (Some (length ?file)) ?file (cr_tail r) = (ls, t)" by force
  have "caught_up decode (take ?off ?file) (cr_tail r)" using assms(1) by (simp add: watch_at_def)
  from tail_read_step [OF this, of "drop ?off ?file" ls t] read
  have "complete_lines decode (take ?off ?file) @ ls = complete_lines decode ?file" "caught_up decode ?file t"
    by (simp_all add: complete_lines_def)
  moreover from this(2) have "tl_offset t = length ?file" by (simp add: caught_up_def)
  ultimately have "watch_at loads decode (r\<lparr>cr_tail := t, cr_stage := At_lines ls\<rparr>) handled"
    using assms by (simp add: watch_at_def)
  then show ?thesis using assms(2) read by (auto simp: watch_ok_def watch_turn_def)
qed

text \<open>Handling a line, with or without something to say.\<close>

lemma watch_at_line:
  assumes "watch_at loads decode r handled" and "cr_stage r = At_lines (l # ls)"
    and "fin = (cr_finished r \<or> verdict_line loads l)"
  shows "watch_at loads decode
    (r\<lparr>cr_stage := At_lines ls, cr_finished := fin, cr_backlog := cr_backlog r @ said_of loads (cr_id r) l,
       cr_watchers := ws, cr_channel := ch\<rparr>) (handled @ [l])"
  using assms by (auto simp: watch_at_def)

lemma run_ok_push:
  assumes "serving r" and "distinct (dict_keys (cr_watchers r))" and "all_watchers_ok r"
    and "\<And>ws ch. watch_ok loads decode
      (r\<lparr>cr_backlog := cr_backlog r @ [meta @ [(''text'', content)]], cr_watchers := ws, cr_channel := ch\<rparr>)"
  shows "run_ok loads decode (push_message content meta r)"
proof (cases rule: push_cases [of content meta r])
  case fine
  let ?e = "meta @ [(''text'', content)]"
  let ?r = "r\<lparr>cr_backlog := cr_backlog r @ [?e],
    cr_watchers := map (\<lambda>(i, w). (i, queued ?e w)) (cr_watchers r), cr_channel := cr_channel r @ [(content, meta)]\<rparr>"
  have "serving ?r" using assms(1) by simp
  moreover have "distinct (dict_keys (cr_watchers ?r))" using assms(2) by simp
  moreover have "all_watchers_ok ?r" using assms(3) by (rule all_ok_push)
  ultimately show ?thesis unfolding fine using assms(4) by (simp add: run_ok_serving del: serving.simps)
next
  case raised
  then show ?thesis using assms(2) by (simp add: run_ok_raised del: serving.simps)
qed

lemma run_ok_line:
  assumes ok: "run_ok loads decode r" and stage: "cr_stage r = At_lines (l # ls)"
  shows "run_ok loads decode (handle_line loads l (r\<lparr>cr_stage := At_lines ls\<rparr>))"
proof -
  have sv: "serving r" using stage by simp
  then obtain handled where w: "watch_at loads decode r handled" and d: "distinct (dict_keys (cr_watchers r))"
    and a: "all_watchers_ok r" using ok by (auto simp: run_ok_serving watch_ok_def)
  note line = watch_at_line [OF w stage refl]
  have same: "run_ok loads decode (r\<lparr>cr_stage := At_lines ls, cr_finished := fin\<rparr>)"
    if "said_of loads (cr_id r) l = []" "fin = (cr_finished r \<or> verdict_line loads l)" for fin
  proof -
    have "watch_ok loads decode (r\<lparr>cr_stage := At_lines ls, cr_finished := fin\<rparr>)"
      using line [where ws = "cr_watchers r" and ch = "cr_channel r"] that by (auto simp: watch_ok_def)
    then show ?thesis using d a by (simp add: run_ok_serving all_watchers_ok_def)
  qed
  show ?thesis
  proof (cases "loads l")
    case None
    then show ?thesis using same [of "cr_finished r"] by (simp add: handle_line_def said_of_def verdict_line_def)
  next
    case (Some v)
    show ?thesis
    proof (cases v)
      case (JObj event)
      let ?fin = "cr_finished r \<or> is_verdict event"
      let ?r1 = "r\<lparr>cr_stage := At_lines ls, cr_finished := ?fin\<rparr>"
      have v: "verdict_line loads l = is_verdict event" using Some JObj by (simp add: verdict_line_def)
      have r1: "(if is_verdict event then r\<lparr>cr_stage := At_lines ls\<rparr>\<lparr>cr_finished := True\<rparr>
        else r\<lparr>cr_stage := At_lines ls\<rparr>) = ?r1" by simp
      show ?thesis
      proof (cases "channel_event event (cr_id r)")
        case (Inl e)
        then show ?thesis using Some JObj d by (simp add: handle_line_def r1 run_ok_raised)
      next
        case (Inr said)
        show ?thesis
        proof (cases said)
          case None
          then have "said_of loads (cr_id r) l = []" using Some JObj Inr by (simp add: said_of_def)
          then show ?thesis using Some JObj Inr None same [of ?fin] v by (simp add: handle_line_def r1)
        next
          case (Some cm)
          obtain content meta where cm: "cm = (content, meta)" by force
          have said: "said_of loads (cr_id r) l = [meta @ [(''text'', content)]]"
            using \<open>loads l = Some v\<close> JObj Inr Some cm by (simp add: said_of_def)
          have "run_ok loads decode (push_message content meta ?r1)"
          proof (rule run_ok_push)
            show "watch_ok loads decode
              (?r1\<lparr>cr_backlog := cr_backlog ?r1 @ [meta @ [(''text'', content)]], cr_watchers := ws, cr_channel := ch\<rparr>)" for ws ch
              using line [where ws = ws and ch = ch] said v by (auto simp: watch_ok_def)
          qed (use d a in \<open>simp_all add: all_watchers_ok_def\<close>)
          then show ?thesis using \<open>loads l = Some v\<close> JObj Inr Some cm by (simp add: handle_line_def r1)
        qed
      qed
    qed (use Some d in \<open>simp_all add: handle_line_def run_ok_raised\<close>)
  qed
qed

lemma run_ok_turn:
  assumes "run_ok loads decode r" and "serving r"
  shows "run_ok loads decode (watch_turn loads decode r)"
proof -
  obtain handled where w: "watch_at loads decode r handled" and d: "distinct (dict_keys (cr_watchers r))"
    and a: "all_watchers_ok r" using assms by (auto simp: run_ok_serving watch_ok_def simp del: serving.simps)
  show ?thesis
  proof (cases "cr_stage r")
    case At_read
    have "serving (watch_turn loads decode r)" "cr_watchers (watch_turn loads decode r) = cr_watchers r"
      "cr_backlog (watch_turn loads decode r) = cr_backlog r"
      using At_read by (simp_all add: watch_turn_def split: prod.splits)
    then show ?thesis using watch_at_read [OF w At_read] d a
      by (simp add: run_ok_serving all_watchers_ok_def del: serving.simps)
  next
    case (At_lines ls)
    show ?thesis
    proof (cases ls)
      case Nil
      show ?thesis
      proof (cases "cr_exit r")
        case None
        have "watch_at loads decode (r\<lparr>cr_stage := At_read\<rparr>) handled" using w At_lines Nil None by (simp add: watch_at_def)
        then show ?thesis using At_lines Nil None d a
          by (auto simp: watch_turn_def run_ok_serving all_watchers_ok_def watch_ok_def)
      next
        case (Some code)
        show ?thesis
        proof (cases "cr_finished r")
          case True
          have "watch_at loads decode (r\<lparr>cr_stage := Watch_over\<rparr>) handled" using w At_lines Nil Some True by (auto simp: watch_at_def)
          then show ?thesis using At_lines Nil Some True d a
            by (auto simp: watch_turn_def run_ok_serving all_watchers_ok_def watch_ok_def)
        next
          case False
          have "run_ok loads decode (push_message (exit_text code (cr_output r)) (exit_meta (cr_id r)) (r\<lparr>cr_stage := Watch_over\<rparr>))"
          proof (rule run_ok_push)
            fix ws ch
            have "watch_at loads decode (r\<lparr>cr_stage := Watch_over,
              cr_backlog := cr_backlog r @ [exit_meta (cr_id r) @ [(''text'', exit_text code (cr_output r))]],
              cr_watchers := ws, cr_channel := ch\<rparr>) handled"
              using w At_lines Nil Some False by (simp add: watch_at_def)
            then show "watch_ok loads decode (r\<lparr>cr_stage := Watch_over\<rparr>\<lparr>
              cr_backlog := cr_backlog (r\<lparr>cr_stage := Watch_over\<rparr>) @ [exit_meta (cr_id r) @ [(''text'', exit_text code (cr_output r))]],
              cr_watchers := ws, cr_channel := ch\<rparr>)" by (auto simp: watch_ok_def)
          qed (use d a in \<open>simp_all add: all_watchers_ok_def\<close>)
          then show ?thesis using At_lines Nil Some False by (simp add: watch_turn_def)
        qed
      qed
    next
      case (Cons l ls')
      then show ?thesis using run_ok_line [OF assms(1), of l ls'] At_lines by (simp add: watch_turn_def)
    qed
  qed (use assms in \<open>simp_all add: watch_turn_def\<close>)
qed

lemma run_ok_step: "run_step loads decode r r' \<Longrightarrow> run_ok loads decode r \<Longrightarrow> run_ok loads decode r'"
proof (induction rule: run_step.induct)
  case (writes r bytes)
  then obtain handled where w: "watch_at loads decode r handled" by (auto simp: run_ok_serving watch_ok_def simp del: serving.simps)
  have "watch_at loads decode (r\<lparr>cr_file := cr_file r @ bytes\<rparr>) handled" using w by (simp add: watch_at_def)
  then show ?case using writes by (auto simp: run_ok_serving watch_ok_def all_watchers_ok_def)
next
  case (exits r out code)
  then obtain handled where w: "watch_at loads decode r handled" by (auto simp: run_ok_serving watch_ok_def simp del: serving.simps)
  have "watch_at loads decode (r\<lparr>cr_exit := Some code, cr_output := out\<rparr>) handled"
    using w exits(2) by (cases "cr_stage r") (simp_all add: watch_at_def)
  then show ?case using exits by (auto simp: run_ok_serving watch_ok_def all_watchers_ok_def)
next
  case (watched r)
  then show ?case by (simp add: run_ok_turn del: serving.simps)
next
  case (connects r i)
  then obtain handled where w: "watch_at loads decode r handled" by (auto simp: run_ok_serving watch_ok_def simp del: serving.simps)
  have "watch_at loads decode (r\<lparr>cr_watchers := ws\<rparr>) handled" for ws using w by (simp add: watch_at_def)
  moreover have "i \<notin> set (dict_keys (cr_watchers r))" using connects(2) by (simp add: set_dict_keys domIff)
  ultimately show ?case using connects watcher_ok_new
    by (auto simp: run_ok_serving watch_ok_def all_watchers_ok_def dict_keys_def)
next
  case (sends r i w e w')
  then have "watcher_ok (cr_backlog r) w"
    by (auto simp: run_ok_serving all_watchers_ok_def simp del: serving.simps dest: map_of_SomeD)
  from watcher_ok_sends [OF this sends(3,4)] show ?case using sends by (intro run_ok_set) auto
next
  case (breaks r i w)
  then have "watcher_ok (cr_backlog r) w"
    by (auto simp: run_ok_serving all_watchers_ok_def simp del: serving.simps dest: map_of_SomeD)
  then show ?case using breaks by (intro run_ok_set watcher_ok_mode) auto
next
  case (leaves r i w)
  then have "watcher_ok (cr_backlog r) w"
    by (auto simp: run_ok_serving all_watchers_ok_def simp del: serving.simps dest: map_of_SomeD)
  then show ?case using leaves by (intro run_ok_set watcher_ok_mode) auto
qed

lemma run_ok_new: "run_ok loads decode (new_child i)"
proof -
  have "watch_at loads decode (new_child i) []"
    by (simp add: watch_at_def new_child_def fresh_tail_def complete_lines_def caught_up_def)
  then show ?thesis by (auto simp: run_ok_def new_child_def watch_ok_def)
qed

interpretation pushing: invariant "\<lambda>r. \<exists>i. r = new_child i" "run_step loads decode" "run_ok loads decode" for loads decode
  by unfold_locales (blast intro: run_ok_new run_ok_step)+

section \<open>What a monitor's exit status says\<close>

definition passed_line :: "(string \<Rightarrow> json option) \<Rightarrow> string \<Rightarrow> bool" where
  "passed_line loads l =
     (case loads l of
        Some (JObj event) \<Rightarrow> is_verdict event \<and> (case data_get event ''passed'' of Inr p \<Rightarrow> truthy p | Inl _ \<Rightarrow> False)
      | _ \<Rightarrow> False)"

lemma channel_event_cases:
  assumes "channel_event event i = Inr (Some (content, meta))"
  shows "map_of meta ''event'' \<in> {Some ''paused'', Some ''progress'', Some ''failed''} \<or>
    map_of meta ''event'' = Some ''finished'' \<and> is_verdict event \<and>
    (\<exists>p. data_get event ''passed'' = Inr p \<and> map_of meta ''passed'' = Some (if truthy p then ''true'' else ''false''))"
  using assms
  by (auto simp: channel_event_def phase_ended_def run_ended_def is_verdict_def Let_def and_then_Inr
      split: if_splits option.splits)

lemma in_said_of:
  "e \<in> set (said_of loads i l) \<longleftrightarrow> (\<exists>event content meta. loads l = Some (JObj event) \<and>
     channel_event event i = Inr (Some (content, meta)) \<and> e = meta @ [(''text'', content)])"
  by (auto simp: said_of_def split: option.split json.split sum.split prod.split) metis

text \<open>A message whose event is \<open>finished\<close> tells the verdict of its line.\<close>

lemma said_terminal:
  assumes "e \<in> set (said_of loads i l)" and "is_terminal e"
  shows "verdict_line loads l \<and> map_of e ''event'' = Some ''finished'' \<and>
    (map_of e ''passed'' = Some ''true'' \<longleftrightarrow> passed_line loads l)"
proof -
  obtain event content meta where l: "loads l = Some (JObj event)" and
    c: "channel_event event i = Inr (Some (content, meta))" and e: "e = meta @ [(''text'', content)]"
    using assms(1) by (auto simp: in_said_of)
  have ev: "map_of e ''event'' = map_of meta ''event''" "map_of e ''passed'' = map_of meta ''passed''"
    by (simp_all add: e map_add_def split: option.splits)
  from channel_event_cases [OF c] assms(2) obtain p where "map_of meta ''event'' = Some ''finished''"
    "is_verdict event" "data_get event ''passed'' = Inr p" "map_of meta ''passed'' = Some (if truthy p then ''true'' else ''false'')"
    unfolding is_terminal_def ev by auto
  with l ev show ?thesis by (simp add: verdict_line_def passed_line_def)
qed

definition message_json :: "run_message \<Rightarrow> json" where
  "message_json e = JObj (map (\<lambda>(k, v). (k, JStr v)) e)"

lemma jget_message: "jget (map (\<lambda>(k, v). (k, JStr v)) e) k = (case map_of e k of None \<Rightarrow> JNull | Some v \<Rightarrow> JStr v)"
  by (induction e) (auto simp: jget_def dict_get_def)

lemma status_message:
  "monitor_status (map (\<lambda>(k, v). (k, JStr v)) e) =
     (if map_of e ''event'' = Some ''finished'' then Some (if map_of e ''passed'' = Some ''true'' then 0 else 1)
      else if map_of e ''event'' = Some ''exited'' then Some 2 else None)"
  by (simp add: monitor_status_def jget_message split: option.splits)

lemma split_on_lines: "\<forall>l\<in>set ls. LF \<notin> set l \<Longrightarrow> split_on LF (concat (map (\<lambda>l. l @ [LF]) ls)) = ls @ [[]]"
  by (induction ls) (simp_all add: split_on_append_field split_on_no_sep split_on_append)

text \<open>What \<open>_monitor\<close> writes for the messages it sent.\<close>

definition stream_of :: "(json \<Rightarrow> string) \<Rightarrow> run_message list \<Rightarrow> string" where
  "stream_of dumps es = concat (map (\<lambda>e. dumps (message_json e) @ [LF]) es)"

lemma follow_messages:
  assumes "\<forall>e\<in>set (es @ [e0]). loads (dumps (message_json e)) = Some (message_json e)"
    and "\<not> list_ex is_terminal es" and "is_terminal e0"
  shows "follow_lines loads dumps j (map (\<lambda>e. dumps (message_json e)) (es @ [e0])) =
    (map (\<lambda>e. monitor_line dumps (map (\<lambda>(k, v). (k, JStr v)) e) j) (es @ [e0]),
     Some (Exit (the (monitor_status (map (\<lambda>(k, v). (k, JStr v)) e0)))))"
  using assms
proof (induction es)
  case Nil
  then show ?case by (auto simp: message_json_def status_message is_terminal_def)
next
  case (Cons e es)
  then have "monitor_status (map (\<lambda>(k, v). (k, JStr v)) e) = None"
    by (auto simp: status_message is_terminal_def)
  with Cons show ?case by (simp add: message_json_def)
qed

section \<open>Properties\<close>

abbreviation fresh_run :: "child_run \<Rightarrow> bool" where
  "fresh_run r \<equiv> \<exists>i. r = new_child i"

lemma pushed_file_lines:
  assumes "run_ok loads decode r" and "serving r"
  shows "\<exists>n. cr_backlog r = concat (map (said_of loads (cr_id r)) (take n (complete_lines decode (cr_file r)))) @
      last_words (cr_stage r) (cr_exit r)
        (\<exists>l\<in>set (take n (complete_lines decode (cr_file r))). verdict_line loads l) (cr_id r) (cr_output r)"
proof -
  from assms obtain handled where w: "watch_at loads decode r handled"
    by (auto simp: run_ok_serving watch_ok_def simp del: serving.simps)
  let ?off = "tl_offset (cr_tail r)"
  have "complete_lines decode (cr_file r) = complete_lines decode (take ?off (cr_file r) @ drop ?off (cr_file r))" by simp
  then have "prefix (complete_lines decode (take ?off (cr_file r))) (complete_lines decode (cr_file r))"
    using journal_split_append [of decode "take ?off (cr_file r)" "drop ?off (cr_file r)"]
    by (auto simp: complete_lines_def split: prod.splits)
  with w have "prefix handled (complete_lines decode (cr_file r))"
    unfolding watch_at_def by (metis append_assoc prefix_def)
  then have "take (length handled) (complete_lines decode (cr_file r)) = handled" by (auto simp: prefix_def)
  with w show ?thesis by (intro exI [of _ "length handled"]) (simp add: watch_at_def)
qed

text \<open>
  C15: what a run's watchers are told is what its file of events says. However writing, following and
  watching interleave, the messages pushed are those of the first complete lines of the file, in
  order and each once, with one more for a run that ended and had no verdict among them; and
  every monitor that is served has been sent the first of these messages, whenever it connected,
  and has the others before it.
\<close>

theorem pushed_is_file:
  assumes "reach fresh_run (run_step loads decode) r" and "serving r"
  shows "(\<exists>n. cr_backlog r = concat (map (said_of loads (cr_id r)) (take n (complete_lines decode (cr_file r)))) @
      last_words (cr_stage r) (cr_exit r)
        (\<exists>l\<in>set (take n (complete_lines decode (cr_file r))). verdict_line loads l) (cr_id r) (cr_output r)) \<and>
    (\<forall>i w. map_of (cr_watchers r) i = Some w \<longrightarrow> prefix (wa_sent w) (cr_backlog r) \<and>
      (wa_mode w = Serving \<longrightarrow> wa_sent w @ wa_todo w @ wa_queue w = cr_backlog r))"
proof -
  have ok: "run_ok loads decode r" using assms(1) by (rule pushing.reach_good)
  have "watcher_ok (cr_backlog r) w" if "map_of (cr_watchers r) i = Some w" for i w
    using ok assms(2) that by (auto simp: run_ok_serving all_watchers_ok_def simp del: serving.simps dest: map_of_SomeD)
  with pushed_file_lines [OF ok assms(2)] show ?thesis unfolding watcher_ok_def by blast
qed


text \<open>A first look at the file finds nothing; then the child writes all it has to say.\<close>

lemma tail_read_nothing: "tail_read decode (Some 0) [] fresh_tail = ([], fresh_tail)"
  by (simp add: tail_read_def fresh_tail_def)

lemma tail_read_first: "tail_read decode (Some (length bytes)) bytes fresh_tail =
    (complete_lines decode bytes, \<lparr>tl_offset = length bytes, tl_rest = snd (journal_split decode bytes)\<rparr>)"
  using tail_read_grown [OF caught_up_fresh, of decode bytes]
  by (simp add: complete_lines_def fresh_tail_def split: prod.splits)

lemma reach_watched:
  "reach fresh_run (run_step loads decode) r \<Longrightarrow> serving r \<Longrightarrow> reach fresh_run (run_step loads decode) (watch_turn loads decode r)"
  by (blast intro: reach_step watched)

definition lost :: "string \<Rightarrow> string \<Rightarrow> int \<Rightarrow> child_run" where
  "lost i bytes code =
     (new_child i)\<lparr>cr_stage := At_lines [], cr_file := bytes, cr_exit := Some code, cr_output := []\<rparr>"

lemma lost_reached: "reach fresh_run (run_step loads decode) (lost i bytes code)"
proof -
  let ?r0 = "new_child i" and ?r1 = "(new_child i)\<lparr>cr_stage := At_lines []\<rparr>"
  have "reach fresh_run (run_step loads decode) ?r0" by (rule reach_start) blast
  then have "reach fresh_run (run_step loads decode) (watch_turn loads decode ?r0)"
    by (rule reach_watched) (simp add: new_child_def)
  also have "watch_turn loads decode ?r0 = ?r1"
    by (simp add: watch_turn_def new_child_def tail_read_nothing)
  finally have "reach fresh_run (run_step loads decode) (?r1\<lparr>cr_file := cr_file ?r1 @ bytes\<rparr>)"
    by (rule reach_step) (rule writes, simp_all add: new_child_def)
  then have "reach fresh_run (run_step loads decode) ((?r1\<lparr>cr_file := cr_file ?r1 @ bytes\<rparr>)\<lparr>cr_exit := Some code, cr_output := []\<rparr>)"
    by (rule reach_step) (rule exits, simp_all add: new_child_def)
  then show ?thesis by (simp add: lost_def new_child_def)
qed

text \<open>
  C12: a verdict can be lost. The exit code is looked at after the file was read, so a run that writes
  its last lines and exits in between is reported as having exited without a verdict, while its
  file of events says that it finished; nothing reads the file again.
\<close>

theorem verdict_lost:
  assumes "\<exists>l\<in>set (complete_lines decode bytes). verdict_line loads l"
  shows "\<exists>r. reach fresh_run (run_step loads decode) r \<and> cr_stage r = Watch_over \<and>
    (\<exists>l\<in>set (complete_lines decode (cr_file r)). verdict_line loads l) \<and>
    cr_backlog r = [exit_meta i @ [(''text'', exit_text 0 [])]]"
proof -
  let ?r = "watch_turn loads decode (lost i bytes 0)"
  have "reach fresh_run (run_step loads decode) ?r"
    using lost_reached by (rule reach_watched) (simp add: lost_def)
  moreover have "cr_stage ?r = Watch_over" "cr_file ?r = bytes" "cr_backlog ?r = [exit_meta i @ [(''text'', exit_text 0 [])]]"
    by (simp_all add: watch_turn_def lost_def new_child_def push_message_def)
  ultimately show ?thesis using assms by metis
qed

text \<open>A run whose file has been read, with a monitor that connected before anything was pushed.\<close>

definition fresh_watcher :: watcher where
  "fresh_watcher = \<lparr>wa_todo = [], wa_queue = [], wa_sent = [], wa_mode = Serving\<rparr>"

definition read_run :: "(string \<Rightarrow> string) \<Rightarrow> string \<Rightarrow> string \<Rightarrow> child_run" where
  "read_run decode i bytes =
     (new_child i)\<lparr>cr_file := bytes, cr_tail := \<lparr>tl_offset = length bytes, tl_rest = snd (journal_split decode bytes)\<rparr>,
       cr_stage := At_lines (complete_lines decode bytes), cr_watchers := [(0, fresh_watcher)]\<rparr>"

lemma read_run_reached: "reach fresh_run (run_step loads decode) (read_run decode i bytes)"
proof -
  let ?step = "run_step loads decode" and ?r = "(new_child i)\<lparr>cr_file := bytes\<rparr>"
  have "reach fresh_run ?step (new_child i)" by (rule reach_start) blast
  then have "reach fresh_run ?step ((new_child i)\<lparr>cr_file := cr_file (new_child i) @ bytes\<rparr>)"
    by (rule reach_step) (rule writes, simp_all add: new_child_def)
  then have "reach fresh_run ?step ?r" by (simp add: new_child_def)
  then have "reach fresh_run ?step (watch_turn loads decode ?r)"
    by (rule reach_watched) (simp add: new_child_def)
  then show ?thesis
    by (rule reach_step) (use connects [of "watch_turn loads decode ?r" 0 loads decode] tail_read_first [of decode bytes]
      in \<open>simp add: watch_turn_def new_child_def read_run_def fresh_watcher_def\<close>)
qed

lemma handle_said:
  assumes "loads l = Some (JObj event)" and "channel_event event (cr_id r) = Inr (Some (content, meta))"
  shows "handle_line loads l r = push_message content meta (if is_verdict event then r\<lparr>cr_finished := True\<rparr> else r)"
  using assms by (simp add: handle_line_def)

text \<open>
  A monitor that leaves can take the server with it: between the failed send and the end of \<open>_monitor\<close>
  its stream is still among the watchers while its receiving end is closed, and the next push raises.
\<close>

lemma leaving_monitor_raises:
  assumes "complete_lines decode bytes = [a, b]" and "said_of loads i a = [x]" and "said_of loads i b = [y]"
  shows "\<exists>r. reach fresh_run (run_step loads decode) r \<and> cr_stage r = Watch_raised ''BrokenResourceError''"
proof -
  let ?step = "run_step loads decode"
  define r1 where "r1 = read_run decode i bytes"
  obtain ea ca ma where a: "loads a = Some (JObj ea)" "channel_event ea i = Inr (Some (ca, ma))"
    using assms(2) in_said_of [of x loads i a] by auto
  obtain eb cb mb where b: "loads b = Some (JObj eb)" "channel_event eb i = Inr (Some (cb, mb))"
    using assms(3) in_said_of [of y loads i b] by auto
  define r2 where "r2 = watch_turn loads decode r1"
  have r2: "reach fresh_run ?step r2" unfolding r2_def r1_def
    by (rule reach_watched [OF read_run_reached]) (simp add: read_run_def)
  define w2 where "w2 = fresh_watcher\<lparr>wa_queue := [ma @ [(''text'', ca)]]\<rparr>"
  have f2: "cr_stage r2 = At_lines [b]" "cr_watchers r2 = [(0, w2)]" "cr_id r2 = i"
    using a assms(1)
    by (simp_all add: r2_def watch_turn_def r1_def read_run_def handle_said push_message_def Let_def w2_def
        fresh_watcher_def new_child_def)
  define r3 where "r3 = set_watcher 0 (w2\<lparr>wa_mode := Closing\<rparr>) r2"
  have "reach fresh_run ?step r3" unfolding r3_def
    by (rule reach_step [OF r2], rule breaks)
      (use f2 in \<open>simp_all add: w2_def fresh_watcher_def next_message_def\<close>)
  moreover have f3: "cr_stage r3 = At_lines [b]" "cr_watchers r3 = [(0, w2\<lparr>wa_mode := Closing\<rparr>)]" "cr_id r3 = i"
    using f2 by (simp_all add: r3_def set_watcher_def)
  ultimately have "reach fresh_run ?step (watch_turn loads decode r3)"
    by (intro reach_watched) simp_all
  moreover have "cr_stage (watch_turn loads decode r3) = Watch_raised ''BrokenResourceError''"
    using f3 b by (simp add: watch_turn_def handle_said push_message_def Let_def w2_def)
  ultimately show ?thesis by blast
qed

text \<open>A run whose one line says that it passed, and a monitor that was told.\<close>

definition passed_event :: jdict where
  "passed_event = [(''kind'', JStr ''run_finished''), (''data'', JObj [(''passed'', JBool True)])]"

definition one_event :: "string \<Rightarrow> json option" where
  "one_event s = (if s = ''v'' then Some (JObj passed_event) else None)"

definition passed_message :: run_message where
  "passed_message = [(''run'', ''r''), (''event'', ''finished''), (''passed'', ''true''), (''text'', ''run passed: '')]"

lemma one_line: "complete_lines id (''v'' @ [LF]) = [''v'']"
  by (simp add: complete_lines_def journal_split_def)

lemma passed_event_said: "channel_event passed_event ''r'' = Inr (Some (''run passed: '', butlast passed_message))"
  by (simp add: channel_event_def passed_event_def run_ended_def data_get_def event_data_def py_or_def jget_def
      dict_get_def states_summary_def passed_message_def)

lemma passed_event_facts: "one_event ''v'' = Some (JObj passed_event)" "is_verdict passed_event"
    "butlast passed_message @ [(''text'', ''run passed: '')] = passed_message" "is_terminal passed_message"
  by (simp_all add: one_event_def is_verdict_def passed_event_def jget_def dict_get_def passed_message_def is_terminal_def)

definition pushed_run :: child_run where
  "pushed_run = (read_run id ''r'' (''v'' @ [LF]))\<lparr>cr_stage := At_lines [], cr_finished := True,
     cr_backlog := [passed_message], cr_watchers := [(0, fresh_watcher\<lparr>wa_queue := [passed_message]\<rparr>)],
     cr_channel := [(''run passed: '', butlast passed_message)]\<rparr>"

lemma pushed_run_turn: "watch_turn one_event id (read_run id ''r'' (''v'' @ [LF])) = pushed_run"
proof -
  have "cr_stage (read_run id ''r'' (''v'' @ [LF])) = At_lines [''v'']" using one_line by (simp add: read_run_def)
  moreover have "deliver passed_message [(0, fresh_watcher)] = (True, [(0, fresh_watcher\<lparr>wa_queue := [passed_message]\<rparr>)])"
    by (simp add: fresh_watcher_def)
  ultimately show ?thesis
    by (simp add: watch_turn_def handle_said [where loads = one_event and l = "''v''" and event = passed_event] passed_event_said passed_event_facts
        read_run_def new_child_def push_message_def Let_def pushed_run_def)
qed

definition told_run :: child_run where
  "told_run = set_watcher 0 (fresh_watcher\<lparr>wa_sent := [passed_message], wa_mode := Closing\<rparr>) pushed_run"

lemma told_run_fields:
  "cr_watchers told_run = [(0, fresh_watcher\<lparr>wa_sent := [passed_message], wa_mode := Closing\<rparr>)]"
  "cr_file told_run = ''v'' @ [LF]" "cr_stage told_run = At_lines []" "cr_id told_run = ''r''" "cr_exit told_run = None"
  "cr_backlog told_run = [passed_message]"
  by (simp_all add: told_run_def pushed_run_def set_watcher_def read_run_def new_child_def)

lemma told_run_reached: "reach fresh_run (run_step one_event id) told_run"
proof -
  let ?w = "fresh_watcher\<lparr>wa_queue := [passed_message]\<rparr>" and ?w' = "fresh_watcher\<lparr>wa_sent := [passed_message]\<rparr>"
  have "reach fresh_run (run_step one_event id) pushed_run"
    unfolding pushed_run_turn [symmetric] by (rule reach_watched [OF read_run_reached]) (simp add: read_run_def)
  moreover have "run_step one_event id pushed_run
      (set_watcher 0 (if is_terminal passed_message then ?w'\<lparr>wa_mode := Closing\<rparr> else ?w') pushed_run)"
    by (rule sends [of _ _ ?w]) (simp_all add: pushed_run_def next_message_def fresh_watcher_def)
  ultimately show ?thesis
    unfolding told_run_def by (simp add: reach_step passed_event_facts(4))
qed

theorem pushed_is_file_witness:
  "prefix [passed_message] (cr_backlog told_run)"
proof -
  have "serving told_run" by (simp add: told_run_fields)
  from pushed_is_file [OF told_run_reached this] show ?thesis
    by (simp add: told_run_fields fresh_watcher_def)
qed

definition one_reads :: "string \<Rightarrow> json option" where
  "one_reads s = (if s = ''m'' then Some (message_json passed_message) else None)"


theorem verdict_lost_witness:
  "\<exists>r. reach fresh_run (run_step one_event id) r \<and> cr_stage r = Watch_over \<and>
    cr_backlog r = [exit_meta ''r'' @ [(''text'', exit_text 0 [])]]"
proof -
  have "\<exists>l\<in>set (complete_lines id (''v'' @ [LF])). verdict_line one_event l"
    using one_line by (simp add: verdict_line_def one_event_def is_verdict_def passed_event_def jget_def dict_get_def)
  from verdict_lost [OF this, of "''r''"] show ?thesis by blast
qed

end
