(* ===== verification/Launcher.thy ===== *)
theory Launcher
  imports Container Machine
begin

text \<open>
  \<^verbatim>\<open>src/pkgs/uml-runner/uml_runner/container.py\<close>, second part: what the probe tries, the tap behind a guest's
  \<open>vec1\<close>, pasta behind its \<open>vec0\<close>, and the modes of the launcher. What a child process, an ioctl or the kernel
  answers is an argument.
\<close>

section \<open>What the probe tries\<close>

definition is_named :: "string \<Rightarrow> exn \<Rightarrow> bool" where
  "is_named n e = (case e of Exn k _ \<Rightarrow> k = n | Cancelled \<Rightarrow> False)"

text \<open>The probe file is gone afterwards, however the attempt ended.\<close>

definition setuid_allowed :: "exn option \<Rightarrow> nat \<Rightarrow> exn + bool" where
  "setuid_allowed chmod_raises mode =
     (case chmod_raises of
        Some e \<Rightarrow> if is_named ''PermissionError'' e then Inr False else Inl e
      | None \<Rightarrow> Inr (mode div 2048 mod 2 = 1))"

text \<open>\<open>_which\<close>, with \<open>os.path.join\<close> of a name that is not absolute.\<close>

definition join_name :: "string \<Rightarrow> string \<Rightarrow> string" where
  "join_name d name = (if d = [] \<or> last d = CHR ''/'' then d @ name else d @ ''/'' @ name)"

definition which :: "(string \<Rightarrow> bool) \<Rightarrow> string \<Rightarrow> string \<Rightarrow> string option" where
  "which executable path name = find executable (map (\<lambda>d. join_name d name) (split_on (CHR '':'') path))"

record child =
  ch_code :: int
  ch_stdout :: string
  ch_stderr :: string

definition tap_fails :: "child \<Rightarrow> string option" where
  "tap_fails c =
     (if ch_code c = 0 then None
      else (case splitlines (strip (ch_stderr c)) of [] \<Rightarrow> Some ''failed'' | l # ls \<Rightarrow> Some (last (l # ls))))"

definition cgroup_works :: "child \<Rightarrow> bool" where
  "cgroup_works c \<longleftrightarrow> ch_code c = 0"

definition map_command :: "string \<Rightarrow> nat \<Rightarrow> int \<Rightarrow> id_range \<Rightarrow> string list" where
  "map_command path pid host extra =
     [path, show_nat pid, ''0'', show_int host, ''1'', ''1'', show_int (ir_start extra), ''1'']"

definition try_map ::
  "(string \<Rightarrow> bool) \<Rightarrow> string \<Rightarrow> (string list \<Rightarrow> child) \<Rightarrow> nat \<Rightarrow> string \<Rightarrow> int \<Rightarrow> id_range \<Rightarrow> string option" where
  "try_map executable path spawned pid helper host extra =
     (case which executable path helper of
        None \<Rightarrow> Some ''not on PATH''
      | Some p \<Rightarrow>
         (let c = spawned (map_command p pid host extra) in
          if ch_code c \<noteq> 0
          then Some (p @ '' failed: '' @ strip (if ch_stderr c \<noteq> [] then ch_stderr c else ch_stdout c))
          else None))"

section \<open>The uplink\<close>

definition shares_userns :: "(string \<Rightarrow> string) \<Rightarrow> nat \<Rightarrow> bool" where
  "shares_userns readlink pid \<longleftrightarrow> readlink (''/proc/'' @ show_nat pid @ ''/ns/user'') = readlink ''/proc/self/ns/user''"

text \<open>\<open>_init_pid\<close>: the exit code and the output of \<open>crun state\<close>.\<close>

definition init_pid :: "(string \<Rightarrow> json option) \<Rightarrow> child \<Rightarrow> exn + json" where
  "init_pid loads c =
     (if ch_code c \<noteq> 0 then Inl (Exn ''CalledProcessError'' [])
      else (case loads (ch_stdout c) of
          None \<Rightarrow> Inl (Exn ''JSONDecodeError'' [])
        | Some v \<Rightarrow> (case obj_get v ''pid'' of None \<Rightarrow> Inl (Exn ''KeyError'' (py_repr ''pid'')) | Some p \<Rightarrow> Inr p)))"

definition uplink_command :: "(string \<Rightarrow> string) \<Rightarrow> string list \<Rightarrow> nat \<Rightarrow> string list" where
  "uplink_command readlink pasta pid =
     pasta @ (if shares_userns readlink pid then [''--netns=/proc/'' @ show_nat pid @ ''/ns/net''] else [show_nat pid])"

text \<open>A moment after its start: its exit code, if it has one already, and the log it has written.\<close>

definition uplink :: "nat \<Rightarrow> int option \<Rightarrow> string \<Rightarrow> exn + nat" where
  "uplink proc ended written =
     (case ended of
        None \<Rightarrow> Inr proc
      | Some code \<Rightarrow> Inl (Exn ''RuntimeError'' (''pasta exited ('' @ show_int code @ '') instead of serving the uplink:'' @ [LF] @
          join [LF] (last_n 20 (splitlines written)))))"

section \<open>The tap\<close>

definition TUNSETIFF :: nat where "TUNSETIFF = 0x400454CA"
definition SIOCSIFMTU :: nat where "SIOCSIFMTU = 0x8922"
definition SIOCSIFHWADDR :: nat where "SIOCSIFHWADDR = 0x8924"
definition IFF_TAP :: nat where "IFF_TAP = 0x0002"
definition IFF_NO_PI :: nat where "IFF_NO_PI = 0x1000"
definition ARPHRD_ETHER :: nat where "ARPHRD_ETHER = 1"

text \<open>\<open>struct.pack\<close> in the byte order and with the alignment of the hosts this runs on.\<close>

definition le_bytes :: "nat \<Rightarrow> nat \<Rightarrow> string" where
  "le_bytes n x = map (\<lambda>i. char_of (x div 256 ^ i mod 256)) [0 ..< n]"

definition padded :: "nat \<Rightarrow> string \<Rightarrow> string" where
  "padded n s = take n s @ replicate (n - length s) (CHR 0x00)"

definition ifreq :: "string \<Rightarrow> string \<Rightarrow> nat \<Rightarrow> string" where
  "ifreq name field pad = padded 16 name @ field @ replicate pad (CHR 0x00)"

text \<open>\<open>bytes.fromhex\<close>, of a text without white space; \<^const>\<open>None\<close> for \<open>ValueError\<close>.\<close>

definition hex_nibble :: "char \<Rightarrow> nat option" where
  "hex_nibble c =
     (let n = of_char c :: nat in
      if 48 \<le> n \<and> n \<le> 57 then Some (n - 48)
      else if 97 \<le> n \<and> n \<le> 102 then Some (n - 87)
      else if 65 \<le> n \<and> n \<le> 70 then Some (n - 55)
      else None)"

fun from_hex :: "string \<Rightarrow> string option" where
  "from_hex [] = Some []"
| "from_hex [c] = None"
| "from_hex (c # d # cs) =
     (case (hex_nibble c, hex_nibble d, from_hex cs) of
        (Some a, Some b, Some bs) \<Rightarrow> Some (char_of (16 * a + b) # bs)
      | _ \<Rightarrow> None)"

text \<open>The \<open>i\<close> of the second structure is a signed word of 32 bits.
The three ioctls of \<open>_open_tap\<close>: whether on the tap or on a socket, the request, and the structure passed.\<close>

definition open_tap :: "string \<Rightarrow> int \<Rightarrow> string \<Rightarrow> exn + (bool \<times> nat \<times> string) list" where
  "open_tap name mtu mac =
     (if mtu < - (2 ^ 31) \<or> 2 ^ 31 \<le> mtu then Inl (Exn ''struct.error'' [])
      else case from_hex (replace_char (CHR '':'') [] mac) of
        None \<Rightarrow> Inl (Exn ''ValueError'' [])
      | Some address \<Rightarrow> Inr
         [(True, TUNSETIFF, ifreq name (le_bytes 2 (IFF_TAP + IFF_NO_PI)) 22),
          (False, SIOCSIFMTU, ifreq name (le_bytes 4 (nat (mtu mod 2 ^ 32))) 20),
          (False, SIOCSIFHWADDR, ifreq name (le_bytes 2 ARPHRD_ETHER @ padded 6 address) 16)])"

text \<open>The namespaces the relay joins, in their order.\<close>

definition joins :: "(string \<Rightarrow> string) \<Rightarrow> nat \<Rightarrow> string list" where
  "joins readlink pid =
     map (\<lambda>kind. ''/proc/'' @ show_nat pid @ ''/ns/'' @ kind) ((if shares_userns readlink pid then [] else [''user'']) @ [''net''])"

definition relay_command :: "string \<Rightarrow> int \<Rightarrow> int \<Rightarrow> int \<Rightarrow> string \<Rightarrow> string list" where
  "relay_command python pid fd mtu mac =
     [python, ''-m'', ''uml_runner.crun_launch'', ''tap'', ''--pid'', show_int pid, ''--fd'', show_int fd,
      ''--mtu'', show_int mtu, ''--mac'', mac]"

section \<open>The cgroup\<close>

definition MS_REC :: nat where "MS_REC = 0x4000"
definition MS_PRIVATE :: nat where "MS_PRIVATE = 2 ^ 18"

text \<open>\<open>_ensure_cgroup2\<close>: the mounts it makes, each with its target, its kind and its flags, and the error of the first that fails.\<close>

definition cgroup_mounts :: "(string \<times> string option \<times> nat) list" where
  "cgroup_mounts = [(''/'', None, MS_REC + MS_PRIVATE), (''/sys/fs/cgroup'', Some ''cgroup2'', 0)]"

fun make_mounts :: "(string \<Rightarrow> bool) \<Rightarrow> (string \<times> string option \<times> nat) list \<Rightarrow> exn option" where
  "make_mounts fails [] = None"
| "make_mounts fails ((target, kind, flags) # ms) =
     (if fails target then Some (Exn ''OSError'' (''mount '' @ target)) else make_mounts fails ms)"

definition ensure_cgroup2 :: "string \<Rightarrow> int \<Rightarrow> exn option \<Rightarrow> (string \<Rightarrow> bool) \<Rightarrow> exn option" where
  "ensure_cgroup2 mountinfo uid unshared fails =
     (if cgroup2_mounted mountinfo \<or> uid \<noteq> 0 then None
      else (case unshared of Some e \<Rightarrow> Some e | None \<Rightarrow> make_mounts fails cgroup_mounts))"

section \<open>The modes\<close>

record crun_run =
  cu_crun :: string
  cu_state :: string
  cu_bundle :: string
  cu_name :: string
  cu_lan_fd :: "int option"
  cu_mtu :: int
  cu_mac :: "string option"
  cu_pasta_log :: "string option"
  cu_pasta :: "string list"

record crun_tap =
  ct_pid :: int
  ct_fd :: int
  ct_mtu :: int
  ct_mac :: string

datatype crun_mode = Mode_run crun_run | Mode_probe bool | Mode_tap crun_tap

definition crun_command :: "crun_run \<Rightarrow> string list" where
  "crun_command a = [cu_crun a, ''--root'', cu_state a, ''--cgroup-manager=disabled'']"

text \<open>What is run to start the guest, to stop it and to forget it.\<close>

definition crun_start :: "crun_run \<Rightarrow> string \<Rightarrow> string list" where
  "crun_start a console = crun_command a @ [''run'', ''--bundle'', cu_bundle a, ''--console-socket'', console, cu_name a]"

definition crun_kill :: "crun_run \<Rightarrow> string list" where
  "crun_kill a = crun_command a @ [''kill'', cu_name a, ''KILL'']"

definition crun_delete :: "crun_run \<Rightarrow> string list" where
  "crun_delete a = crun_command a @ [''delete'', ''--force'', cu_name a]"

definition uplink_args_of :: "crun_run \<Rightarrow> string list" where
  "uplink_args_of a =
     (case cu_pasta_log a of
        None \<Rightarrow> []
      | Some l \<Rightarrow> if l = [] then [] else l # filter (\<lambda>x. x \<noteq> ''--'') (cu_pasta a))"

text \<open>The exit status and what was printed; a raised exception ends it with a traceback. \<open>ioctls\<close> says what joining the
namespaces and the ioctls of the tap raise, \<open>unshared\<close> and \<open>fails\<close> what the mounts do. The relay itself is
\<^const>\<open>tap_relay\<close>, which returns 0.\<close>

definition crun_main ::
  "((bool \<times> nat \<times> string) list \<Rightarrow> exn option) \<Rightarrow> exn option \<Rightarrow> (string \<Rightarrow> bool) \<Rightarrow> string \<Rightarrow> probe_world \<Rightarrow> launch_world \<Rightarrow>
   crun_mode \<Rightarrow> exn + (int \<times> string list)" where
  "crun_main ioctls unshared fails mountinfo pw lw mode =
     (case mode of
        Mode_tap t \<Rightarrow>
          and_then (open_tap ''vec1'' (ct_mtu t) (ct_mac t)) (\<lambda>reqs. case ioctls reqs of Some e \<Rightarrow> Inl e | None \<Rightarrow> Inr (0, []))
      | Mode_probe tun \<Rightarrow>
          (case probe_report pw (Some mountinfo) tun of
             Inl e \<Rightarrow> Inl (Exn e [])
           | Inr (said, code) \<Rightarrow> Inr (int code, said))
      | Mode_run a \<Rightarrow>
          (case ensure_cgroup2 mountinfo (pw_uid pw) unshared fails of
             Some e \<Rightarrow> Inl e
           | None \<Rightarrow>
              (case launcher_run (uplink_args_of a \<noteq> []) (cu_lan_fd a \<noteq> None) lw of
                 (code, st) \<Rightarrow> Inr (code, ln_said st))))"

section \<open>What the kernel is given\<close>

text \<open>Every structure has the size of the kernel's \<open>ifreq\<close>.\<close>

lemma ifreq_size: "length (ifreq name field pad) = 16 + length field + pad"
  by (simp add: ifreq_def padded_def)

lemma open_tap_sizes: "open_tap name mtu mac = Inr reqs \<Longrightarrow> \<forall>(tap, req, arg)\<in>set reqs. length arg = 40"
  by (auto simp: open_tap_def ifreq_size le_bytes_def padded_def split: option.splits if_splits)

lemma open_tap_kinds: "open_tap name mtu mac = Inr reqs \<Longrightarrow> map (\<lambda>(tap, req, arg). req) reqs = [TUNSETIFF, SIOCSIFMTU, SIOCSIFHWADDR]"
  by (auto simp: open_tap_def split: option.splits if_splits)

lemma of_char_digit16: "n < 16 \<Longrightarrow> (of_char (digit n) :: nat) = (if n < 10 then 48 + n else 87 + n)"
  by (simp add: digit_def)

lemma hex_nibble_digit: "n < 16 \<Longrightarrow> hex_nibble (digit n) = Some n"
  by (simp add: hex_nibble_def of_char_digit16)

lemma hex2_digits:
  assumes "n < 256"
  shows "hex2 n = [digit (n div 16), digit (n mod 16)]"
proof (cases "n < 16")
  case True
  then have "show_hex n = [digit n]" by (subst show_hex.simps) simp
  moreover have "digit 0 = CHR ''0''" by code_simp
  ultimately show ?thesis using True by (simp add: hex2_def)
next
  case False
  from assms have d: "n div 16 < 16" by (simp add: less_mult_imp_div_less)
  then have "show_hex (n div 16) = [digit (n div 16)]" by (subst show_hex.simps) simp
  with False have "show_hex n = [digit (n div 16), digit (n mod 16)]" by (subst show_hex.simps) simp
  then show ?thesis by (simp add: hex2_def)
qed

text \<open>The address a guest's tap is given is the one of its specification, byte by byte.\<close>

lemma machine_mac_bytes:
  assumes "nic < 256" and "0 \<le> mp_index m" and "mp_index m < 256"
  shows "from_hex (replace_char (CHR '':'') [] (machine_mac m nic)) =
    Some (map char_of [0x52, 0x54, 0x00, 0x12, nic, nat (mp_index m)])"
proof -
  have i: "nat (mp_index m) < 256" using assms by simp
  have nib: "hex_nibble (digit (k div 16)) = Some (k div 16)" "hex_nibble (digit (k mod 16)) = Some (k mod 16)" if "k < 256" for k
    using that by (simp_all add: hex_nibble_digit less_mult_imp_div_less)
  have colon: "digit k \<noteq> CHR '':''" if "k < 16" for k
    using of_char_digit16 [OF that] by (auto split: if_splits)
  have "replace_char (CHR '':'') [] (machine_mac m nic) =
      ''52540012'' @ [digit (nic div 16), digit (nic mod 16), digit (nat (mp_index m) div 16), digit (nat (mp_index m) mod 16)]"
    using assms(1) i by (simp add: machine_mac_def hex2_digits replace_char_def colon less_mult_imp_div_less)
  moreover have "hex_nibble (CHR ''5'') = Some 5" "hex_nibble (CHR ''2'') = Some 2" "hex_nibble (CHR ''4'') = Some 4"
    "hex_nibble (CHR ''0'') = Some 0" "hex_nibble (CHR ''1'') = Some 1" by (simp_all add: hex_nibble_def)
  ultimately show ?thesis using assms(1) i by (simp add: nib)
qed

lemma ifreq_field: "length f = 2 \<Longrightarrow> length a = 6 \<Longrightarrow> take 6 (drop 18 (ifreq name (f @ a) pad)) = a"
  by (simp add: ifreq_def padded_def)

lemma open_tap_address:
  assumes "nic < 256" and "0 \<le> mp_index m" and "mp_index m < 256" and "- (2 ^ 31) \<le> mtu" and "mtu < 2 ^ 31"
  shows "\<exists>reqs arg. open_tap name mtu (machine_mac m nic) = Inr reqs \<and> (False, SIOCSIFHWADDR, arg) \<in> set reqs \<and>
    take 6 (drop 18 arg) = map char_of [0x52, 0x54, 0x00, 0x12, nic, nat (mp_index m)]"
proof -
  define a where "a = (map char_of [0x52, 0x54, 0x00, 0x12, nic, nat (mp_index m)] :: string)"
  have l: "length (le_bytes 2 ARPHRD_ETHER) = 2" "length (padded 6 a) = 6" "padded 6 a = a" by (simp_all add: le_bytes_def padded_def a_def)
  have o: "open_tap name mtu (machine_mac m nic) = Inr
    [(True, TUNSETIFF, ifreq name (le_bytes 2 (IFF_TAP + IFF_NO_PI)) 22), (False, SIOCSIFMTU, ifreq name (le_bytes 4 (nat (mtu mod 2 ^ 32))) 20),
     (False, SIOCSIFHWADDR, ifreq name (le_bytes 2 ARPHRD_ETHER @ padded 6 a) 16)]"
    using machine_mac_bytes [OF assms(1,2,3)] assms(4,5) by (simp add: open_tap_def a_def)
  show ?thesis unfolding o a_def [symmetric] using ifreq_field [OF l(1,2)] l(3) by (intro exI conjI) (rule refl, auto)
qed

end
