(* ===== verification/Command_Lines.thy ===== *)
theory Command_Lines
  imports Arguments Server Launcher
begin

text \<open>
  The parsers of three programs, and that what one of them writes is what the next one reads:
  \<open>parse\<close> of \<^verbatim>\<open>src/pkgs/uml/uml/cli.py\<close>, \<open>parse\<close> of \<^verbatim>\<open>src/pkgs/uml-eval/uml_eval/cli.py\<close>, and \<open>_parse\<close> of
  \<^verbatim>\<open>src/pkgs/uml-runner/uml_runner/container.py\<close>. A path is the text it was made of.
\<close>

section \<open>Tables\<close>

definition text_opt :: "string \<Rightarrow> string \<Rightarrow> bool \<Rightarrow> opt_arg" where
  "text_opt flag dest need =
     \<lparr>oa_flags = [flag], oa_dest = dest, oa_action = Store To_text, oa_default = A_none, oa_required = need\<rparr>"

definition int_opt :: "string \<Rightarrow> string \<Rightarrow> arg_value \<Rightarrow> bool \<Rightarrow> opt_arg" where
  "int_opt flag dest preset need =
     \<lparr>oa_flags = [flag], oa_dest = dest, oa_action = Store To_int, oa_default = preset, oa_required = need\<rparr>"

definition list_opt :: "string \<Rightarrow> string \<Rightarrow> opt_arg" where
  "list_opt flag dest =
     \<lparr>oa_flags = [flag], oa_dest = dest, oa_action = Append, oa_default = A_texts [], oa_required = False\<rparr>"

definition flag_opt :: "string list \<Rightarrow> string \<Rightarrow> opt_arg" where
  "flag_opt names dest =
     \<lparr>oa_flags = names, oa_dest = dest, oa_action = Store_true, oa_default = A_flag False, oa_required = False\<rparr>"

definition verbose_opt :: opt_arg where
  "verbose_opt = \<lparr>oa_flags = [''--verbose'', ''-v''], oa_dest = ''verbose'', oa_action = Count_up, oa_default = A_count 0,
     oa_required = False\<rparr>"

definition run_grammar :: grammar where
  "run_grammar = \<lparr>gr_opts =
     [text_opt ''--spec'' ''spec'' True, text_opt ''--out'' ''out'' True, list_opt ''--only'' ''only'',
      list_opt ''--break'' ''breaks'', text_opt ''--kernel'' ''kernel'' False,
      flag_opt [''--break-on-failure''] ''break_on_failure'', flag_opt [''--serial''] ''serial'',
      flag_opt [''--offline''] ''offline'', verbose_opt, flag_opt [''--quiet'', ''-q''] ''quiet''],
     gr_pos = []\<rparr>"

definition one_pos :: "string \<Rightarrow> string list option \<Rightarrow> pos_arg" where
  "one_pos dest choices = \<lparr>pa_dest = dest, pa_arity = Exactly_one, pa_default = A_none, pa_choices = choices\<rparr>"

definition ctl_grammar :: grammar where
  "ctl_grammar = \<lparr>gr_opts = [text_opt ''--out'' ''out'' True],
     gr_pos = [one_pos ''op'' (Some (map op_text ops)),
       \<lparr>pa_dest = ''arg'', pa_arity = At_most_one, pa_default = A_text [], pa_choices = None\<rparr>]\<rparr>"

definition monitor_grammar :: grammar where
  "monitor_grammar = \<lparr>gr_opts = [flag_opt [''--json''] ''json''], gr_pos = [one_pos ''target'' None]\<rparr>"

definition uml_commands :: "(string, grammar) dict" where
  "uml_commands =
     [(''run'', run_grammar), (''phases'', \<lparr>gr_opts = [text_opt ''--spec'' ''spec'' True], gr_pos = []\<rparr>),
      (''ctl'', ctl_grammar),
      (''monitor'', monitor_grammar)]"

section \<open>The command line of uml\<close>

definition text_at :: "arg_space \<Rightarrow> string \<Rightarrow> string" where
  "text_at ns k = (case map_of ns k of Some (A_text v) \<Rightarrow> v | _ \<Rightarrow> [])"

definition text_if :: "arg_space \<Rightarrow> string \<Rightarrow> string option" where
  "text_if ns k = (case map_of ns k of Some (A_text v) \<Rightarrow> Some v | _ \<Rightarrow> None)"

definition texts_at :: "arg_space \<Rightarrow> string \<Rightarrow> string list" where
  "texts_at ns k = (case map_of ns k of Some (A_texts vs) \<Rightarrow> vs | _ \<Rightarrow> [])"

definition flag_at :: "arg_space \<Rightarrow> string \<Rightarrow> bool" where
  "flag_at ns k \<longleftrightarrow> map_of ns k = Some (A_flag True)"

definition count_at :: "arg_space \<Rightarrow> string \<Rightarrow> nat" where
  "count_at ns k = (case map_of ns k of Some (A_count n) \<Rightarrow> n | _ \<Rightarrow> 0)"

definition int_if :: "arg_space \<Rightarrow> string \<Rightarrow> int option" where
  "int_if ns k = (case map_of ns k of Some (A_int n) \<Rightarrow> Some n | _ \<Rightarrow> None)"

definition int_at :: "arg_space \<Rightarrow> string \<Rightarrow> int" where
  "int_at ns k = (case int_if ns k of None \<Rightarrow> 0 | Some n \<Rightarrow> n)"

datatype uml_command = Uml_run string run_args | Uml_phases string | Uml_ctl string ctl_args | Uml_monitor string bool

definition run_args_of :: "string list \<Rightarrow> arg_space \<Rightarrow> run_args" where
  "run_args_of extra ns =
     \<lparr>ra_out = text_at ns ''out'', ra_only = texts_at ns ''only'', ra_breaks = texts_at ns ''breaks'',
      ra_kernel = text_if ns ''kernel'', ra_break_on_failure = flag_at ns ''break_on_failure'',
      ra_serial = flag_at ns ''serial'', ra_offline = flag_at ns ''offline'', ra_verbose = count_at ns ''verbose'',
      ra_quiet = flag_at ns ''quiet'', ra_pytest = extra\<rparr>"

definition command_from :: "string list \<Rightarrow> string \<times> arg_space \<Rightarrow> uml_command" where
  "command_from extra t =
     (case t of (c, ns) \<Rightarrow>
       if c = ''run'' then Uml_run (text_at ns ''spec'') (run_args_of extra ns)
       else if c = ''phases'' then Uml_phases (text_at ns ''spec'')
       else if c = ''ctl'' then
         Uml_ctl (text_at ns ''out'')
           \<lparr>ca_op = (case op_of (JStr (text_at ns ''op'')) of Some x \<Rightarrow> x | None \<Rightarrow> STATE),
            ca_arg = text_at ns ''arg'', ca_pytest = extra\<rparr>
       else Uml_monitor (text_at ns ''target'') (flag_at ns ''json''))"

definition uml_parse :: "string list \<Rightarrow> nat + uml_command" where
  "uml_parse argv =
     (case split_dashes argv of (words, extra) \<Rightarrow>
        and_then (parse_commands ''command'' uml_commands words) (\<lambda>t. Inr (command_from extra t)))"

section \<open>The command line of uml-eval\<close>

record eval_request =
  er_command :: string
  er_file :: string
  er_attr :: "string list"
  er_rest :: "string list"

definition eval_grammar :: grammar where
  "eval_grammar =
     \<lparr>gr_opts = [\<lparr>oa_flags = [''--file'', ''-f''], oa_dest = ''file'', oa_action = Store To_text, oa_default = A_text ''.'',
        oa_required = False\<rparr>],
      gr_pos = [one_pos ''command'' (Some [''run'', ''phases'']), one_pos ''attr'' None]\<rparr>"

definition eval_parse :: "string list \<Rightarrow> nat + eval_request" where
  "eval_parse argv =
     (case eval_split argv of (words, rest) \<Rightarrow>
        and_then (parse_known eval_grammar words) (\<lambda>(ns, left).
          (case split_attr (text_at ns ''attr'') of
             Inl e \<Rightarrow> Inl 2
           | Inr path \<Rightarrow> Inr \<lparr>er_command = text_at ns ''command'', er_file = text_at ns ''file'', er_attr = path,
               er_rest = left @ rest\<rparr>)))"

section \<open>The command line of the launcher\<close>

definition crun_run_grammar :: grammar where
  "crun_run_grammar = \<lparr>gr_opts =
     [text_opt ''--crun'' ''crun'' True, text_opt ''--state'' ''state'' True, text_opt ''--bundle'' ''bundle'' True,
      text_opt ''--name'' ''name'' True, int_opt ''--lan-fd'' ''lan_fd'' A_none False, int_opt ''--mtu'' ''mtu'' (A_int 1500) False,
      text_opt ''--mac'' ''mac'' False, text_opt ''--pasta-log'' ''pasta_log'' False],
     gr_pos = [\<lparr>pa_dest = ''pasta'', pa_arity = Remainder, pa_default = A_none, pa_choices = None\<rparr>]\<rparr>"

definition crun_tap_grammar :: grammar where
  "crun_tap_grammar = \<lparr>gr_opts =
     [int_opt ''--pid'' ''pid'' A_none True, int_opt ''--fd'' ''fd'' A_none True, int_opt ''--mtu'' ''mtu'' A_none True,
      text_opt ''--mac'' ''mac'' True], gr_pos = []\<rparr>"

definition crun_commands :: "(string, grammar) dict" where
  "crun_commands =
     [(''run'', crun_run_grammar), (''probe'', \<lparr>gr_opts = [flag_opt [''--tun''] ''tun''], gr_pos = []\<rparr>), (''tap'', crun_tap_grammar)]"

definition crun_parse :: "string list \<Rightarrow> nat + crun_mode" where
  "crun_parse argv =
     and_then (parse_commands ''mode'' crun_commands argv) (\<lambda>(c, ns). Inr
       (if c = ''run'' then Mode_run
          \<lparr>cu_crun = text_at ns ''crun'', cu_state = text_at ns ''state'', cu_bundle = text_at ns ''bundle'',
           cu_name = text_at ns ''name'', cu_lan_fd = int_if ns ''lan_fd'', cu_mtu = int_at ns ''mtu'',
           cu_mac = text_if ns ''mac'', cu_pasta_log = text_if ns ''pasta_log'', cu_pasta = texts_at ns ''pasta''\<rparr>
        else if c = ''probe'' then Mode_probe (flag_at ns ''tun'')
        else Mode_tap \<lparr>ct_pid = int_at ns ''pid'', ct_fd = int_at ns ''fd'', ct_mtu = int_at ns ''mtu'', ct_mac = text_at ns ''mac''\<rparr>))"

section \<open>What the server asks for\<close>

definition asked :: "child_request \<Rightarrow> run_args" where
  "asked q =
     \<lparr>ra_out = rq_out q, ra_only = rq_only q, ra_breaks = rq_breaks q, ra_kernel = rq_kernel q,
      ra_break_on_failure = rq_break_on_failure q, ra_serial = False, ra_offline = rq_offline q, ra_verbose = 0,
      ra_quiet = False, ra_pytest = rq_pytest q\<rparr>"

definition plain_request :: "child_request \<Rightarrow> bool" where
  "plain_request q \<longleftrightarrow> plain (rq_out q) \<and> plain (rq_file q) \<and> plain (opt_str (rq_attr q)) \<and> plain (opt_str (rq_spec q)) \<and>
     plain (opt_str (rq_kernel q)) \<and> list_all plain (rq_breaks q) \<and> list_all plain (rq_only q)"

definition option_words :: "child_request \<Rightarrow> string list" where
  "option_words q =
     [''--out'', rq_out q] @ concat (map (\<lambda>n. [''--break'', n]) (rq_breaks q)) @
     concat (map (\<lambda>n. [''--only'', n]) (rq_only q)) @
     (if rq_break_on_failure q then [''--break-on-failure''] else []) @ (if rq_offline q then [''--offline''] else []) @
     (case rq_kernel q of None \<Rightarrow> [] | Some k \<Rightarrow> [''--kernel'', k])"

definition pytest_words :: "child_request \<Rightarrow> string list" where
  "pytest_words q = (if rq_pytest q = [] then [] else ''--'' # rq_pytest q)"

lemma run_argv_words: "run_argv python q = and_then (run_head python q) (\<lambda>head. Inr (head @ option_words q @ pytest_words q))"
  by (simp add: run_argv_def option_words_def pytest_words_def)

lemma double_dash: "''--'' = [DASH, DASH]"
  by (simp add: DASH_def)

lemma dashes_not_plain: "\<not> plain ''--''"
  by (simp add: plain_def DASH_def)

lemma option_words_no_dashes:
  assumes "plain_request q"
  shows "''--'' \<notin> set (option_words q)"
proof -
  have b: "''--'' \<notin> set (rq_breaks q)" "''--'' \<notin> set (rq_only q)" "rq_out q \<noteq> ''--''" "rq_kernel q \<noteq> Some ''--''"
    using assms dashes_not_plain by (auto simp: plain_request_def list_all_iff opt_str_def)
  have n: "''--'' \<notin> set (concat (map (\<lambda>n. [f, n]) names))" if "''--'' \<notin> set names" "f \<noteq> ''--''" for f names
    using that by auto
  have "''--'' \<notin> set (case rq_kernel q of None \<Rightarrow> [] | Some k \<Rightarrow> [''--kernel'', k])"
    using b(4) by (simp split: option.split)
  then show ?thesis unfolding option_words_def using n [OF b(1), of "''--break''"] n [OF b(2), of "''--only''"] b(3) by simp
qed

lemma split_dashes_words: "''--'' \<notin> set ws \<Longrightarrow> split_dashes (ws @ pytest_words q) = (ws, rq_pytest q)"
  by (induction ws) (auto simp: pytest_words_def)

lemma eval_split_words: "''--'' \<notin> set ws \<Longrightarrow> eval_split (ws @ pytest_words q) = (ws, pytest_words q)"
  by (induction ws) (auto simp: pytest_words_def)

text \<open>The options of \<open>uml run\<close>, each by its flag.\<close>

lemma run_flags:
  "classify run_grammar ''--spec'' = Is_opt (text_opt ''--spec'' ''spec'' True) False None"
  "classify run_grammar ''--out'' = Is_opt (text_opt ''--out'' ''out'' True) False None"
  "classify run_grammar ''--only'' = Is_opt (list_opt ''--only'' ''only'') False None"
  "classify run_grammar ''--break'' = Is_opt (list_opt ''--break'' ''breaks'') False None"
  "classify run_grammar ''--kernel'' = Is_opt (text_opt ''--kernel'' ''kernel'' False) False None"
  "classify run_grammar ''--break-on-failure'' = Is_opt (flag_opt [''--break-on-failure''] ''break_on_failure'') False None"
  "classify run_grammar ''--offline'' = Is_opt (flag_opt [''--offline''] ''offline'') False None"
  by code_simp+

text \<open>uml-eval knows none of them.\<close>

lemma eval_flags:
  "classify eval_grammar ''--file'' = Is_opt (hd (gr_opts eval_grammar)) False None"
  "classify eval_grammar ''--out'' = Is_unknown"
  "classify eval_grammar ''--only'' = Is_unknown"
  "classify eval_grammar ''--break'' = Is_unknown"
  "classify eval_grammar ''--kernel'' = Is_unknown"
  "classify eval_grammar ''--break-on-failure'' = Is_unknown"
  "classify eval_grammar ''--offline'' = Is_unknown"
  by code_simp+

definition run_space :: "string option \<Rightarrow> string option \<Rightarrow> string list \<Rightarrow> string list \<Rightarrow> string option \<Rightarrow> bool \<Rightarrow> bool \<Rightarrow> arg_space" where
  "run_space spec_path out only breaks boots bof off =
     (let text = (\<lambda>v. case v of None \<Rightarrow> A_none | Some x \<Rightarrow> A_text x) in
      [(''spec'', text spec_path), (''out'', text out), (''only'', A_texts only), (''breaks'', A_texts breaks),
       (''kernel'', text boots), (''break_on_failure'', A_flag bof), (''serial'', A_flag False), (''offline'', A_flag off),
       (''verbose'', A_count 0), (''quiet'', A_flag False)])"

lemma run_defaults: "defaults run_grammar = run_space None None [] [] None False False"
  by code_simp

lemma take_text:
  "take_opt (text_opt f d need, Some v) ns = Inr (AList.update d (A_text v) ns)" "takes_value (text_opt f d need)"
  by (simp_all add: take_opt_def text_opt_def given_def takes_value_def)

lemma take_flag:
  "take_opt (flag_opt fs d, None) ns = Inr (AList.update d (A_flag True) ns)" "\<not> takes_value (flag_opt fs d)"
  by (simp_all add: take_opt_def flag_opt_def takes_value_def)

lemma list_opt_fields: "oa_action (list_opt f d) = Append" "oa_dest (list_opt f d) = d"
  by (simp_all add: list_opt_def)

lemma run_space_updates:
  "AList.update ''spec'' (A_text v) (run_space s out only breaks boots bof off) = run_space (Some v) out only breaks boots bof off"
  "AList.update ''out'' (A_text v) (run_space s out only breaks boots bof off) = run_space s (Some v) only breaks boots bof off"
  "AList.update ''only'' (A_texts vs) (run_space s out only breaks boots bof off) = run_space s out vs breaks boots bof off"
  "AList.update ''breaks'' (A_texts vs) (run_space s out only breaks boots bof off) = run_space s out only vs boots bof off"
  "AList.update ''kernel'' (A_text v) (run_space s out only breaks boots bof off) = run_space s out only breaks (Some v) bof off"
  "AList.update ''break_on_failure'' (A_flag True) (run_space s out only breaks boots bof off) = run_space s out only breaks boots True off"
  "AList.update ''offline'' (A_flag True) (run_space s out only breaks boots bof off) = run_space s out only breaks boots bof True"
  "map_of (run_space s out only breaks boots bof off) ''breaks'' = Some (A_texts breaks)"
  "map_of (run_space s out only breaks boots bof off) ''only'' = Some (A_texts only)"
  by (simp_all add: run_space_def Let_def)

text \<open>The options the server writes fill the namespace with what was asked.\<close>

lemma option_words_parsed:
  assumes "plain_request q" "plain spec_path"
  shows "parse_known run_grammar (''--spec'' # spec_path # option_words q) =
    Inr (run_space (Some spec_path) (Some (rq_out q)) (rq_only q) (rq_breaks q) (rq_kernel q) (rq_break_on_failure q) (rq_offline q), [])"
proof -
  note q = assms(1) [unfolded plain_request_def list_all_iff]
  define kw where "kw = (case rq_kernel q of None \<Rightarrow> [] | Some k \<Rightarrow> [''--kernel'', k])"
  define ow where "ow = (if rq_offline q then [''--offline''] else []) @ kw"
  define bw where "bw = (if rq_break_on_failure q then [''--break-on-failure''] else []) @ ow"
  let ?S = "\<lambda>breaks only k bof off. run_space (Some spec_path) (Some (rq_out q)) only breaks k bof off"
  have nd: "''--spec'' \<noteq> [DASH, DASH]" "''--out'' \<noteq> [DASH, DASH]" "''--only'' \<noteq> [DASH, DASH]" "''--break'' \<noteq> [DASH, DASH]"
    "''--kernel'' \<noteq> [DASH, DASH]" "''--break-on-failure'' \<noteq> [DASH, DASH]" "''--offline'' \<noteq> [DASH, DASH]"
    by (simp_all add: DASH_def)
  have k: "parse_words run_grammar [] (classify_all run_grammar kw) (?S b n None f off) [] =
      Inr (?S b n (rq_kernel q) f off, [], [])" for b n f off
  proof (cases "rq_kernel q")
    case None
    then show ?thesis by (simp add: kw_def parse_end)
  next
    case (Some kern)
    with q have "plain kern" by (simp add: opt_str_def)
    from parse_value [OF run_flags(5) nd(5) take_text(2) this, of "[]" "[]"] show ?thesis
      by (simp add: kw_def Some parse_end take_text run_space_updates del: classify_all.simps(2))
  qed
  have o: "parse_words run_grammar [] (classify_all run_grammar ow) (?S b n None f False) [] =
      Inr (?S b n (rq_kernel q) f (rq_offline q), [], [])" for b n f
    using parse_flag [OF run_flags(7) nd(7) take_flag(2)]
    by (simp add: ow_def k take_flag run_space_updates del: classify_all.simps(2))
  have f: "parse_words run_grammar [] (classify_all run_grammar bw) (?S b n None False False) [] =
      Inr (?S b n (rq_kernel q) (rq_break_on_failure q) (rq_offline q), [], [])" for b n
    using parse_flag [OF run_flags(6) nd(6) take_flag(2)]
    by (simp add: bw_def o take_flag run_space_updates del: classify_all.simps(2))
  have n: "parse_words run_grammar [] (classify_all run_grammar (concat (map (\<lambda>n. [''--only'', n]) (rq_only q)) @ bw))
      (?S b [] None False False) [] = Inr (?S b (rq_only q) (rq_kernel q) (rq_break_on_failure q) (rq_offline q), [], [])" for b
    using parse_appends [OF run_flags(3) nd(3) list_opt_fields(1), of "rq_only q" "?S b [] None False False" "[]"] q
    by (simp add: f list_opt_fields run_space_updates del: classify_all.simps(2))
  have b: "parse_words run_grammar [] (classify_all run_grammar (concat (map (\<lambda>n. [''--break'', n]) (rq_breaks q)) @
        concat (map (\<lambda>n. [''--only'', n]) (rq_only q)) @ bw)) (?S [] [] None False False) [] =
      Inr (?S (rq_breaks q) (rq_only q) (rq_kernel q) (rq_break_on_failure q) (rq_offline q), [], [])"
    using parse_appends [OF run_flags(4) nd(4) list_opt_fields(1), of "rq_breaks q" "?S [] [] None False False" "[]"] q
    by (simp add: n list_opt_fields run_space_updates del: classify_all.simps(2))
  have "parse_words run_grammar [] (classify_all run_grammar (''--spec'' # spec_path # option_words q)) (defaults run_grammar) [] =
      Inr (?S (rq_breaks q) (rq_only q) (rq_kernel q) (rq_break_on_failure q) (rq_offline q), [], [])"
    using q b parse_value [OF run_flags(1) nd(1) take_text(2) assms(2)] parse_value [OF run_flags(2) nd(2) take_text(2)]
    by (simp add: option_words_def bw_def ow_def kw_def run_defaults take_text run_space_updates del: classify_all.simps(2))
  then show ?thesis by (simp add: parse_known_def run_grammar_def lacking_def text_opt_def list_opt_def flag_opt_def verbose_opt_def run_space_def Let_def)
qed

definition eval_space :: "string \<Rightarrow> arg_value \<Rightarrow> arg_value \<Rightarrow> arg_space" where
  "eval_space f c a = [(''file'', A_text f), (''command'', c), (''attr'', a)]"

lemma a_dash_arg: "a_dash ((v, Is_arg) # ws) = 0"
  by (simp add: a_dash_def)

lemma eval_positionals:
  assumes "is_option w" and "plain a"
  shows "parse_words eval_grammar (gr_pos eval_grammar) ((''run'', Is_arg) # (a, Is_arg) # w # ws) (eval_space f A_none A_none) ex =
    parse_words eval_grammar [] (w # ws) (eval_space f (A_text ''run'') (A_text a)) ex"
proof -
  have w: "a_dash (w # ws) = 0" using assms(1) by (cases w) (auto simp: a_dash_def is_option_def split: word_class.splits)
  have d: "''run'' \<noteq> [DASH, DASH]" by (simp add: DASH_def)
  have "consume_positionals (gr_pos eval_grammar) ((''run'', Is_arg) # (a, Is_arg) # w # ws) (eval_space f A_none A_none) =
      Inr (eval_space f (A_text ''run'') (A_text a), [], w # ws)"
    using w d plain_no_dashes [OF assms(2)]
    by (simp add: consume_positionals_def match_counts_def eval_grammar_def one_pos_def match_pos_def a_dash_arg Let_def
        take_pos_def in_choices_def eval_space_def)
  then show ?thesis using assms(1) by (subst parse_words.simps) (simp add: is_option_def)
qed

lemma eval_words_parsed:
  assumes "plain_request q" "plain a"
  shows "parse_known eval_grammar ([''run'', a, ''--file'', rq_file q] @ option_words q) =
    Inr (eval_space (rq_file q) (A_text ''run'') (A_text a), option_words q)"
proof -
  note q = assms(1) [unfolded plain_request_def list_all_iff]
  let ?P = "\<lambda>ws ex. parse_words eval_grammar [] (classify_all eval_grammar ws) (eval_space (rq_file q) (A_text ''run'') (A_text a)) ex"
  define kw where "kw = (case rq_kernel q of None \<Rightarrow> [] | Some k \<Rightarrow> [''--kernel'', k])"
  define bw where "bw = (if rq_break_on_failure q then [''--break-on-failure''] else [])"
  define ow where "ow = (if rq_offline q then [''--offline''] else [])"
  have nd: "''--file'' \<noteq> [DASH, DASH]" "''--out'' \<noteq> [DASH, DASH]" "''--only'' \<noteq> [DASH, DASH]" "''--break'' \<noteq> [DASH, DASH]"
    "''--kernel'' \<noteq> [DASH, DASH]" "''--break-on-failure'' \<noteq> [DASH, DASH]" "''--offline'' \<noteq> [DASH, DASH]"
    by (simp_all add: DASH_def)
  have k: "?P kw ex = Inr (eval_space (rq_file q) (A_text ''run'') (A_text a), [], ex @ kw)" for ex
  proof (cases "rq_kernel q")
    case None
    then show ?thesis by (simp add: kw_def parse_end)
  next
    case (Some kern)
    with q have "plain kern" by (simp add: opt_str_def)
    then show ?thesis
      by (simp add: kw_def Some parse_end parse_unknown [OF eval_flags(5) nd(5)] parse_left del: classify_all.simps(2))
  qed
  have o: "?P (ow @ kw) ex = ?P kw (ex @ ow)" for ex
    by (simp add: ow_def parse_unknown [OF eval_flags(7) nd(7)] del: classify_all.simps(2))
  have b: "?P (bw @ ow @ kw) ex = ?P (ow @ kw) (ex @ bw)" for ex
    by (simp add: bw_def parse_unknown [OF eval_flags(6) nd(6)] del: classify_all.simps(2))
  note names = parse_strangers [OF eval_flags(3) nd(3)] parse_strangers [OF eval_flags(4) nd(4)]
  have "?P (option_words q) [] = Inr (eval_space (rq_file q) (A_text ''run'') (A_text a), [], option_words q)"
    using q unfolding option_words_def kw_def [symmetric] bw_def [symmetric] ow_def [symmetric]
    by (simp add: names parse_unknown [OF eval_flags(2) nd(2)] parse_left k o b del: classify_all.simps(2))
  moreover have "takes_value (hd (gr_opts eval_grammar))"
    "take_opt (hd (gr_opts eval_grammar), Some v) (eval_space f c d) = Inr (eval_space v c d)" for v f c d
    by (simp_all add: eval_grammar_def takes_value_def take_opt_def given_def eval_space_def)
  ultimately have "parse_words eval_grammar [] (classify_all eval_grammar (''--file'' # rq_file q # option_words q))
      (eval_space ''.'' (A_text ''run'') (A_text a)) [] =
      Inr (eval_space (rq_file q) (A_text ''run'') (A_text a), [], option_words q)"
    using q parse_value [OF eval_flags(1) nd(1)] by (simp del: classify_all.simps(2))
  moreover have "classify_all eval_grammar (''--file'' # ws) =
      (''--file'', Is_opt (hd (gr_opts eval_grammar)) False None) # classify_all eval_grammar ws" for ws
    using nd(1) by (simp add: eval_flags)
  moreover have "is_option (''--file'', Is_opt (hd (gr_opts eval_grammar)) False None)" by (simp add: is_option_def)
  moreover have "plain ''run''" by (simp add: plain_def DASH_def)
  moreover have "defaults eval_grammar = eval_space ''.'' A_none A_none" by code_simp
  ultimately have "parse_words eval_grammar (gr_pos eval_grammar)
      (classify_all eval_grammar ([''run'', a, ''--file'', rq_file q] @ option_words q)) (defaults eval_grammar) [] =
      Inr (eval_space (rq_file q) (A_text ''run'') (A_text a), [], option_words q)"
    using assms(2) by (simp add: classify_all_plain eval_positionals del: classify_all.simps(2))
  moreover have "\<not> lacking eval_grammar ns []" for ns by (simp add: lacking_def eval_grammar_def)
  ultimately show ?thesis by (simp add: parse_known_def del: classify_all.simps(2))
qed

lemma uml_run_parsed:
  assumes "plain_request q" "plain spec_path"
  shows "uml_parse ([''run'', ''--spec'', spec_path] @ option_words q @ pytest_words q) = Inr (Uml_run spec_path (asked q))"
proof -
  have "''--'' \<notin> set ([''run'', ''--spec'', spec_path] @ option_words q)"
    using option_words_no_dashes [OF assms(1)] dashes_not_plain assms(2) by auto
  from split_dashes_words [OF this]
  have d: "split_dashes ([''run'', ''--spec'', spec_path] @ option_words q @ pytest_words q) =
      (''run'' # ''--spec'' # spec_path # option_words q, rq_pytest q)" by simp
  have r: "plain ''run''" "map_of uml_commands ''run'' = Some run_grammar"
    by (simp_all add: plain_def DASH_def uml_commands_def)
  have "parse_commands ''command'' uml_commands (''run'' # ''--spec'' # spec_path # option_words q) =
      Inr (''run'', run_space (Some spec_path) (Some (rq_out q)) (rq_only q) (rq_breaks q) (rq_kernel q)
        (rq_break_on_failure q) (rq_offline q))"
    unfolding parse_commands_first [OF r] option_words_parsed [OF assms] by simp
  then show ?thesis unfolding uml_parse_def d
    by (simp add: command_from_def run_args_of_def asked_def run_space_def Let_def text_at_def text_if_def texts_at_def
        flag_at_def count_at_def split: option.split)
qed

lemma eval_run_parsed:
  assumes "plain_request q" "plain a" "split_attr a = Inr path"
  shows "eval_parse ([''run'', a, ''--file'', rq_file q] @ option_words q @ pytest_words q) =
    Inr \<lparr>er_command = ''run'', er_file = rq_file q, er_attr = path, er_rest = option_words q @ pytest_words q\<rparr>"
proof -
  have "''--'' \<notin> set ([''run'', a, ''--file'', rq_file q] @ option_words q)"
    using option_words_no_dashes [OF assms(1)] dashes_not_plain assms(1,2) by (auto simp: plain_request_def)
  from eval_split_words [OF this]
  have d: "eval_split ([''run'', a, ''--file'', rq_file q] @ option_words q @ pytest_words q) =
      ([''run'', a, ''--file'', rq_file q] @ option_words q, pytest_words q)" by simp
  show ?thesis unfolding eval_parse_def d prod.case eval_words_parsed [OF assms(1,2)]
    using assms(3) by (simp add: eval_space_def text_at_def)
qed

text \<open>
  C38: What the server is asked for is what the run is told. The command line it writes is read by the program it
  starts, to the end of the chain: a spec goes to \<open>uml\<close> itself, which gets the options, the phases to break before and to keep,
  and pytest's words; an attribute goes to \<open>uml-eval\<close>, which takes its own two options and leaves the words that the
  program it executes, a \<open>uml run --spec\<close> of the spec it built, reads the same way. The texts must not
  look like options.
\<close>

theorem request_arrives:
  assumes "run_argv python q = Inr argv" and "plain_request q"
  shows "case rq_attr q of
      None \<Rightarrow> uml_parse (drop (if rq_runner q = None then 3 else 1) argv) = Inr (Uml_run (opt_str (rq_spec q)) (asked q))
    | Some a \<Rightarrow> \<exists>path rest. split_attr a = Inr path \<and>
        eval_parse (drop 1 argv) = Inr \<lparr>er_command = ''run'', er_file = rq_file q, er_attr = path, er_rest = rest\<rparr> \<and>
        (\<forall>spec_path. plain spec_path \<longrightarrow>
          uml_parse ([''run'', ''--spec'', spec_path] @ rest) = Inr (Uml_run spec_path (asked q)))"
proof (cases "rq_attr q")
  case None
  have "plain (opt_str (rq_spec q))" using assms(2) by (simp add: plain_request_def)
  from uml_run_parsed [OF assms(2) this] assms(1) None show ?thesis
    by (auto simp: run_argv_words and_then_Inr run_head_def split: if_splits option.splits)
next
  case (Some a)
  then have a: "plain a" using assms(2) by (simp add: plain_request_def opt_str_def)
  from assms(1) Some obtain path where path: "split_attr a = Inr path"
    and argv: "drop 1 argv = [''run'', a, ''--file'', rq_file q] @ option_words q @ pytest_words q"
    by (auto simp: run_argv_words and_then_Inr run_head_def split: if_splits)
  from eval_run_parsed [OF assms(2) a path] uml_run_parsed [OF assms(2)] path show ?thesis
    unfolding argv Some option.case by blast
qed

definition demo_request :: child_request where
  "demo_request =
     \<lparr>rq_out = ''/tmp/o'', rq_attr = Some ''lan.qemu'', rq_spec = None, rq_file = ''.'', rq_breaks = [''check''],
      rq_break_on_failure = True, rq_only = [''build'', ''check''], rq_offline = False, rq_pytest = [''-k'', ''etcd''],
      rq_runner = None, rq_kernel = None\<rparr>"

lemma demo_request_plain: "plain_request demo_request"
  by (simp add: plain_request_def demo_request_def plain_def opt_str_def DASH_def)

lemma demo_request_argv: "\<exists>argv. run_argv ''/bin/python'' demo_request = Inr argv"
  by (simp add: run_argv_words run_head_def demo_request_def split_attr_def Let_def)

theorem request_arrives_witness:
  "\<exists>path rest. eval_parse (drop 1 (projr (run_argv ''/bin/python'' demo_request))) =
      Inr \<lparr>er_command = ''run'', er_file = ''.'', er_attr = path, er_rest = rest\<rparr> \<and>
    uml_parse ([''run'', ''--spec'', ''/s''] @ rest) = Inr (Uml_run ''/s'' (asked demo_request))"
proof -
  obtain argv where "run_argv ''/bin/python'' demo_request = Inr argv" using demo_request_argv by blast
  moreover have "plain ''/s''" by (simp add: plain_def DASH_def)
  ultimately show ?thesis using request_arrives [OF _ demo_request_plain, of "''/bin/python''" argv]
    by (auto simp: demo_request_def)
qed

text \<open>An option of uml before the attribute gives its value for the attribute.\<close>

lemma option_before_attribute:
  "eval_parse [''run'', ''--out'', ''o'', ''lan''] =
     Inr \<lparr>er_command = ''run'', er_file = ''.'', er_attr = [''o''], er_rest = [''--out'', ''lan'']\<rparr>"
  by code_simp

section \<open>What the launcher is told\<close>

lemma take_int:
  "py_int v = Some n \<Longrightarrow> take_opt (int_opt f d p need, Some v) ns = Inr (AList.update d (A_int n) ns)"
  "takes_value (int_opt f d p need)"
  by (simp_all add: take_opt_def int_opt_def given_def takes_value_def)

lemma tap_flags:
  "classify crun_tap_grammar ''--pid'' = Is_opt (int_opt ''--pid'' ''pid'' A_none True) False None"
  "classify crun_tap_grammar ''--fd'' = Is_opt (int_opt ''--fd'' ''fd'' A_none True) False None"
  "classify crun_tap_grammar ''--mtu'' = Is_opt (int_opt ''--mtu'' ''mtu'' A_none True) False None"
  "classify crun_tap_grammar ''--mac'' = Is_opt (text_opt ''--mac'' ''mac'' True) False None"
  by code_simp+

lemma launch_flags:
  "classify crun_run_grammar ''--crun'' = Is_opt (text_opt ''--crun'' ''crun'' True) False None"
  "classify crun_run_grammar ''--state'' = Is_opt (text_opt ''--state'' ''state'' True) False None"
  "classify crun_run_grammar ''--bundle'' = Is_opt (text_opt ''--bundle'' ''bundle'' True) False None"
  "classify crun_run_grammar ''--name'' = Is_opt (text_opt ''--name'' ''name'' True) False None"
  "classify crun_run_grammar ''--lan-fd'' = Is_opt (int_opt ''--lan-fd'' ''lan_fd'' A_none False) False None"
  "classify crun_run_grammar ''--mtu'' = Is_opt (int_opt ''--mtu'' ''mtu'' (A_int 1500) False) False None"
  "classify crun_run_grammar ''--mac'' = Is_opt (text_opt ''--mac'' ''mac'' False) False None"
  "classify crun_run_grammar ''--pasta-log'' = Is_opt (text_opt ''--pasta-log'' ''pasta_log'' False) False None"
  by code_simp+

lemma plain_show_int: "0 \<le> n \<Longrightarrow> plain (show_int n) \<and> py_int (show_int n) = Some n"
proof -
  assume n: "0 \<le> n"
  have "plain (show_nat k)" for k
  proof -
    have "DASH \<notin> set (show_nat k)" by (rule show_nat_not) (simp add: DASH_def is_digit_def)
    with hd_in_set [OF show_nat_nonempty [of k]] have "hd (show_nat k) \<noteq> DASH" by metis
    then show ?thesis by (simp add: plain_def)
  qed
  with n py_int_show_nat [of "nat n"] show ?thesis by (simp add: show_int_def)
qed

text \<open>\<open>_lan\<close> starts the relay the relay's own command line describes.\<close>

lemma relay_told:
  assumes "0 \<le> pid" "0 \<le> fd" "0 \<le> mtu" "plain mac"
  shows "crun_parse (drop 3 (relay_command python pid fd mtu mac)) =
    Inr (Mode_tap \<lparr>ct_pid = pid, ct_fd = fd, ct_mtu = mtu, ct_mac = mac\<rparr>)"
proof -
  note n = plain_show_int [OF assms(1)] plain_show_int [OF assms(2)] plain_show_int [OF assms(3)]
  have nd: "''--pid'' \<noteq> [DASH, DASH]" "''--fd'' \<noteq> [DASH, DASH]" "''--mtu'' \<noteq> [DASH, DASH]" "''--mac'' \<noteq> [DASH, DASH]"
    by (simp_all add: DASH_def)
  note steps = parse_value [OF tap_flags(1) nd(1) take_int(2)] parse_value [OF tap_flags(2) nd(2) take_int(2)]
    parse_value [OF tap_flags(3) nd(3) take_int(2)] parse_value [OF tap_flags(4) nd(4) take_text(2)]
  have "parse_words crun_tap_grammar [] (classify_all crun_tap_grammar [''--pid'', show_int pid, ''--fd'', show_int fd,
      ''--mtu'', show_int mtu, ''--mac'', mac]) [(''pid'', A_none), (''fd'', A_none), (''mtu'', A_none), (''mac'', A_none)] [] =
      Inr ([(''pid'', A_int pid), (''fd'', A_int fd), (''mtu'', A_int mtu), (''mac'', A_text mac)], [], [])"
    using n assms(4) by (simp add: steps take_int take_text parse_end del: classify_all.simps(2))
  then have "parse_known crun_tap_grammar [''--pid'', show_int pid, ''--fd'', show_int fd, ''--mtu'', show_int mtu, ''--mac'', mac] =
      Inr ([(''pid'', A_int pid), (''fd'', A_int fd), (''mtu'', A_int mtu), (''mac'', A_text mac)], [])"
    by (simp add: parse_known_def crun_tap_grammar_def lacking_def defaults_def int_opt_def text_opt_def del: classify_all.simps(2))
  moreover have "plain ''tap''" "map_of crun_commands ''tap'' = Some crun_tap_grammar"
    by (simp_all add: plain_def DASH_def crun_commands_def)
  note parse_commands_first [OF this]
  ultimately show ?thesis
    by (simp add: crun_parse_def relay_command_def int_at_def int_if_def text_at_def)
qed

definition tap_line :: "string \<Rightarrow> crun_tap \<Rightarrow> string list" where
  "tap_line python t = drop 3 (relay_command python (ct_pid t) (ct_fd t) (ct_mtu t) (ct_mac t))"

definition tap_fine :: "crun_tap \<Rightarrow> bool" where
  "tap_fine t \<longleftrightarrow> 0 \<le> ct_pid t \<and> 0 \<le> ct_fd t \<and> 0 \<le> ct_mtu t \<and> plain (ct_mac t)"

interpretation relay_line: round_trip "tap_line python" crun_parse "\<lambda>t. Inr (Mode_tap t)" tap_fine for python
  by unfold_locales (simp_all add: tap_line_def tap_fine_def relay_told)

section \<open>What the backend tells the launcher\<close>

definition launch_space :: "string option \<Rightarrow> string option \<Rightarrow> string option \<Rightarrow> string option \<Rightarrow> int option \<Rightarrow> int \<Rightarrow>
    string option \<Rightarrow> string option \<Rightarrow> arg_value \<Rightarrow> arg_space" where
  "launch_space crun state bundle name fd mtu mac log_to pasta =
     (let text = (\<lambda>v. case v of None \<Rightarrow> A_none | Some x \<Rightarrow> A_text x) in
      [(''crun'', text crun), (''state'', text state), (''bundle'', text bundle), (''name'', text name),
       (''lan_fd'', case fd of None \<Rightarrow> A_none | Some n \<Rightarrow> A_int n), (''mtu'', A_int mtu), (''mac'', text mac),
       (''pasta_log'', text log_to), (''pasta'', pasta)])"

lemma launch_space_updates:
  "AList.update ''crun'' (A_text v) (launch_space c s b n f m a l p) = launch_space (Some v) s b n f m a l p"
  "AList.update ''state'' (A_text v) (launch_space c s b n f m a l p) = launch_space c (Some v) b n f m a l p"
  "AList.update ''bundle'' (A_text v) (launch_space c s b n f m a l p) = launch_space c s (Some v) n f m a l p"
  "AList.update ''name'' (A_text v) (launch_space c s b n f m a l p) = launch_space c s b (Some v) f m a l p"
  "AList.update ''lan_fd'' (A_int i) (launch_space c s b n f m a l p) = launch_space c s b n (Some i) m a l p"
  "AList.update ''mtu'' (A_int i) (launch_space c s b n f m a l p) = launch_space c s b n f i a l p"
  "AList.update ''mac'' (A_text v) (launch_space c s b n f m a l p) = launch_space c s b n f m (Some v) l p"
  "AList.update ''pasta_log'' (A_text v) (launch_space c s b n f m a l p) = launch_space c s b n f m a (Some v) p"
  "AList.update ''pasta'' x (launch_space c s b n f m a l p) = launch_space c s b n f m a l x"
  by (simp_all add: launch_space_def Let_def)

abbreviation pasta_pos :: "pos_arg list" where
  "pasta_pos \<equiv> gr_pos crun_run_grammar"

text \<open>The remainder is what follows \<open>--\<close>, with it.\<close>

lemma pasta_words:
  "parse_words crun_run_grammar pasta_pos (classify_all crun_run_grammar (''--'' # ws)) (launch_space c s b n f m a l p) [] =
     Inr (launch_space c s b n f m a l (A_texts (''--'' # ws)), [], [])"
  "parse_words crun_run_grammar pasta_pos [] (launch_space c s b n f m a l p) [] =
     Inr (launch_space c s b n f m a l (A_texts []), [], [])"
proof -
  have c: "consume_positionals pasta_pos ((''--'', Is_dashes) # map (\<lambda>v. (v, Is_arg)) ws) (launch_space c s b n f m a l p) =
      Inr (launch_space c s b n f m a l (A_texts (''--'' # ws)), [], [])"
    by (simp add: consume_positionals_def match_counts_def crun_run_grammar_def match_pos_def take_pos_def
        launch_space_updates comp_def)
  show "parse_words crun_run_grammar pasta_pos (classify_all crun_run_grammar (''--'' # ws)) (launch_space c s b n f m a l p) [] =
     Inr (launch_space c s b n f m a l (A_texts (''--'' # ws)), [], [])"
    unfolding double_dash classify_all.simps(2) using c
    by (subst parse_words.simps) (simp add: is_option_def double_dash list_ex_iff)
  have "consume_positionals pasta_pos [] (launch_space c s b n f m a l p) = Inr (launch_space c s b n f m a l (A_texts []), [], [])"
    by (simp add: consume_positionals_def match_counts_def crun_run_grammar_def match_pos_def take_pos_def launch_space_updates)
  then show "parse_words crun_run_grammar pasta_pos [] (launch_space c s b n f m a l p) [] =
     Inr (launch_space c s b n f m a l (A_texts []), [], [])"
    by (subst parse_words.simps) simp
qed

lemma plain_append: "plain r \<Longrightarrow> plain t \<Longrightarrow> plain (r @ t)"
  by (cases r) (auto simp: plain_def)

lemma plain_slash: "plain (CHR ''/'' # r)"
  by (simp add: plain_def DASH_def)

definition told_run :: "host_facts \<Rightarrow> guest_job \<Rightarrow> container_world \<Rightarrow> string \<Rightarrow> nat option \<Rightarrow> string list \<Rightarrow> crun_run" where
  "told_run hf j kw rundir lan_fd fwd =
     (let spec = gj_spec j; tun = (lan_fd \<noteq> None \<or> pw_tap (kw_probe kw) = None) in
      \<lparr>cu_crun = opt_str (tc_crun (gj_tools j)), cu_state = rundir @ ''/crun'', cu_bundle = rundir @ ''/bundle'',
       cu_name = ''uml-'' @ mp_name spec @ ''-'' @ show_nat (kw_pid kw), cu_lan_fd = map_option int lan_fd,
       cu_mtu = (if lan_fd = None then 1500 else mp_mtu spec),
       cu_mac = (if lan_fd = None then None else Some (machine_mac spec 1)),
       cu_pasta_log = (if tun then Some (rundir @ ''/passt.log'') else None),
       cu_pasta = (if tun then [''--'', path_parent (tc_passt (gj_tools j)) @ ''/pasta'', ''--foreground'', ''--ns-ifname'', ''vec0''] @
           uplink_args (hf_dns hf) (gj_offline j) @ pasta_forwards fwd else [])\<rparr>)"

text \<open>The launcher is told the guest, the segment and the uplink its backend chose.\<close>

lemma launcher_told:
  assumes "plain (opt_str (tc_crun (gj_tools j)))" "plain rundir" "0 \<le> mp_mtu (gj_spec j)"
  shows "\<exists>prefix words. container_argv hf j kw rundir lan_fd fwd = prefix @ [kw_python kw, ''-m'', ''uml_runner.crun_launch''] @ words \<and>
    crun_parse words = Inr (Mode_run (told_run hf j kw rundir lan_fd fwd))"
proof -
  define spec where "spec = gj_spec j"
  define tun where "tun = (lan_fd \<noteq> None \<or> pw_tap (kw_probe kw) = None)"
  define name where "name = ''uml-'' @ mp_name spec @ ''-'' @ show_nat (kw_pid kw)"
  define rest where "rest = [path_parent (tc_passt (gj_tools j)) @ ''/pasta'', ''--foreground'', ''--ns-ifname'', ''vec0''] @
    uplink_args (hf_dns hf) (gj_offline j) @ pasta_forwards fwd"
  define pw where "pw = (if tun then ''--pasta-log'' # (rundir @ ''/passt.log'') # ''--'' # rest else [])"
  define lw where "lw = (case lan_fd of None \<Rightarrow> [] | Some fd \<Rightarrow> [''--lan-fd'', show_int (int fd), ''--mtu'', show_int (mp_mtu spec),
    ''--mac'', machine_mac spec 1])"
  define words where "words = [''--crun'', opt_str (tc_crun (gj_tools j)), ''--state'', rundir @ ''/crun'', ''--bundle'',
    rundir @ ''/bundle'', ''--name'', name] @ lw @ pw"
  let ?P = "\<lambda>ws ns. parse_words crun_run_grammar pasta_pos (classify_all crun_run_grammar ws) ns []"
  let ?m = "if lan_fd = None then 1500 else mp_mtu spec" and ?a = "if lan_fd = None then None else Some (machine_mac spec 1)"
  let ?l = "if tun then Some (rundir @ ''/passt.log'') else None" and ?p = "if tun then ''--'' # rest else []"
  have pl: "plain (rundir @ ''/crun'')" "plain (rundir @ ''/bundle'')" "plain (rundir @ ''/passt.log'')" "plain name"
    "plain (machine_mac spec 1)"
    using plain_append [OF assms(2), of "''/crun''"] plain_append [OF assms(2), of "''/bundle''"]
      plain_append [OF assms(2), of "''/passt.log''"]
    by (simp_all add: plain_slash name_def machine_mac_def) (simp_all add: plain_def DASH_def)
  have nd: "''--crun'' \<noteq> [DASH, DASH]" "''--state'' \<noteq> [DASH, DASH]" "''--bundle'' \<noteq> [DASH, DASH]" "''--name'' \<noteq> [DASH, DASH]"
    "''--lan-fd'' \<noteq> [DASH, DASH]" "''--mtu'' \<noteq> [DASH, DASH]" "''--mac'' \<noteq> [DASH, DASH]" "''--pasta-log'' \<noteq> [DASH, DASH]"
    by (simp_all add: DASH_def)
  note texts = parse_value [OF launch_flags(1) nd(1) take_text(2)] parse_value [OF launch_flags(2) nd(2) take_text(2)]
    parse_value [OF launch_flags(3) nd(3) take_text(2)] parse_value [OF launch_flags(4) nd(4) take_text(2)]
    parse_value [OF launch_flags(7) nd(7) take_text(2)] parse_value [OF launch_flags(8) nd(8) take_text(2)]
  note ints = parse_value [OF launch_flags(5) nd(5) take_int(2)] parse_value [OF launch_flags(6) nd(6) take_int(2)]
  have p: "?P pw (launch_space c s b n f m a None A_none) = Inr (launch_space c s b n f m a ?l (A_texts ?p), [], [])" for c s b n f m a
    using pl(3) by (simp add: pw_def texts take_text launch_space_updates pasta_words del: classify_all.simps(2))
  have l: "?P (lw @ pw) (launch_space c s b n None 1500 None None A_none) =
      Inr (launch_space c s b n (map_option int lan_fd) ?m ?a ?l (A_texts ?p), [], [])" for c s b n
  proof (cases lan_fd)
    case None
    then show ?thesis by (simp add: lw_def p)
  next
    case (Some fd)
    have "plain (show_int (int fd)) \<and> py_int (show_int (int fd)) = Some (int fd)" by (rule plain_show_int) simp
    moreover have "plain (show_int (mp_mtu spec)) \<and> py_int (show_int (mp_mtu spec)) = Some (mp_mtu spec)"
      using assms(3) plain_show_int by (simp add: spec_def)
    ultimately show ?thesis using pl(5) Some
      by (simp add: lw_def texts ints take_text take_int launch_space_updates p del: classify_all.simps(2))
  qed
  have "defaults crun_run_grammar = launch_space None None None None None 1500 None None A_none" by code_simp
  then have w: "?P words (defaults crun_run_grammar) = Inr (launch_space (Some (opt_str (tc_crun (gj_tools j)))) (Some (rundir @ ''/crun''))
      (Some (rundir @ ''/bundle'')) (Some name) (map_option int lan_fd) ?m ?a ?l (A_texts ?p), [], [])"
    using pl assms(1) by (simp add: words_def texts take_text launch_space_updates l del: classify_all.simps(2))
  then have k: "parse_known crun_run_grammar words = Inr (launch_space (Some (opt_str (tc_crun (gj_tools j)))) (Some (rundir @ ''/crun''))
      (Some (rundir @ ''/bundle'')) (Some name) (map_option int lan_fd) ?m ?a ?l (A_texts ?p), [])"
    unfolding parse_known_def w by (simp add: lacking_def crun_run_grammar_def text_opt_def int_opt_def launch_space_def Let_def)
  have r: "plain ''run''" "map_of crun_commands ''run'' = Some crun_run_grammar"
    by (simp_all add: plain_def DASH_def crun_commands_def)
  have "crun_parse (''run'' # words) = Inr (Mode_run (told_run hf j kw rundir lan_fd fwd))"
    unfolding crun_parse_def parse_commands_first [OF r] k
    by (cases lan_fd) (auto simp: told_run_def Let_def launch_space_def text_at_def text_if_def texts_at_def int_if_def int_at_def
        spec_def tun_def name_def rest_def)
  moreover have "container_argv hf j kw rundir lan_fd fwd =
      (if needs_scope (kw_probe kw) then (case scope (kw_probe kw) of None \<Rightarrow> [] | Some prefix' \<Rightarrow> prefix') else []) @
      [kw_python kw, ''-m'', ''uml_runner.crun_launch''] @ ''run'' # words"
    by (simp add: container_argv_def Let_def words_def lw_def pw_def rest_def tun_def name_def spec_def show_int_def split: option.split)
  ultimately show ?thesis by blast
qed

end
