(* ===== verification/Server_Tools.thy ===== *)
theory Server_Tools
  imports Command_Lines
begin

text \<open>
  The operations of \<^verbatim>\<open>src/pkgs/uml-eval/uml_eval/server.py\<close> on the runs it has, as its tools call them, from the start of
  a run to the end of the server, and of \<^verbatim>\<open>src/pkgs/uml-eval/uml_eval/cli.py\<close> what \<open>main\<close> does. The runs are a dictionary of the
  machines of \<open>Server\<close>; a tool that talks to a run writes a line of \<open>Control\<close>'s protocol to the run's socket. What
  MCP, the peer of a socket, the operating system and the Nix evaluator answer is an argument.
\<close>

section \<open>Starting a run\<close>

text \<open>
  \<open>_spec\<close>: no field where the file cannot be read or is no JSON.
\<close>

definition read_fields :: "(string \<Rightarrow> json option) \<Rightarrow> string option \<Rightarrow> json" where
  "read_fields loads contents =
     (case contents of None \<Rightarrow> JObj [] | Some s \<Rightarrow> (case loads s of None \<Rightarrow> JObj [] | Some v \<Rightarrow> v))"

text \<open>\<open>_read\<close>, the text replacement of bytes that are none being \<open>decode\<close>.\<close>

definition read_text :: "(string \<Rightarrow> string) \<Rightarrow> string option \<Rightarrow> string" where
  "read_text decode contents = (case contents of None \<Rightarrow> [] | Some b \<Rightarrow> decode b)"

record start_args =
  sa_attr :: "string option"
  sa_spec :: "string option"
  sa_file :: string
  sa_breaks :: "string list option"
  sa_break_on_failure :: bool
  sa_only :: "string list option"
  sa_offline :: bool
  sa_pytest :: "string list option"
  sa_env :: "(string, string) dict option"
  sa_kernel :: "string option"

text \<open>
  What the operating system does: the directory \<open>mkdtemp\<close> makes for a prefix, \<open>abspath\<close>, whether the child can be
  spawned and its socket be bound.
\<close>

record server_world =
  vw_python :: string
  vw_loads :: "string \<Rightarrow> json option"
  vw_read :: "string \<Rightarrow> string option"
  vw_mkdtemp :: "string \<Rightarrow> exn + string"
  vw_abspath :: "string \<Rightarrow> string"
  vw_spawn_raises :: "string list \<Rightarrow> exn option"
  vw_bind_raises :: "string \<Rightarrow> exn option"
  vw_fd :: nat

text \<open>The server: its runs, the directories it made, what it spawned in which environment.\<close>

record runs_state =
  rn_runs :: "(string, child_run) dict"
  rn_made :: "string list"
  rn_spawned :: "(string list \<times> (string, string) dict) list"
  rn_bound :: "string list"

definition MONITOR_NAME :: string where "MONITOR_NAME = ''monitor.sock''"

text \<open>
  \<open>Runs.start\<close>. The run is known as soon as its process is: a socket that cannot be bound raises after that, and the
  run then has neither a watch nor monitors (\<^const>\<open>Watch_over\<close>).
\<close>

definition start_run ::
  "server_world \<Rightarrow> string list \<Rightarrow> string \<Rightarrow> (string, string) dict \<Rightarrow> runs_state \<Rightarrow> (exn + child_run) \<times> runs_state" where
  "start_run w argv out env st =
     (case vw_spawn_raises w argv of
        Some e \<Rightarrow> (Inl e, st)
      | None \<Rightarrow>
         (let name = path_name out; r = new_child name;
              st1 = st\<lparr>rn_spawned := rn_spawned st @ [(argv, env)]\<rparr>;
              socket = socket_name (vw_fd w) (path_join out MONITOR_NAME) in
          case vw_bind_raises w socket of
            Some e \<Rightarrow> (Inl e, st1\<lparr>rn_runs := AList.update name (r\<lparr>cr_stage := Watch_over\<rparr>) (rn_runs st)\<rparr>)
          | None \<Rightarrow> (Inr r, st1\<lparr>rn_runs := AList.update name r (rn_runs st), rn_bound := rn_bound st @ [socket]\<rparr>)))"

definition listed :: "'a list option \<Rightarrow> 'a list" where
  "listed v = (case v of None \<Rightarrow> [] | Some xs \<Rightarrow> xs)"

definition start_request :: "server_world \<Rightarrow> start_args \<Rightarrow> jdict \<Rightarrow> string \<Rightarrow> child_request" where
  "start_request w a written out =
     \<lparr>rq_out = out, rq_attr = sa_attr a, rq_spec = sa_spec a, rq_file = vw_abspath w (sa_file a),
      rq_breaks = listed (sa_breaks a), rq_break_on_failure = sa_break_on_failure a, rq_only = listed (sa_only a),
      rq_offline = sa_offline a, rq_pytest = listed (sa_pytest a),
      rq_runner = (let u = jget written ''uml'' in if truthy u then Some (py_str u) else None),
      rq_kernel = (case sa_kernel a of None \<Rightarrow> None | Some k \<Rightarrow> if k = [] then None else Some (vw_abspath w k))\<rparr>"

text \<open>\<open>Path\<close> of the runner a spec names: nothing, or a text.\<close>

definition names_runner :: "jdict \<Rightarrow> bool" where
  "names_runner written = (case jget written ''uml'' of JStr u \<Rightarrow> True | v \<Rightarrow> \<not> truthy v)"

text \<open>\<open>start\<close>: the reply, and the server after it. The directory is made before the arguments are looked at.\<close>

definition tool_start :: "server_world \<Rightarrow> start_args \<Rightarrow> runs_state \<Rightarrow> (exn + jdict) \<times> runs_state" where
  "tool_start w a st =
     (case (case sa_spec a of None \<Rightarrow> JObj [] | Some p \<Rightarrow> read_fields (vw_loads w) (vw_read w p)) of
        JObj written \<Rightarrow>
         (case vw_mkdtemp w (''uml-'' @ run_name (sa_attr a) written @ ''-'') of
            Inl e \<Rightarrow> (Inl e, st)
          | Inr out \<Rightarrow>
             (let st1 = st\<lparr>rn_made := rn_made st @ [out]\<rparr> in
              if \<not> names_runner written then (Inl (Exn ''TypeError'' []), st1)
              else case run_argv (vw_python w) (start_request w a written out) of
                Inl e \<Rightarrow> (Inl (Exn ''ValueError'' e), st1)
              | Inr argv \<Rightarrow>
                 (case start_run w argv out (listed (sa_env a)) st1 of
                    (Inl e, st2) \<Rightarrow> (Inl e, st2)
                  | (Inr r, st2) \<Rightarrow>
                      (Inr [(''run'', JStr (cr_id r)), (''out'', JStr out),
                        (''monitor'', JStr (shlex_join [vw_python w, ''-m'', ''uml.cli'', ''monitor'', out]))], st2))))
      | _ \<Rightarrow>
         (let no_object = Inl (Exn ''AttributeError'' []) in
          case sa_attr a of
            None \<Rightarrow> (no_object, st)
          | Some n \<Rightarrow>
             if n = [] then (no_object, st)
             else (case vw_mkdtemp w (''uml-'' @ run_name (sa_attr a) [] @ ''-'') of
                Inl e \<Rightarrow> (Inl e, st)
              | Inr out \<Rightarrow> (no_object, st\<lparr>rn_made := rn_made st @ [out]\<rparr>))))"

section \<open>Talking to a run\<close>

text \<open>
  \<open>request\<close>, over what the run's socket answers to a line: nothing to connect to, or the pieces of a reply.
\<close>

record wire =
  wi_dumps :: "json \<Rightarrow> string"
  wi_loads :: "string \<Rightarrow> loaded"
  wi_peer :: "string \<Rightarrow> string \<Rightarrow> string list option"

definition send_request :: "wire \<Rightarrow> string \<Rightarrow> op \<Rightarrow> string \<Rightarrow> exn + reply" where
  "send_request wi run_id x arg =
     (case wi_peer wi run_id (request_line (wi_dumps wi) x arg) of
        None \<Rightarrow> Inl (Exn ''OSError'' [])
      | Some pieces \<Rightarrow> (case client_reply (wi_loads wi) pieces of None \<Rightarrow> Inl (Exn ''ValueError'' []) | Some r \<Rightarrow> Inr r))"

definition ask_run :: "wire \<Rightarrow> (string, child_run) dict \<Rightarrow> string \<Rightarrow> op \<Rightarrow> string \<Rightarrow> exn + jdict" where
  "ask_run wi runs name x arg =
     (case get_run runs name of
        Inl e \<Rightarrow> Inl (Exn ''ValueError'' e)
      | Inr r \<Rightarrow> and_then (send_request wi (cr_id r) x arg) (\<lambda>reply. Inr (tool_reply reply)))"

definition tool_exec :: "wire \<Rightarrow> (string, child_run) dict \<Rightarrow> string \<Rightarrow> string \<Rightarrow> exn + jdict" where
  "tool_exec wi runs name code = ask_run wi runs name EXEC code"

definition tool_inject :: "wire \<Rightarrow> (string \<Rightarrow> string) \<Rightarrow> (string, child_run) dict \<Rightarrow> string \<Rightarrow> string \<Rightarrow> exn + jdict" where
  "tool_inject wi abspath runs name p = ask_run wi runs name INJECT (abspath p)"

definition tool_run_pytest ::
  "wire \<Rightarrow> (string \<Rightarrow> string) \<Rightarrow> (string, child_run) dict \<Rightarrow> string \<Rightarrow> string \<Rightarrow> string list option \<Rightarrow> exn + jdict" where
  "tool_run_pytest wi abspath runs name p words =
     ask_run wi runs name PYTEST (shlex_join (abspath p # listed words))"

definition tool_run_phase :: "wire \<Rightarrow> (string, child_run) dict \<Rightarrow> string \<Rightarrow> string \<Rightarrow> exn + jdict" where
  "tool_run_phase wi runs name ph = ask_run wi runs name RUN ph"

definition tool_resume :: "wire \<Rightarrow> (string, child_run) dict \<Rightarrow> string \<Rightarrow> exn + jdict" where
  "tool_resume wi runs name = ask_run wi runs name CONTINUE []"

text \<open>\<open>stop\<close>: the code the reply shows is the one there is when \<open>_stop\<close> returns.\<close>

definition shown_code :: "int option \<Rightarrow> string" where
  "shown_code c = (case c of None \<Rightarrow> ''None'' | Some n \<Rightarrow> show_int n)"

definition tool_stop ::
  "(string \<Rightarrow> int option) \<Rightarrow> string \<Rightarrow> (string, child_run) dict \<Rightarrow> (string + string list \<times> jdict) \<times> (string, child_run) dict" where
  "tool_stop ends name runs =
     (case get_run runs name of
        Inl e \<Rightarrow> (Inl e, runs)
      | Inr r \<Rightarrow> (case stop_run (ends name) r of (signals, r1) \<Rightarrow>
          (Inr (signals, [(''run'', JStr name), (''status'', JStr (''exited '' @ shown_code (cr_exit r1)))]),
           AList.update name r1 runs)))"

section \<open>The end of the server\<close>

text \<open>\<open>stop_all\<close>: one run after another; the signals that are sent, in their order.\<close>

fun stop_all :: "(string \<Rightarrow> int option) \<Rightarrow> (string, child_run) dict \<Rightarrow> (string \<times> string) list \<times> (string, child_run) dict" where
  "stop_all ends [] = ([], [])"
| "stop_all ends ((n, r) # rs) =
     (case (stop_run (ends n) r, stop_all ends rs) of
        ((signals, r1), (later, rs1)) \<Rightarrow> (map (Pair n) signals @ later, (n, r1) # rs1))"

text \<open>
  \<open>serve\<close>, from the end of the client on, whether the protocol loop returned or raised: every run is stopped, shielded,
  the tasks are cancelled, and the last clone of the write stream is closed.
\<close>

datatype serve_act = Runs_stopped "(string \<times> string) list" | Tasks_cancelled | Stream_closed

definition serve_ends ::
  "(string \<Rightarrow> int option) \<Rightarrow> exn option \<Rightarrow> (string, child_run) dict \<Rightarrow> exn option \<times> serve_act list \<times> (string, child_run) dict" where
  "serve_ends ends raised_by runs =
     (case stop_all ends runs of (signals, runs1) \<Rightarrow>
        (raised_by, [Runs_stopped signals, Tasks_cancelled, Stream_closed], runs1))"

section \<open>uml-eval\<close>

text \<open>
  \<open>resolve\<close>. The evaluator is a library: \<open>top_value\<close> is what calling the file gives, \<open>attr_of\<close> the attribute of a value,
  \<open>has_attr\<close> whether it has one, \<open>realise\<close> the store path of a string it builds, each of which may raise.
\<close>

record 'v evaluator =
  ev_top :: "string \<Rightarrow> exn + 'v"
  ev_attr :: "'v \<Rightarrow> string \<Rightarrow> 'v"
  ev_has :: "'v \<Rightarrow> string \<Rightarrow> exn + bool"
  ev_realise :: "'v \<Rightarrow> exn + string"
  ev_listdir :: "string \<Rightarrow> exn + string list"

definition session_of :: "'v evaluator \<Rightarrow> 'v \<Rightarrow> exn + 'v" where
  "session_of ev t =
     and_then (ev_has ev t ''spec'') (\<lambda>spec_there.
       if spec_there then Inr t
       else and_then (ev_has ev t ''session'') (\<lambda>session_there.
         Inr (if session_there then ev_attr ev t ''session'' else t)))"

definition resolve_program ::
  "'v evaluator \<Rightarrow> (string \<Rightarrow> bool) \<Rightarrow> (string \<Rightarrow> string) \<Rightarrow> string \<Rightarrow> string list \<Rightarrow> string \<Rightarrow> exn + string" where
  "resolve_program ev is_dir resolved f path command =
     and_then (ev_top ev (resolved (eval_entry is_dir f))) (\<lambda>v.
     and_then (session_of ev (foldl (ev_attr ev) v path)) (\<lambda>t.
     and_then (ev_realise ev (ev_attr ev t command)) (\<lambda>built.
     and_then (ev_listdir ev (path_join built ''bin'')) (\<lambda>names.
       case sort_by str_le names of
         [p] \<Rightarrow> Inr (path_join (path_join built ''bin'') p)
       | _ \<Rightarrow> Inl (Exn ''ValueError'' [])))))"

datatype eval_done = Eval_end "string list" eval_end | Eval_raised "string list" exn

text \<open>\<open>main\<close>, from the words of its command line to the program it becomes.\<close>

definition eval_program ::
  "'v evaluator \<Rightarrow> (string \<Rightarrow> bool) \<Rightarrow> (string \<Rightarrow> string) \<Rightarrow> seconds \<Rightarrow> string list \<Rightarrow> eval_done" where
  "eval_program ev is_dir resolved secs argv =
     (case eval_parse argv of
        Inl code \<Rightarrow> Eval_end [] (Eval_exit (int code))
      | Inr q \<Rightarrow>
         (let say = (\<lambda>r. case eval_main is_dir (er_file q) (er_attr q) (er_rest q) r secs of (said, done) \<Rightarrow> Eval_end said done) in
          case resolve_program ev is_dir resolved (er_file q) (er_attr q) (er_command q) of
            Inr program \<Rightarrow> say (Inr program)
          | Inl (Exn n m) \<Rightarrow>
              if n = ''NixError'' then say (Inl m)
              else Eval_raised [''[uml] evaluating '' @ join ''.'' (er_attr q) @ '' from '' @ eval_entry is_dir (er_file q)] (Exn n m)
          | Inl Cancelled \<Rightarrow> Eval_raised [''[uml] evaluating '' @ join ''.'' (er_attr q) @ '' from '' @ eval_entry is_dir (er_file q)] Cancelled))"

section \<open>What the tools do\<close>

text \<open>A start that answers has one more run, spawned with the command line of the request and watched from its first byte.\<close>

lemma start_known:
  assumes "tool_start w a st = (Inr answer, st')"
  shows "\<exists>written out argv. vw_mkdtemp w (''uml-'' @ run_name (sa_attr a) written @ ''-'') = Inr out \<and>
    run_argv (vw_python w) (start_request w a written out) = Inr argv \<and>
    rn_spawned st' = rn_spawned st @ [(argv, listed (sa_env a))] \<and>
    map_of (rn_runs st') (path_name out) = Some (new_child (path_name out)) \<and>
    (\<forall>n. n \<noteq> path_name out \<longrightarrow> map_of (rn_runs st') n = map_of (rn_runs st) n) \<and>
    map_of answer ''run'' = Some (JStr (path_name out)) \<and> map_of answer ''out'' = Some (JStr out) \<and>
    map_of answer ''monitor'' = Some (JStr (shlex_join [vw_python w, ''-m'', ''uml.cli'', ''monitor'', out]))"
  using assms
  by (fastforce simp: tool_start_def start_run_def Let_def new_child_def update_conv' split: json.splits sum.splits option.splits if_splits prod.splits)

text \<open>A start that raises keeps the runs there were; at most it adds one that nobody watches, and only if its process is there.\<close>

definition unwatched :: "child_run \<Rightarrow> bool" where
  "unwatched r \<longleftrightarrow> cr_stage r = Watch_over"

lemma start_run_raised:
  assumes "start_run w argv out env st = (Inl e, st')"
  shows "st' = st \<or> (\<exists>n r. rn_spawned st' = rn_spawned st @ [(argv, env)] \<and> rn_runs st' = AList.update n r (rn_runs st) \<and> unwatched r)"
proof (cases "vw_spawn_raises w argv")
  case None
  with assms have "rn_spawned st' = rn_spawned st @ [(argv, env)] \<and>
      rn_runs st' = AList.update (path_name out) (new_child (path_name out)\<lparr>cr_stage := Watch_over\<rparr>) (rn_runs st)"
    by (auto simp: start_run_def Let_def split: option.splits)
  moreover have "unwatched (new_child (path_name out)\<lparr>cr_stage := Watch_over\<rparr>)" by (simp add: unwatched_def)
  ultimately show ?thesis by blast
qed (use assms in \<open>simp add: start_run_def\<close>)

lemma start_raised:
  assumes "tool_start w a st = (Inl e, st')"
  shows "rn_runs st' = rn_runs st \<and> rn_spawned st' = rn_spawned st \<or>
    (\<exists>argv env n r. rn_spawned st' = rn_spawned st @ [(argv, env)] \<and> rn_runs st' = AList.update n r (rn_runs st) \<and> unwatched r)"
  using assms
  by (auto simp: tool_start_def Let_def split: json.splits sum.splits option.splits if_splits prod.splits dest!: start_run_raised)

text \<open>The command \<open>start\<close> answers follows that run.\<close>

lemma monitor_told:
  assumes "plain out"
  shows "\<exists>ws. shlex_split (shlex_join [python, ''-m'', ''uml.cli'', ''monitor'', out]) = Inr ws \<and>
    uml_parse (drop 3 ws) = Inr (Uml_monitor out False)"
proof -
  have m: "plain ''monitor''" "map_of uml_commands ''monitor'' = Some monitor_grammar"
    by (simp_all add: plain_def DASH_def uml_commands_def)
  have "consume_positionals (gr_pos monitor_grammar) [(out, Is_arg)] [(''json'', A_flag False), (''target'', A_none)] =
      Inr ([(''json'', A_flag False), (''target'', A_text out)], [], [])"
    using plain_no_dashes [OF assms]
    by (simp add: consume_positionals_def match_counts_def monitor_grammar_def one_pos_def match_pos_def a_dash_arg Let_def
        take_pos_def in_choices_def a_dash_def)
  then have "parse_words monitor_grammar (gr_pos monitor_grammar) [(out, Is_arg)] [(''json'', A_flag False), (''target'', A_none)] [] =
      Inr ([(''json'', A_flag False), (''target'', A_text out)], [], [])"
    by (subst parse_words.simps) (simp add: is_option_def)
  moreover have "classify_all monitor_grammar [out] = [(out, Is_arg)]"
    unfolding classify_all_plain [OF assms] by simp
  ultimately have "parse_known monitor_grammar [out] = Inr ([(''json'', A_flag False), (''target'', A_text out)], [])"
    by (simp add: parse_known_def defaults_def monitor_grammar_def flag_opt_def one_pos_def lacking_def)
  moreover have "''--'' \<noteq> out" using assms dashes_not_plain by blast
  ultimately show ?thesis
    by (simp add: shlex_split_join uml_parse_def parse_commands_first [OF m] command_from_def text_at_def flag_at_def)
qed

text \<open>What a tool sends is what the run's controller reads.\<close>

lemma asked_line:
  assumes "ask_run wi runs name x arg = Inr answer"
  shows "\<exists>r pieces reply. map_of runs name = Some r \<and>
    wi_peer wi (cr_id r) (request_line (wi_dumps wi) x arg) = Some pieces \<and>
    client_reply (wi_loads wi) pieces = Some reply \<and> answer = tool_reply reply"
  using assms by (auto simp: ask_run_def get_run_def send_request_def and_then_Inr split: sum.splits option.splits)

lemma pytest_arrives:
  assumes "tool_run_pytest wi abspath runs name p words = Inr answer"
    and "\<And>v. wi_loads wi (wi_dumps wi v) = Loaded v" and "\<And>v. LF \<notin> set (wi_dumps wi v)"
  shows "\<exists>r line arg. map_of runs name = Some r \<and> wi_peer wi (cr_id r) line \<noteq> None \<and>
    parse_request (wi_loads wi) (receive_line [] [line]) = Inr (PYTEST, arg) \<and> shlex_split arg = Inr (abspath p # listed words)"
proof -
  let ?arg = "shlex_join (abspath p # listed words)"
  from asked_line [OF assms(1) [unfolded tool_run_pytest_def]] obtain r pieces where
    "map_of runs name = Some r" "wi_peer wi (cr_id r) (request_line (wi_dumps wi) PYTEST ?arg) = Some pieces" by blast
  moreover have "?arg \<noteq> []"
    using shell_line.writes_inj [of "abspath p # listed words" "[]"] by (auto simp: shlex_join_def)
  moreover have "receive_line [] [request_line (wi_dumps wi) PYTEST ?arg] =
      wi_dumps wi (JObj [(''op'', JStr (op_text PYTEST)), (''arg'', JStr ?arg)])"
    by (rule receive_line_found [OF assms(3), where rest = "[]"]) (simp add: request_line_def)
  ultimately show ?thesis
    using parse_request_total [of PYTEST ?arg "wi_loads wi"] assms(2) shlex_split_join [of "abspath p # listed words"]
    by (intro exI [of _ r] exI [of _ "request_line (wi_dumps wi) PYTEST ?arg"] exI [of _ ?arg]) auto
qed

text \<open>
  When the server ends, every run it has was over, or was asked to end and then either ended or was killed.
\<close>

lemma stop_all_reaches:
  assumes "stop_all ends runs = (signals, runs')" and "(n, r) \<in> set runs"
  shows "cr_exit r \<noteq> None \<or> (n, ''SIGINT'') \<in> set signals \<and> (ends n \<noteq> None \<or> (n, ''SIGKILL'') \<in> set signals)"
  using assms
proof (induction runs arbitrary: signals runs')
  case (Cons x runs)
  obtain m q where x: "x = (m, q)" by force
  obtain own q1 where own: "stop_run (ends m) q = (own, q1)" by force
  obtain later rest where later: "stop_all ends runs = (later, rest)" by force
  from Cons.prems(1) x own later have s: "signals = map (Pair m) own @ later" by auto
  show ?case
  proof (cases "(n, r) = x")
    case True
    then show ?thesis using x own s by (auto simp: stop_run_def split: if_splits option.splits)
  next
    case False
    with Cons.prems(2) have "(n, r) \<in> set runs" by auto
    from Cons.IH [OF later this] s show ?thesis by auto
  qed
qed simp

lemma stop_all_names: "stop_all ends runs = (signals, runs') \<Longrightarrow> dict_keys runs' = dict_keys runs"
  by (induction runs arbitrary: signals runs') (auto simp: dict_keys_def split: prod.splits)

text \<open>A session of a check is what is run when the attribute itself has no spec.\<close>

lemma resolve_session:
  assumes "resolve_program ev is_dir resolved f path command = Inr p"
    and "ev_top ev (resolved (eval_entry is_dir f)) = Inr v" and "ev_has ev (foldl (ev_attr ev) v path) ''spec'' = Inr False"
    and "ev_has ev (foldl (ev_attr ev) v path) ''session'' = Inr True"
  shows "\<exists>built n. ev_realise ev (ev_attr ev (ev_attr ev (foldl (ev_attr ev) v path) ''session'') command) = Inr built \<and>
    ev_listdir ev (path_join built ''bin'') = Inr [n] \<and> p = path_join (path_join built ''bin'') n"
proof -
  from assms obtain built names where b: "ev_realise ev (ev_attr ev (ev_attr ev (foldl (ev_attr ev) v path) ''session'') command) = Inr built"
    "ev_listdir ev (path_join built ''bin'') = Inr names"
    and p: "(case sort_by str_le names of [q] \<Rightarrow> Inr (path_join (path_join built ''bin'') q) | _ \<Rightarrow> Inl (Exn ''ValueError'' [])) = Inr p"
    by (auto simp: resolve_program_def session_of_def and_then_Inr)
  from p obtain n where n: "sort_by str_le names = [n]" "p = path_join (path_join built ''bin'') n"
    by (auto split: list.splits)
  then have "set names = {n}" "length names = 1" using set_sort_by [of str_le names] length_sort_by [of str_le names] by auto
  then have "names = [n]" by (cases names) auto
  with b n show ?thesis by blast
qed

end
