(* ===== verification/Follow.thy ===== *)
theory Follow
  imports Control
begin

text \<open>
  What runs beside the drive of a run: \<open>follow\<close> of \<^verbatim>\<open>src/pkgs/uml/uml/session.py\<close>, which streams the journals, and \<open>serve\<close> of
  \<^verbatim>\<open>src/pkgs/uml/uml/control.py\<close>, which owns the control socket; and two small helpers of the session. Both are
  tasks of the drive's group, which cancels them when the sequence has ended.
\<close>

section \<open>Following the journals\<close>

text \<open>
  The \<open>finally\<close>: what the last, shielded \<open>drain\<close> raises takes the place of what ended the loop.
\<close>

definition last_drain :: "(string \<Rightarrow> json option) \<Rightarrow> (string \<Rightarrow> string) \<Rightarrow> exn \<Rightarrow> session \<Rightarrow> outcome" where
  "last_drain loads decode e s =
     (case drain loads decode s of (Some x, s1) \<Rightarrow> (Some x, s1) | (None, s1) \<Rightarrow> (Some e, s1))"

text \<open>
  One element for each sleep: what the rest of the world did during it. The task is cancelled in the last of
  them, or in its first \<open>drain\<close> when there is none.
\<close>

fun follow_journals ::
  "(string \<Rightarrow> json option) \<Rightarrow> (string \<Rightarrow> string) \<Rightarrow> (session \<Rightarrow> session) list \<Rightarrow> session \<Rightarrow> outcome" where
  "follow_journals loads decode [] s = last_drain loads decode Cancelled s"
| "follow_journals loads decode (world # ws) s =
     (case drain loads decode s of
        (Some e, s1) \<Rightarrow> last_drain loads decode e s1
      | (None, s1) \<Rightarrow>
          if ws = [] then last_drain loads decode Cancelled (world s1)
          else follow_journals loads decode ws (world s1))"

text \<open>A follower that was cancelled has heard everything the guests had written, up to the way down.\<close>

lemma last_drain_hears:
  assumes "last_drain loads decode Cancelled s = (Some Cancelled, s')" "followed loads decode s"
    and "\<And>t. fst (drain loads decode t) \<noteq> Some Cancelled"
  shows "followed loads decode s' \<and> heard_all loads decode s'"
proof -
  have "drain loads decode s = (None, s')"
    using assms(1) assms(3) [of s] by (auto simp: last_drain_def split: prod.splits option.splits)
  from drain_hears [OF this assms(2)] show ?thesis by blast
qed

lemma follow_hears:
  assumes "follow_journals loads decode ws s = (Some Cancelled, s')" "followed loads decode s"
    and "\<And>world t. world \<in> set ws \<Longrightarrow> files_grew t (world t)"
    and "\<And>t. fst (drain loads decode t) \<noteq> Some Cancelled"
  shows "followed loads decode s' \<and> heard_all loads decode s'"
  using assms(1,2,3)
proof (induction ws arbitrary: s)
  case Nil
  then show ?case using last_drain_hears [OF _ _ assms(4)] by simp
next
  case (Cons world ws)
  obtain x s1 where d: "drain loads decode s = (x, s1)" by force
  show ?case
  proof (cases x)
    case None
    with d have "followed loads decode s1" using drain_hears [OF _ Cons.prems(2)] by blast
    then have w: "followed loads decode (world s1)" using followed_grew Cons.prems(3) by (meson list.set_intros(1))
    show ?thesis
    proof (cases "ws = []")
      case True
      with Cons.prems(1) d None have "last_drain loads decode Cancelled (world s1) = (Some Cancelled, s')" by simp
      from last_drain_hears [OF this w assms(4)] show ?thesis .
    next
      case False
      with Cons.prems(1) d None have "follow_journals loads decode ws (world s1) = (Some Cancelled, s')" by simp
      from Cons.IH [OF this w] Cons.prems(3) show ?thesis by simp
    qed
  next
    case (Some e)
    with Cons.prems(1) d have l: "last_drain loads decode e s1 = (Some Cancelled, s')" by simp
    from assms(4) [of s] d Some have "e \<noteq> Cancelled" by simp
    with l assms(4) [of s1] show ?thesis by (auto simp: last_drain_def split: prod.splits option.splits)
  qed
qed

text \<open>A guest's directory is under the run's, so that no two guests write one file.\<close>

definition artifacts_of :: "string \<Rightarrow> string \<Rightarrow> string" where
  "artifacts_of artifacts name = path_join artifacts name"

lemma artifacts_apart:
  assumes "artifacts_of a m = artifacts_of a n" and "\<not> startswith m ''/''" and "\<not> startswith n ''/''"
  shows "m = n"
  using assms by (simp add: artifacts_of_def path_join_def)

section \<open>The control socket\<close>

text \<open>
  \<open>serve\<close>: what it does to the file system, in order. It ends by being cancelled, or by what leaves a client's
  task (\<open>ended\<close>).
\<close>

datatype socket_act =
    Make_parents string
  | Remove_stale string
  | Bind_at string
  | Set_mode string nat
  | Tell_started
  | Close_listener
  | Remove_socket string

definition CONTROL_NAME :: string where "CONTROL_NAME = ''control.sock''"

definition serve_control :: "nat \<Rightarrow> string \<Rightarrow> exn option \<Rightarrow> exn option \<Rightarrow> exn \<Rightarrow> exn \<times> socket_act list" where
  "serve_control fd out bind_raises chmod_raises ended =
     (let path = path_join out CONTROL_NAME; before = [Make_parents out, Remove_stale path] in
      case bind_raises of
        Some e \<Rightarrow> (e, before)
      | None \<Rightarrow>
         (let bound = before @ [Bind_at (socket_name fd path)] in
          case chmod_raises of
            Some e \<Rightarrow> (e, bound)
          | None \<Rightarrow> (ended, bound @ [Set_mode path 0x180, Tell_started, Close_listener, Remove_socket path])))"

text \<open>
  Nobody is told of the socket before it is private, and a served socket is gone afterwards. It is not created
  private, though: between the bind and the change of its mode it has the mode the umask leaves.
\<close>

lemma serve_private:
  assumes "serve_control fd out b c ended = (e, did)" and "Tell_started \<in> set did"
  shows "\<exists>before after. did = before @ Tell_started # after \<and> Set_mode (path_join out CONTROL_NAME) 0x180 \<in> set before \<and>
    last did = Remove_socket (path_join out CONTROL_NAME)"
proof -
  let ?p = "path_join out CONTROL_NAME"
  have d: "did = [Make_parents out, Remove_stale ?p, Bind_at (socket_name fd ?p), Set_mode ?p 0x180] @
      Tell_started # [Close_listener, Remove_socket ?p]"
    using assms by (auto simp: serve_control_def Let_def split: option.splits)
  show ?thesis unfolding d by (rule exI, rule exI, rule conjI [OF refl]) simp
qed

lemma serve_bound_before_private:
  assumes "serve_control fd out None None ended = (e, did)"
  shows "\<exists>before after. did = before @ Bind_at (socket_name fd (path_join out CONTROL_NAME)) # after \<and>
    (\<forall>p m. Set_mode p m \<notin> set before)"
proof -
  let ?p = "path_join out CONTROL_NAME"
  have d: "did = [Make_parents out, Remove_stale ?p] @ Bind_at (socket_name fd ?p) #
      [Set_mode ?p 0x180, Tell_started, Close_listener, Remove_socket ?p]"
    using assms by (auto simp: serve_control_def Let_def)
  show ?thesis unfolding d by (rule exI, rule exI, rule conjI [OF refl]) simp
qed

end
