(* ===== verification/Pytest_Fixtures.thy ===== *)
theory Pytest_Fixtures
  imports Session
begin

text \<open>
  \<^verbatim>\<open>src/pkgs/uml/uml/pytest_plugin.py\<close>, the other half: the fixtures pytest sees, and how a coroutine of a test is run on
  the session's loop from pytest's thread. pytest is not in the repository; what a call through the portal
  comes to is data.
\<close>

section \<open>Fixtures\<close>

text \<open>\<open>machine_fixtures\<close>: the attributes of the module, each with the name of its fixture; \<^const>\<open>None\<close> is all the guests.\<close>

definition machine_fixtures :: "string list \<Rightarrow> (string, string \<times> string option) dict" where
  "machine_fixtures names =
     AList.update ''vms'' (''vms'', None)
       (fold (\<lambda>n. AList.update (''_machine_'' @ n) (n, Some n)) names [])"

lemma fixtures_fold: "map_of (fold (\<lambda>n. AList.update (''_machine_'' @ n) (n, Some n)) names d) (''_machine_'' @ m) =
    (if m \<in> set names then Some (m, Some m) else map_of d (''_machine_'' @ m))"
  by (induction names arbitrary: d) (auto simp: update_conv')

text \<open>Every guest is a fixture under its own name.\<close>

lemma fixture_of_guest: "n \<in> set names \<Longrightarrow> map_of (machine_fixtures names) (''_machine_'' @ n) = Some (n, Some n)"
  using fixtures_fold [of names "[]" n] by (simp add: machine_fixtures_def update_conv')

section \<open>Coroutines in pytest's thread\<close>

datatype func_kind = Plain_function | Coroutine_function | Async_generator

text \<open>
  \<open>_in_loop\<close>: the setup of a fixture is what its coroutine, or the first \<open>__anext__\<close>, comes to on the loop. The
  teardown of a generator is its second \<open>__anext__\<close>, and only the exception that ends a generator passes.
\<close>

definition loop_teardown :: "func_kind \<Rightarrow> string \<Rightarrow> exn + 'v \<Rightarrow> exn option" where
  "loop_teardown k name second =
     (if k = Async_generator then
        (case second of
           Inl e \<Rightarrow> if e = Exn ''StopAsyncIteration'' (ex_text e) then None else Some e
         | Inr _ \<Rightarrow> Some (Exn ''RuntimeError'' (''fixture '' @ name @ '' yielded twice'')))
      else None)"

text \<open>\<open>pytest_pyfunc_call\<close>: whether the plugin handled the call, with the fixtures the test names.\<close>

definition test_kwargs :: "string list \<Rightarrow> (string, 'v) dict \<Rightarrow> exn + (string, 'v) dict" where
  "test_kwargs names funcargs =
     map_result (\<lambda>n. case map_of funcargs n of None \<Rightarrow> Inl (Exn ''KeyError'' (py_repr n)) | Some v \<Rightarrow> Inr (n, v)) names"

definition pyfunc_call ::
  "((string, 'v) dict \<Rightarrow> exn option) \<Rightarrow> func_kind \<Rightarrow> string list \<Rightarrow> (string, 'v) dict \<Rightarrow> exn + bool" where
  "pyfunc_call portal k names funcargs =
     (if k \<noteq> Coroutine_function then Inr False
      else and_then (test_kwargs names funcargs) (\<lambda>kw. case portal kw of Some e \<Rightarrow> Inl e | None \<Rightarrow> Inr True))"

text \<open>\<open>pytest_fixture_setup\<close>: the function of the definition while pytest sets the fixture up, and afterwards.\<close>

datatype 'f shown_func = Own 'f | In_loop 'f

definition fixture_setup ::
  "('f \<Rightarrow> func_kind) \<Rightarrow> ('f shown_func \<Rightarrow> 'r) \<Rightarrow> 'f \<Rightarrow> 'r \<times> 'f shown_func" where
  "fixture_setup kind_of set_up f =
     (if kind_of f = Plain_function then (set_up (Own f), Own f)
      else (case set_up (In_loop f) of r \<Rightarrow> (r, Own f)))"

text \<open>
  The definition is shared by every test that asks for the fixture: it is the same before and after, whatever the setup
  came to, and only a coroutine or an asynchronous generator is replaced meanwhile.
\<close>

lemma fixture_restored: "snd (fixture_setup kind_of set_up f) = Own f"
  by (simp add: fixture_setup_def)

lemma fixture_seen: "fst (fixture_setup kind_of set_up f) = set_up (if kind_of f = Plain_function then Own f else In_loop f)"
  by (simp add: fixture_setup_def)

text \<open>A test that the plugin runs gets every fixture it names, with the value pytest made.\<close>

lemma pyfunc_named:
  assumes "pyfunc_call portal k names funcargs = Inr True"
  shows "\<exists>kw. portal kw = None \<and> map fst kw = names \<and> (\<forall>(n, v)\<in>set kw. map_of funcargs n = Some v)"
proof -
  from assms obtain kw where kw: "test_kwargs names funcargs = Inr kw" "portal kw = None"
    by (auto simp: pyfunc_call_def and_then_Inr split: if_splits option.splits)
  from map_result_Inr [OF kw(1) [unfolded test_kwargs_def]]
  have "list_all2 (\<lambda>n p. fst p = n \<and> map_of funcargs n = Some (snd p)) names kw"
    by (rule list_all2_mono) (auto split: option.splits)
  then have "map fst kw = names \<and> (\<forall>(n, v)\<in>set kw. map_of funcargs n = Some v)"
    by (induction rule: list_all2_induct) auto
  with kw(2) show ?thesis by blast
qed

lemma teardown_ends:
  "loop_teardown Async_generator name second = None \<longleftrightarrow> (\<exists>t. second = Inl (Exn ''StopAsyncIteration'' t))"
  by (auto simp: loop_teardown_def split: sum.splits exn.splits)

end
