(* ===== verification/Agent.thy ===== *)
theory Agent
  imports Session
begin

text \<open>
  \<^verbatim>\<open>src/pkgs/uml-runner/uml_runner/agent.py\<close>: what the host may ask of a guest. The guest is data of a
  \<open>guest_world\<close>: its environment, what \<open>subprocess.run\<close> answers for a command line, a timeout and an
  environment, the files under \<^verbatim>\<open>/proc\<close> as text and as bytes, the names \<open>os.scandir\<close> lists, and
  \<open>bytes.decode(errors="replace")\<close>. Every call of the agent is a function of it, with \<^const>\<open>Inl\<close> the exception that
  the service sends back.
\<close>

section \<open>The strings the parsers use\<close>

text \<open>\<open>s.split(maxsplit=n)\<close>: the rest after \<open>n\<close> words keeps its trailing white space.\<close>

primrec split_max :: "nat \<Rightarrow> string \<Rightarrow> string list" where
  "split_max 0 s = (let r = lstrip s in if r = [] then [] else [r])"
| "split_max (Suc n) s =
     (let r = lstrip s in
      if r = [] then [] else takeWhile (\<lambda>c. \<not> is_space c) r # split_max n (dropWhile (\<lambda>c. \<not> is_space c) r))"

text \<open>\<open>int(s, 16)\<close>; \<^const>\<open>None\<close> for \<open>ValueError\<close>.\<close>

definition hex_val :: "char \<Rightarrow> nat option" where
  "hex_val c =
     (let n = of_char c :: nat in
      if 48 \<le> n \<and> n \<le> 57 then Some (n - 48)
      else if 65 \<le> n \<and> n \<le> 70 then Some (n - 55)
      else if 97 \<le> n \<and> n \<le> 102 then Some (n - 87)
      else None)"

fun hex_digits :: "bool \<Rightarrow> nat \<Rightarrow> string \<Rightarrow> nat option" where
  "hex_digits after_digit acc [] = (if after_digit then Some acc else None)"
| "hex_digits after_digit acc (c # cs) =
     (case hex_val c of
        Some d \<Rightarrow> hex_digits True (16 * acc + d) cs
      | None \<Rightarrow> if c = CHR ''_'' \<and> after_digit then hex_digits False acc cs else None)"

definition hex_prefixed :: "string \<Rightarrow> bool" where
  "hex_prefixed s \<longleftrightarrow> (startswith s ''0x'' \<or> startswith s ''0X'')"

definition hex_body :: "string \<Rightarrow> nat option" where
  "hex_body s =
     (if hex_prefixed s then (case drop 2 s of c # cs \<Rightarrow> hex_digits False 0 (if c = CHR ''_'' then cs else c # cs) | [] \<Rightarrow> None)
      else hex_digits False 0 s)"

definition py_int_hex :: "string \<Rightarrow> int option" where
  "py_int_hex s =
     (case strip s of
        [] \<Rightarrow> None
      | c # cs \<Rightarrow>
          if c = CHR ''-'' then map_option (\<lambda>n. - int n) (hex_body cs)
          else if c = CHR ''+'' then map_option int (hex_body cs)
          else map_option int (hex_body (c # cs)))"

text \<open>\<open>str.isdigit\<close>, the superscripts included.\<close>

definition py_isdigit :: "string \<Rightarrow> bool" where
  "py_isdigit s \<longleftrightarrow> s \<noteq> [] \<and> list_all (\<lambda>c. is_digit c \<or> c \<in> {CHR 0xB2, CHR 0xB3, CHR 0xB9}) s"

section \<open>The guest\<close>

record completed =
  cd_returncode :: int
  cd_stdout :: string
  cd_stderr :: string

record guest_world =
  gw_environ :: "(string, string) dict"
  gw_run :: "string \<Rightarrow> seconds \<Rightarrow> (string, string) dict \<Rightarrow> exn + completed"
  gw_text :: "string \<Rightarrow> exn + string"
  gw_bytes :: "string \<Rightarrow> exn + string"
  gw_scan :: "exn + string list"
  gw_decode :: "string \<Rightarrow> string"

definition GUEST_PATH :: string where
  "GUEST_PATH = ''/run/current-system/sw/bin:/run/current-system/sw/sbin''"

text \<open>\<open>{**os.environ, **(env or {}), "PATH": GUEST_PATH}\<close>.\<close>

definition sh_env :: "(string, string) dict \<Rightarrow> (string, string) dict option \<Rightarrow> (string, string) dict" where
  "sh_env environ env =
     AList.update ''PATH'' GUEST_PATH (fold (\<lambda>(k, v). AList.update k v) (case env of None \<Rightarrow> [] | Some e \<Rightarrow> e) environ)"

definition sh :: "guest_world \<Rightarrow> string \<Rightarrow> seconds \<Rightarrow> (string, string) dict option \<Rightarrow> exn + completed" where
  "sh w command timeout env = gw_run w command timeout (sh_env (gw_environ w) env)"

definition exposed_run :: "guest_world \<Rightarrow> string \<Rightarrow> seconds \<Rightarrow> (string, string) dict option \<Rightarrow> exn + int \<times> string" where
  "exposed_run w command timeout env =
     and_then (sh w command timeout env) (\<lambda>d. Inr (cd_returncode d, rstrip_char LF (cd_stdout d @ cd_stderr d)))"

section \<open>Units and the journal\<close>

definition unit_state_command :: "string \<Rightarrow> string" where
  "unit_state_command u = ''systemctl show --property=ActiveState -- '' @ py_repr u"

definition exposed_unit_state :: "guest_world \<Rightarrow> string \<Rightarrow> exn + string" where
  "exposed_unit_state w u =
     and_then (sh w (unit_state_command u) 30 None) (\<lambda>d.
       case py_partition_at ''ActiveState='' (strip (cd_stdout d)) of
         (_, found, state) \<Rightarrow> Inr (if found then state else ''unknown''))"

definition unit_info_command :: "string \<Rightarrow> string" where
  "unit_info_command u = ''systemctl show --no-pager -- '' @ py_repr u"

definition info_pairs :: "string \<Rightarrow> (string, string) dict" where
  "info_pairs out =
     fold (\<lambda>l d. case py_partition (CHR ''='') l of (key, sep, value) \<Rightarrow> if sep = [] then d else AList.update key value d)
       (splitlines (strip out)) []"

definition exposed_unit_info :: "guest_world \<Rightarrow> string \<Rightarrow> exn + (string, string) dict" where
  "exposed_unit_info w u = and_then (sh w (unit_info_command u) 30 None) (\<lambda>d. Inr (info_pairs (cd_stdout d)))"

record unit_row =
  ur_name :: string
  ur_load :: string
  ur_active :: string
  ur_sub :: string
  ur_description :: string

fun unit_row_of :: "string list \<Rightarrow> unit_row option" where
  "unit_row_of (name # load # active # sub # rest) =
     Some \<lparr>ur_name = name, ur_load = load, ur_active = active, ur_sub = sub,
           ur_description = (case rest of [] \<Rightarrow> [] | r # _ \<Rightarrow> r)\<rparr>"
| "unit_row_of _ = None"

definition unit_rows :: "string \<Rightarrow> unit_row list" where
  "unit_rows out = List.map_filter (\<lambda>l. unit_row_of (split_max 4 l)) (splitlines out)"

definition exposed_list_units :: "guest_world \<Rightarrow> string \<Rightarrow> exn + unit_row list" where
  "exposed_list_units w pattern =
     and_then (sh w (''systemctl list-units --all --no-legend -- '' @ py_repr pattern) 30 None) (\<lambda>d.
       Inr (unit_rows (cd_stdout d)))"

definition exposed_journal :: "guest_world \<Rightarrow> string option \<Rightarrow> int \<Rightarrow> exn + string" where
  "exposed_journal w u n =
     (let scope = (case u of None \<Rightarrow> [] | Some x \<Rightarrow> if x = [] then [] else ''-u '' @ py_repr x) in
      and_then (sh w (''journalctl --no-pager -n '' @ show_int n @ '' '' @ scope) 30 None) (\<lambda>d. Inr (rstrip (cd_stdout d))))"

section \<open>Sockets and processes\<close>

text \<open>The port of one row of \<^verbatim>\<open>/proc/net/tcp\<close>, if its socket listens.\<close>

definition line_port :: "string \<Rightarrow> exn + int option" where
  "line_port l =
     (let fs = py_split l in
      if length fs > 3 \<and> fs ! 3 = ''0A''
      then (case py_rpartition (CHR '':'') (fs ! 1) of (_, sep, p) \<Rightarrow>
              if sep = [] then Inl (Exn ''IndexError'' ''list index out of range'')
              else (case py_int_hex p of
                      None \<Rightarrow> Inl (Exn ''ValueError'' (''invalid literal for int() with base 16: '' @ py_repr p))
                    | Some n \<Rightarrow> Inr (Some n)))
      else Inr None)"

definition family_ports :: "guest_world \<Rightarrow> string \<Rightarrow> exn + int list" where
  "family_ports w family =
     (case gw_text w (''/proc/net/'' @ family) of
        Inl e \<Rightarrow> if is_os_error e then Inr [] else Inl e
      | Inr t \<Rightarrow> and_then (map_result line_port (tl (splitlines t))) (\<lambda>os. Inr (List.map_filter id os)))"

definition exposed_listening :: "guest_world \<Rightarrow> exn + int list" where
  "exposed_listening w =
     and_then (map_result (family_ports w) [''tcp'', ''tcp6'']) (\<lambda>pss. Inr (sort (remdups (concat pss))))"

record process =
  pr_pid :: int
  pr_ppid :: int
  pr_name :: string
  pr_cmdline :: string

definition int_of :: "string \<Rightarrow> exn + int" where
  "int_of s =
     (case py_int s of
        None \<Rightarrow> Inl (Exn ''ValueError'' (''invalid literal for int() with base 10: '' @ py_repr s))
      | Some n \<Rightarrow> Inr n)"

text \<open>The name and the parent in \<^verbatim>\<open>stat\<close>.\<close>

definition stat_name :: "string \<Rightarrow> string" where
  "stat_name stat = (case py_rpartition (CHR '')'') stat of (head, _, _) \<Rightarrow> snd (snd (py_partition (CHR ''('') head)))"

definition stat_ppid :: "string \<Rightarrow> exn + int" where
  "stat_ppid stat =
     (case py_rpartition (CHR '')'') stat of (_, _, rest) \<Rightarrow>
        (let fs = py_split rest in if length fs > 1 then int_of (fs ! 1) else Inr 0))"

definition cmdline_text :: "guest_world \<Rightarrow> string \<Rightarrow> string" where
  "cmdline_text w raw = strip (gw_decode w (replace_char (CHR 0x00) '' '' raw))"

text \<open>One entry of \<^verbatim>\<open>/proc\<close>; \<^const>\<open>None\<close> for one that is no process, or none any more.\<close>

definition process_entry :: "guest_world \<Rightarrow> string \<Rightarrow> exn + process option" where
  "process_entry w name =
     (if \<not> py_isdigit name then Inr None
      else (case and_then (gw_text w (''/proc/'' @ name @ ''/stat'')) (\<lambda>stat.
               and_then (gw_bytes w (''/proc/'' @ name @ ''/cmdline'')) (\<lambda>raw. Inr (stat, raw))) of
          Inl e \<Rightarrow> if is_os_error e then Inr None else Inl e
        | Inr (stat, raw) \<Rightarrow>
            and_then (int_of name) (\<lambda>pid.
            and_then (stat_ppid stat) (\<lambda>ppid.
              Inr (Some \<lparr>pr_pid = pid, pr_ppid = ppid, pr_name = stat_name stat, pr_cmdline = cmdline_text w raw\<rparr>)))))"

definition exposed_processes :: "guest_world \<Rightarrow> exn + process list" where
  "exposed_processes w =
     and_then (gw_scan w) (\<lambda>names.
     and_then (map_result (process_entry w) names) (\<lambda>ps. Inr (sort_by (\<lambda>p q. pr_pid p \<le> pr_pid q) (List.map_filter id ps))))"

section \<open>Serving\<close>

text \<open>
  \<open>_serve\<close> and \<open>_accept_one\<close>, as the calls they make in order. A call raises or not as \<open>raises\<close> says of it and of the calls before it;
  what raises ends the agent, but for a socket path that is not there to be removed.
\<close>

datatype serve_call =
    Unlink string | Open_socket | Bind_socket string | Listen_socket | Print_ready | Accept_host | Close_server
  | Open_tty string | Read_line bool | Serve_forever

definition UNIX_PREFIX :: string where "UNIX_PREFIX = ''unix:''"

definition serve_calls :: "string \<Rightarrow> serve_call list" where
  "serve_calls tty =
     (if startswith tty UNIX_PREFIX
      then (let path = drop (length UNIX_PREFIX) tty in
        [Unlink path, Open_socket, Bind_socket path, Listen_socket, Print_ready, Accept_host, Close_server, Read_line False, Serve_forever])
      else [Open_tty tty, Read_line True, Print_ready, Serve_forever])"

definition suppressed :: "serve_call \<Rightarrow> exn \<Rightarrow> bool" where
  "suppressed x e \<longleftrightarrow> (case x of Unlink _ \<Rightarrow> (case e of Exn n _ \<Rightarrow> n = ''FileNotFoundError'' | Cancelled \<Rightarrow> False) | _ \<Rightarrow> False)"

fun serve_from :: "(serve_call list \<Rightarrow> exn option) \<Rightarrow> serve_call list \<Rightarrow> serve_call list \<Rightarrow> exn option \<times> serve_call list" where
  "serve_from raises made [] = (None, made)"
| "serve_from raises made (x # xs) =
     (case raises (made @ [x]) of
        Some e \<Rightarrow> if suppressed x e then serve_from raises (made @ [x]) xs else (Some e, made)
      | None \<Rightarrow> serve_from raises (made @ [x]) xs)"

definition serve :: "(serve_call list \<Rightarrow> exn option) \<Rightarrow> string \<Rightarrow> exn option \<times> serve_call list" where
  "serve raises tty = serve_from raises [] (serve_calls tty)"

section \<open>The ports that listen\<close>

text \<open>A socket as the kernel prints it in a row of \<^verbatim>\<open>/proc/net/tcp\<close>, with the port as four hexadecimal digits.\<close>

record socket_row =
  so_number :: string
  so_address :: string
  so_port :: nat
  so_peer :: string
  so_state :: string
  so_rest :: string

definition hex_digit :: "nat \<Rightarrow> char" where
  "hex_digit d = (if d < 10 then char_of (48 + d) else char_of (55 + d))"

definition hex4 :: "nat \<Rightarrow> string" where
  "hex4 n = map (\<lambda>k. hex_digit (n div 16 ^ k mod 16)) [3, 2, 1, 0]"

definition socket_line :: "socket_row \<Rightarrow> string" where
  "socket_line r =
     ''  '' @ so_number r @ '' '' @ (so_address r @ '':'' @ hex4 (so_port r)) @ '' '' @ so_peer r @ '' '' @ so_state r @ '' '' @ so_rest r"

definition is_word :: "string \<Rightarrow> bool" where
  "is_word s \<longleftrightarrow> s \<noteq> [] \<and> (\<forall>c\<in>set s. \<not> is_space c)"

definition row_ok :: "socket_row \<Rightarrow> bool" where
  "row_ok r \<longleftrightarrow> is_word (so_number r) \<and> is_word (so_address r) \<and> is_word (so_peer r) \<and> is_word (so_state r) \<and>
     so_port r < 2 ^ 16 \<and> (\<forall>c\<in>set (so_rest r). \<not> is_line_break c)"

definition proc_net :: "socket_row list \<Rightarrow> string" where
  "proc_net rows = concat (map (\<lambda>l. l @ [LF]) (''  sl  local_address rem_address   st'' # map socket_line rows))"

text \<open>A family the guest has is its table; one it has not cannot be opened.\<close>

definition shows_family :: "guest_world \<Rightarrow> string \<Rightarrow> socket_row list \<Rightarrow> bool" where
  "shows_family w family rows \<longleftrightarrow>
     (case gw_text w (''/proc/net/'' @ family) of
        Inr t \<Rightarrow> t = proc_net rows \<and> list_all row_ok rows
      | Inl e \<Rightarrow> is_os_error e \<and> rows = [])"

lemma of_char_hex_digit: "d < 16 \<Longrightarrow> (of_char (hex_digit d) :: nat) = (if d < 10 then 48 + d else 55 + d)"
  by (simp add: hex_digit_def)

lemma hex_val_digit: "d < 16 \<Longrightarrow> hex_val (hex_digit d) = Some d"
  by (simp add: hex_val_def of_char_hex_digit)

lemma hex_digit_plain:
  assumes "d < 16"
  shows "\<not> is_space (hex_digit d)" and "hex_digit d \<notin> {CHR ''-'', CHR ''+'', CHR ''x'', CHR ''X'', CHR '':''}"
proof -
  show "\<not> is_space (hex_digit d)" using assms by (auto simp: is_space_def of_char_hex_digit)
  have "(of_char (hex_digit d) :: nat) \<notin> of_char ` {CHR ''-'', CHR ''+'', CHR ''x'', CHR ''X'', CHR '':''}"
    using assms by (auto simp: of_char_hex_digit)
  then show "hex_digit d \<notin> {CHR ''-'', CHR ''+'', CHR ''x'', CHR ''X'', CHR '':''}" by blast
qed

lemma hex4_number:
  assumes "(n :: nat) < 2 ^ 16"
  shows "16 * (16 * (16 * (n div 16 ^ 3 mod 16) + n div 16 ^ 2 mod 16) + n div 16 ^ 1 mod 16) + n div 16 ^ 0 mod 16 = n"
proof -
  have "n div 16 ^ 3 < 16" using assms by (simp add: less_mult_imp_div_less)
  then have "n div 16 ^ 3 mod 16 = n div 16 ^ 3" by simp
  moreover have "16 * (n div 16 ^ 3) + n div 16 ^ 2 mod 16 = n div 16 ^ 2"
    using mult_div_mod_eq [of 16 "n div 16 ^ 2"] by (simp add: div_mult2_eq [symmetric])
  moreover have "16 * (n div 16 ^ 2) + n div 16 ^ 1 mod 16 = n div 16 ^ 1"
    using mult_div_mod_eq [of 16 "n div 16"] by (simp add: div_mult2_eq [symmetric])
  ultimately show ?thesis using mult_div_mod_eq [of 16 n] by simp
qed

lemma py_int_hex4:
  assumes "n < 2 ^ 16"
  shows "py_int_hex (hex4 n) = Some (int n)"
proof -
  define d where "d k = n div 16 ^ k mod 16" for k
  have d: "d k < 16" for k by (simp add: d_def)
  have h: "hex4 n = [hex_digit (d 3), hex_digit (d 2), hex_digit (d 1), hex_digit (d 0)]" by (simp add: hex4_def d_def)
  have ns: "\<not> is_space (hex_digit (d k))" for k by (rule hex_digit_plain(1) [OF d])
  have np: "hex_digit (d k) \<noteq> CHR ''-''" "hex_digit (d k) \<noteq> CHR ''+''" "hex_digit (d k) \<noteq> CHR ''x''" "hex_digit (d k) \<noteq> CHR ''X''" for k
    using hex_digit_plain(2) [OF d [of k]] by auto
  have "strip (hex4 n) = hex4 n" by (rule strip_word) (simp add: h ns)
  moreover have "\<not> hex_prefixed (hex4 n)"
    by (simp add: hex_prefixed_def startswith_def h np)
  then have "hex_body (hex4 n) = Some (16 * (16 * (16 * d 3 + d 2) + d 1) + d 0)"
    by (simp add: hex_body_def h hex_val_digit [OF d])
  then have "hex_body (hex4 n) = Some n" using hex4_number [OF assms] by (simp only: d_def)
  ultimately show ?thesis by (simp add: py_int_hex_def h np)
qed

lemma line_port_row:
  assumes "row_ok r"
  shows "line_port (socket_line r) = Inr (if so_state r = ''0A'' then Some (int (so_port r)) else None)"
proof -
  have hx: "\<forall>c\<in>set (hex4 n). \<not> is_space c \<and> c \<noteq> CHR '':''" for n
    using hex_digit_plain by (auto simp: hex4_def)
  have w: "is_word (so_address r @ '':'' @ hex4 (so_port r))"
    using assms hx by (auto simp: row_ok_def is_word_def is_space_def)
  have sp: "is_space (CHR '' '')" by (simp add: is_space_def)
  have sm: "py_split (x @ '' '' @ s) = x # py_split s" if "is_word x" for x s
    using that sp py_split_word by (simp add: is_word_def)
  have sm': "py_split (x @ CHR '' '' # s) = x # py_split s" if "is_word x" for x s
    using sm [OF that] by simp
  have split: "py_split (socket_line r) =
      [so_number r, so_address r @ '':'' @ hex4 (so_port r), so_peer r, so_state r] @ py_split (so_rest r)"
    using assms w unfolding socket_line_def row_ok_def
    by (simp only: sm' append_Cons append_Nil py_split_space [OF sp])
  have "py_rpartition (CHR '':'') (so_address r @ '':'' @ hex4 (so_port r)) = (so_address r, '':'', hex4 (so_port r))"
    using py_rpartition_found [of "CHR '':''" "hex4 (so_port r)" "so_address r"] hx [of "so_port r"] by auto
  moreover have "so_port r < 2 ^ 16" using assms by (simp add: row_ok_def)
  ultimately show ?thesis by (simp add: line_port_def split Let_def py_int_hex4)
qed

lemma row_line_plain:
  assumes "row_ok r"
  shows "\<forall>c\<in>set (socket_line r). \<not> is_line_break c"
proof -
  have "is_line_break c \<Longrightarrow> is_space c" for c by (auto simp: is_line_break_def is_space_def Let_def)
  moreover have "\<not> is_line_break (CHR '' '')" "\<not> is_line_break (CHR '':'')" by (simp_all add: is_line_break_def)
  moreover have "\<forall>c\<in>set (hex4 (so_port r)). \<not> is_space c" using hex_digit_plain(1) by (auto simp: hex4_def)
  ultimately show ?thesis using assms by (auto simp: socket_line_def row_ok_def is_word_def)
qed

lemma map_result_rows:
  "list_all row_ok rows \<Longrightarrow> map_result line_port (map socket_line rows) =
     Inr (map (\<lambda>r. if so_state r = ''0A'' then Some (int (so_port r)) else None) rows)"
  by (induction rows) (simp_all add: line_port_row)

definition listens :: "socket_row \<Rightarrow> bool" where
  "listens r \<longleftrightarrow> so_state r = ''0A''"

lemma picked_ports:
  "List.map_filter id (map (\<lambda>r. if so_state r = ''0A'' then Some (int (so_port r)) else None) rows) =
     map (\<lambda>r. int (so_port r)) (filter listens rows)"
  by (induction rows) (simp_all add: List.map_filter_simps listens_def)

lemma family_ports_shown:
  assumes "shows_family w family rows"
  shows "family_ports w family = Inr (map (\<lambda>r. int (so_port r)) (filter listens rows))"
proof (cases "gw_text w (''/proc/net/'' @ family)")
  case (Inl e)
  with assms show ?thesis by (simp add: shows_family_def family_ports_def)
next
  case (Inr t)
  with assms have t: "t = proc_net rows" and ok: "list_all row_ok rows" by (simp_all add: shows_family_def)
  have head: "\<forall>c\<in>set ''  sl  local_address rem_address   st''. \<not> is_line_break c" by (simp add: is_line_break_def)
  have "splitlines (proc_net rows) = ''  sl  local_address rem_address   st'' # map socket_line rows"
    unfolding proc_net_def by (rule splitlines_lines) (use ok head row_line_plain in \<open>auto simp: list_all_iff\<close>)
  then show ?thesis unfolding family_ports_def Inr t by (simp add: map_result_rows [OF ok] picked_ports)
qed


definition demo_rows :: "socket_row list" where
  "demo_rows =
     [\<lparr>so_number = ''0:'', so_address = ''0100007F'', so_port = 8080, so_peer = ''00000000:0000'', so_state = ''0A'', so_rest = ''0 0''\<rparr>,
      \<lparr>so_number = ''1:'', so_address = ''0100007F'', so_port = 22, so_peer = ''0100007F:A000'', so_state = ''01'', so_rest = ''0 0''\<rparr>]"

text \<open>A guest without IPv6.\<close>

definition demo_guest_world :: guest_world where
  "demo_guest_world =
     \<lparr>gw_environ = [], gw_run = (\<lambda>_ _ _. Inl (Exn ''OSError'' [])),
      gw_text = (\<lambda>p. if p = ''/proc/net/tcp'' then Inr (proc_net demo_rows) else Inl (Exn ''FileNotFoundError'' [])),
      gw_bytes = (\<lambda>_. Inr []), gw_scan = Inr [], gw_decode = (\<lambda>s. s)\<rparr>"


section \<open>Names and parents of processes\<close>

text \<open>\<^verbatim>\<open>stat\<close> as the kernel prints it; the rest after the parent has no bracket.\<close>

definition stat_text :: "nat \<Rightarrow> string \<Rightarrow> string \<Rightarrow> nat \<Rightarrow> string \<Rightarrow> string" where
  "stat_text pid comm st ppid rest = show_nat pid @ '' ('' @ comm @ '') '' @ st @ '' '' @ show_nat ppid @ '' '' @ rest"

lemma digit_plain: "is_digit c \<Longrightarrow> \<not> is_space c \<and> c \<notin> {CHR ''-'', CHR ''+'', CHR ''('', CHR '')''}"
  by (auto simp: is_digit_def is_space_def Let_def)

lemma stat_parts:
  assumes "CHR '')'' \<notin> set st" and "CHR '')'' \<notin> set rest"
  shows "py_rpartition (CHR '')'') (stat_text pid comm st ppid rest) =
    (show_nat pid @ '' ('' @ comm, '')'', '' '' @ st @ '' '' @ show_nat ppid @ '' '' @ rest)"
proof -
  have "CHR '')'' \<notin> set (show_nat ppid)" using show_nat_not [of "CHR '')''"] by (simp add: is_digit_def)
  with assms have n: "CHR '')'' \<notin> set ('' '' @ st @ '' '' @ show_nat ppid @ '' '' @ rest)" by auto
  have "stat_text pid comm st ppid rest = (show_nat pid @ '' ('' @ comm) @ CHR '')'' # ('' '' @ st @ '' '' @ show_nat ppid @ '' '' @ rest)"
    by (simp add: stat_text_def)
  then show ?thesis using py_rpartition_found [OF n] by metis
qed

lemma process_entry_exact:
  assumes "is_word st" and "CHR '')'' \<notin> set st" and "CHR '')'' \<notin> set rest"
    and "gw_text w (''/proc/'' @ show_nat pid @ ''/stat'') = Inr (stat_text pid comm st ppid rest)"
    and "gw_bytes w (''/proc/'' @ show_nat pid @ ''/cmdline'') = Inr raw"
  shows "process_entry w (show_nat pid) =
    Inr (Some \<lparr>pr_pid = int pid, pr_ppid = int ppid, pr_name = comm, pr_cmdline = cmdline_text w raw\<rparr>)"
proof -
  have sp: "is_space (CHR '' '')" by (simp add: is_space_def)
  have d: "\<forall>c\<in>set (show_nat n). is_digit c" for n using show_nat_digits by blast
  then have "CHR ''('' \<notin> set (show_nat pid @ '' '')" using digit_plain by fastforce
  then have "py_partition (CHR ''('') ((show_nat pid @ '' '') @ CHR ''('' # comm) = (show_nat pid @ '' '', ''('', comm)"
    by (rule py_partition_found)
  then have name: "stat_name (stat_text pid comm st ppid rest) = comm"
    by (simp add: stat_name_def stat_parts [OF assms(2,3)])
  have w: "\<forall>c\<in>set st. \<not> is_space c" "st \<noteq> []" using assms(1) by (auto simp: is_word_def)
  have ns: "\<forall>c\<in>set (show_nat ppid). \<not> is_space c" using d digit_plain by blast
  have "py_split ('' '' @ st @ '' '' @ show_nat ppid @ '' '' @ rest) = st # show_nat ppid # py_split rest"
    using py_split_word [OF w(2,1) sp] py_split_word [OF show_nat_nonempty ns sp] py_split_space [OF sp] by simp
  then have "stat_ppid (stat_text pid comm st ppid rest) = Inr (int ppid)"
    by (simp add: stat_ppid_def stat_parts [OF assms(2,3)] int_of_def)
  moreover have "py_isdigit (show_nat pid)" using d [of pid] by (auto simp: py_isdigit_def list_all_iff)
  ultimately show ?thesis unfolding process_entry_def using name assms(4,5) by (simp add: int_of_def)
qed

section \<open>Unit names and the shell\<close>

text \<open>A word the shell reads between two single quotes, as it is.\<close>

definition shell_quoted :: "string \<Rightarrow> string option" where
  "shell_quoted s =
     (case s of
        [] \<Rightarrow> None
      | q # r \<Rightarrow> if q = CHR 0x27 \<and> r \<noteq> [] \<and> last r = CHR 0x27 \<and> CHR 0x27 \<notin> set (butlast r) then Some (butlast r) else None)"

definition plain_name :: "string \<Rightarrow> bool" where
  "plain_name u \<longleftrightarrow> list_all (\<lambda>c. 32 \<le> (of_char c :: nat) \<and> (of_char c :: nat) < 127 \<and> c \<noteq> CHR 0x27) u"

definition doubled :: "string \<Rightarrow> string" where
  "doubled u = concat (map (\<lambda>c. if c = CHR 0x5C then [CHR 0x5C, CHR 0x5C] else [c]) u)"

lemma repr_plain: "plain_name u \<Longrightarrow> py_repr u = CHR 0x27 # doubled u @ [CHR 0x27]"
  by (induction u) (auto simp: plain_name_def doubled_def py_repr_def repr_char_def Let_def)

lemma length_doubled: "length (doubled u) = length u + length (filter (\<lambda>c. c = CHR 0x5C) u)"
  by (induction u) (auto simp: doubled_def)

theorem unit_name_quoted:
  assumes "plain_name u"
  shows "shell_quoted (py_repr u) = Some (doubled u) \<and> (doubled u = u \<longleftrightarrow> CHR 0x5C \<notin> set u)"
proof -
  have "CHR 0x27 \<notin> set (doubled u)" using assms by (auto simp: doubled_def plain_name_def list_all_iff split: if_splits)
  moreover have "doubled u = u" if "CHR 0x5C \<notin> set u" using that by (induction u) (auto simp: doubled_def)
  moreover have "CHR 0x5C \<notin> set u" if "doubled u = u"
  proof -
    have "filter (\<lambda>c. c = CHR 0x5C) u = []" using length_doubled [of u] that by simp
    then show ?thesis by (auto simp: filter_empty_conv)
  qed
  ultimately show ?thesis by (auto simp: repr_plain [OF assms] shell_quoted_def)
qed

section \<open>The columns of a unit\<close>

lemma takeWhile_word:
  assumes "is_word x" and "is_space d"
  shows "takeWhile (\<lambda>c. \<not> is_space c) (x @ d # s) = x" and "dropWhile (\<lambda>c. \<not> is_space c) (x @ d # s) = d # s"
  using assms by (auto simp: is_word_def takeWhile_append2 dropWhile_append2)

lemma lstrip_word: "is_word x \<Longrightarrow> lstrip (x @ s) = x @ s"
  by (cases x) (auto simp: lstrip_def is_word_def)

lemma split_max_space: "is_space d \<Longrightarrow> split_max n (d # s) = split_max n s"
  by (cases n) (simp_all add: lstrip_def)

lemma split_max_word:
  assumes "is_word x" and "is_space d"
  shows "split_max (Suc n) (x @ d # s) = x # split_max n s"
proof -
  have l: "lstrip (x @ d # s) = x @ d # s" and "x \<noteq> []"
    using assms(1) by (auto intro: lstrip_word simp: is_word_def)
  then show ?thesis unfolding split_max.simps Let_def l takeWhile_word [OF assms] split_max_space [OF assms(2)] by simp
qed

definition spaced :: "string list \<Rightarrow> string \<Rightarrow> string" where
  "spaced xs s = concat (map (\<lambda>x. x @ '' '') xs) @ s"

lemma split_max_spaced:
  "list_all is_word xs \<Longrightarrow> split_max (length xs + n) (spaced xs s) = xs @ split_max n s"
proof (induction xs)
  case (Cons x xs)
  have "is_space (CHR '' '')" by (simp add: is_space_def)
  with Cons show ?case using split_max_word [of x "CHR '' ''" "length xs + n" "spaced xs s"]
    by (simp add: spaced_def del: split_max.simps)
qed (simp add: spaced_def)

text \<open>
  A row of four words and a description is read column by column. \<open>systemctl\<close> puts a mark in front of the row of a
  unit that failed or was not found, unless it is run with \<open>--plain\<close>; then the mark is the name and every
  column is one to the right.
\<close>

lemma unit_columns:
  assumes "list_all is_word [name, load, active, sub]" and "is_word d"
  shows "unit_row_of (split_max 4 (spaced [name, load, active, sub] (d @ rest))) =
      Some \<lparr>ur_name = name, ur_load = load, ur_active = active, ur_sub = sub, ur_description = d @ rest\<rparr>"
    and "is_word mark \<Longrightarrow> unit_row_of (split_max 4 (spaced [mark, name, load, active, sub] (d @ rest))) =
      Some \<lparr>ur_name = mark, ur_load = name, ur_active = load, ur_sub = active, ur_description = sub @ '' '' @ d @ rest\<rparr>"
proof -
  have z: "split_max 0 (x @ s) = [x @ s]" if "is_word x" for x s
    using that by (auto simp: lstrip_word is_word_def)
  have four: "split_max 4 = split_max (Suc (Suc (Suc (Suc 0))))" by (simp add: eval_nat_numeral)
  show "unit_row_of (split_max 4 (spaced [name, load, active, sub] (d @ rest))) =
      Some \<lparr>ur_name = name, ur_load = load, ur_active = active, ur_sub = sub, ur_description = d @ rest\<rparr>"
    using split_max_spaced [OF assms(1), of 0 "d @ rest"] by (simp add: four z [OF assms(2)] del: split_max.simps)
  show "unit_row_of (split_max 4 (spaced [mark, name, load, active, sub] (d @ rest))) =
      Some \<lparr>ur_name = mark, ur_load = name, ur_active = load, ur_sub = active, ur_description = sub @ '' '' @ d @ rest\<rparr>"
    if "is_word mark"
  proof -
    have "spaced [mark, name, load, active, sub] (d @ rest) = spaced [mark, name, load, active] (sub @ '' '' @ d @ rest)"
      by (simp add: spaced_def)
    then show ?thesis using split_max_spaced [of "[mark, name, load, active]" 0 "sub @ '' '' @ d @ rest"] assms(1) that
        z [of sub "'' '' @ d @ rest"] by (simp add: four del: split_max.simps)
  qed
qed

section \<open>Serving\<close>

lemma serve_from_prefix: "serve_from raises made xs = (e, all) \<Longrightarrow> \<exists>n. all = made @ take n xs"
proof (induction raises made xs rule: serve_from.induct)
  case (1 raises made)
  then show ?case by auto
next
  case (2 raises made x xs)
  have step: "\<exists>n. all = made @ take n (x # xs)" if "\<exists>n. all = (made @ [x]) @ take n xs"
    using that by (metis append.assoc append_Cons append_Nil take_Suc_Cons)
  show ?case
  proof (cases "raises (made @ [x])")
    case None
    then show ?thesis using 2 step by simp
  next
    case (Some ex)
    show ?thesis
    proof (cases "suppressed x ex")
      case True
      then show ?thesis using 2 Some step by simp
    next
      case False
      then show ?thesis using 2 Some by (auto intro: exI [of _ 0])
    qed
  qed
qed

text \<open>The host connects when it sees the line, and at that moment the agent is there to be heard.\<close>

lemma ready_when_heard:
  assumes "serve raises tty = (e, made)" and "n < length made" and "made ! n = Print_ready"
  shows "Listen_socket \<in> set (take n made) \<or> Read_line True \<in> set (take n made)"
proof -
  obtain k where m: "made = take k (serve_calls tty)"
    using serve_from_prefix assms(1) unfolding serve_def by fastforce
  then have n: "n < length (serve_calls tty)" "serve_calls tty ! n = Print_ready" "take n made = take n (serve_calls tty)"
    using assms(2,3) by (auto simp: min_def split: if_splits)
  show ?thesis
  proof (cases "startswith tty UNIX_PREFIX")
    case True
    then have "n = 4" using n(1,2) by (auto simp: serve_calls_def Let_def nth_Cons split: nat.splits)
    then show ?thesis using n(3) True by (simp add: serve_calls_def Let_def)
  next
    case False
    then have "n = 2" using n(1,2) by (auto simp: serve_calls_def nth_Cons split: nat.splits)
    then show ?thesis using n(3) False by (simp add: serve_calls_def numeral_2_eq_2)
  qed
qed

section \<open>The environment of a command\<close>

lemma fold_update_lookup:
  "map_of (fold (\<lambda>(k, v). AList.update k v) kvs d) k = (case map_of (rev kvs) k of None \<Rightarrow> map_of d k | Some v \<Rightarrow> Some v)"
  by (induction kvs arbitrary: d) (auto simp: map_add_def split: option.splits)

text \<open>A command's own variables win over the guest's, and no one's \<open>PATH\<close> over the agent's.\<close>

lemma sh_env_lookup:
  "map_of (sh_env environ env) k =
     (if k = ''PATH'' then Some GUEST_PATH
      else (case map_of (rev (case env of None \<Rightarrow> [] | Some e \<Rightarrow> e)) k of None \<Rightarrow> map_of environ k | Some v \<Rightarrow> Some v))"
  by (simp add: sh_env_def fold_update_lookup)

end
