(* ===== verification/Machine_Calls.thy ===== *)
theory Machine_Calls
  imports Machine Agent
begin

text \<open>
  The methods of \<open>Machine\<close> (\<^verbatim>\<open>src/pkgs/uml-runner/uml_runner/machine.py\<close>) that put a question to the agent or to the
  guest's memory control. The host's half is \<open>ask_agent\<close> of \<open>Machine\<close>, the guest's half a call of \<open>Agent\<close>; between
  them is the connection, of which a call sees whether its answer came: \<open>sent\<close> says so, and how long it took.
\<close>

section \<open>A question and its answer\<close>

datatype delivery = Delivered | Timed_out_waiting | Connection_ended

record sent =
  se_delivery :: delivery
  se_took :: seconds

text \<open>An exception of the agent's is raised again by the host.\<close>

definition answered_by :: "delivery \<Rightarrow> exn + 'a \<Rightarrow> 'a answered" where
  "answered_by d r =
     (case d of
        Delivered \<Rightarrow> (case r of Inl e \<Rightarrow> Call_raised e | Inr x \<Rightarrow> Answer x)
      | Timed_out_waiting \<Rightarrow> No_answer
      | Connection_ended \<Rightarrow> Went_away)"

definition question :: "sent \<Rightarrow> string \<Rightarrow> exn + 'a \<Rightarrow> machine \<Rightarrow> (exn + 'a) \<times> machine" where
  "question s what r m = ask_agent what (answered_by (se_delivery s) r) (se_took s) m"

definition unit_state :: "guest_world \<Rightarrow> sent \<Rightarrow> string \<Rightarrow> machine \<Rightarrow> (exn + string) \<times> machine" where
  "unit_state g s u m = question s (''unit_state '' @ u) (exposed_unit_state g u) m"

definition unit_info :: "guest_world \<Rightarrow> sent \<Rightarrow> string \<Rightarrow> machine \<Rightarrow> (exn + (string, string) dict) \<times> machine" where
  "unit_info g s u m = question s (''unit_info '' @ u) (exposed_unit_info g u) m"

definition list_units :: "guest_world \<Rightarrow> sent \<Rightarrow> string \<Rightarrow> machine \<Rightarrow> (exn + unit_row list) \<times> machine" where
  "list_units g s pattern m = question s (''list_units '' @ pattern) (exposed_list_units g pattern) m"

definition listening :: "guest_world \<Rightarrow> sent \<Rightarrow> machine \<Rightarrow> (exn + int list) \<times> machine" where
  "listening g s m = question s ''listening'' (exposed_listening g) m"

definition processes :: "guest_world \<Rightarrow> sent \<Rightarrow> machine \<Rightarrow> (exn + process list) \<times> machine" where
  "processes g s m = question s ''processes'' (exposed_processes g) m"

definition how_many_processes :: "guest_world \<Rightarrow> sent \<Rightarrow> string \<Rightarrow> machine \<Rightarrow> (exn + nat) \<times> machine" where
  "how_many_processes g s pattern m =
     (case processes g s m of
        (Inl e, m1) \<Rightarrow> (Inl e, m1)
      | (Inr ps, m1) \<Rightarrow> (Inr (count_processes pattern (map (\<lambda>p. (pr_name p, pr_cmdline p)) ps)), m1))"

definition journal :: "guest_world \<Rightarrow> sent \<Rightarrow> string option \<Rightarrow> int \<Rightarrow> machine \<Rightarrow> (exn + string) \<times> machine" where
  "journal g s u n m =
     question s (''journal '' @ (case u of None \<Rightarrow> ''all'' | Some x \<Rightarrow> if x = [] then ''all'' else x)) (exposed_journal g u n) m"

section \<open>Waits\<close>

text \<open>\<open>recorder.waiting\<close> around a body: the wait is one step, however the body ends.\<close>

definition waiting :: "string \<Rightarrow> (machine \<Rightarrow> 'a \<times> machine) \<Rightarrow> machine \<Rightarrow> 'a \<times> machine" where
  "waiting what body m =
     (case body m of (r, m1) \<Rightarrow> (r, m1\<lparr>ma_report := report_waited (ma_now m) (ma_now m1) (ma_name m) what (ma_report m1)\<rparr>))"

text \<open>
  \<open>_wait_for_unit\<close> as a loop over the world at each poll: the guest as it is then and how the call went, with the
  journal it would answer; half a second passes between two polls. \<^const>\<open>None\<close> while it still waits.
\<close>

record unit_poll =
  up_guest :: guest_world
  up_sent :: sent
  up_journal :: sent

definition unit_failure :: "unit_poll \<Rightarrow> string \<Rightarrow> string \<Rightarrow> machine \<Rightarrow> (exn + unit) \<times> machine" where
  "unit_failure p u why m =
     (case journal (up_guest p) (up_journal p) (Some u) 50 m of
        (Inl e, m1) \<Rightarrow> (Inl e, m1)
      | (Inr j, m1) \<Rightarrow> (Inl (MachineError (tagged m1 (why @ j))), m1))"

fun poll_unit :: "string \<Rightarrow> seconds \<Rightarrow> unit_poll list \<Rightarrow> machine \<Rightarrow> (exn + unit) option \<times> machine" where
  "poll_unit u deadline [] m = (None, m)"
| "poll_unit u deadline (p # ps) m =
     (case unit_state (up_guest p) (up_sent p) u m of
        (Inl e, m1) \<Rightarrow> (Some (Inl e), m1)
      | (Inr st, m1) \<Rightarrow>
          if st = ''active'' then (Some (Inr ()), m1)
          else if st = ''failed'' then
            (case unit_failure p u (''unit '' @ u @ '' failed:'' @ [LF]) m1 of (r, m2) \<Rightarrow> (Some r, m2))
          else if ma_now m1 > deadline then
            (case unit_failure p u (''timed out waiting for unit '' @ u @ '' (state: '' @ st @ '')'' @ [LF]) m1 of
               (r, m2) \<Rightarrow> (Some r, m2))
          else poll_unit u deadline ps (m1\<lparr>ma_now := ma_now m1 + 1 / 2\<rparr>))"

definition await_unit :: "string \<Rightarrow> seconds \<Rightarrow> unit_poll list \<Rightarrow> machine \<Rightarrow> (exn + unit) option \<times> machine" where
  "await_unit u timeout ps m = waiting (''unit '' @ u) (poll_unit u (ma_now m + timeout) ps) m"

section \<open>Memory\<close>

definition drop_caches :: "(int \<times> string) answered \<Rightarrow> seconds \<Rightarrow> machine \<Rightarrow> (exn + string) \<times> machine" where
  "drop_caches ans took m = succeed ''sync; echo 3 > /proc/sys/vm/drop_caches'' ans took m"

text \<open>
  \<open>host_memory_kib\<close>: the text of a pid file, and the entries of \<^verbatim>\<open>/proc/<pid>/fd\<close>, or what listing them raises.
\<close>

definition size_or_error :: "int option \<Rightarrow> exn + int" where
  "size_or_error r = (case r of None \<Rightarrow> Inl (Exn ''ValueError'' []) | Some n \<Rightarrow> Inr n)"

definition memory_pid :: "(string \<Rightarrow> exn + string) \<Rightarrow> machine \<Rightarrow> exn + string" where
  "memory_pid read m =
     (case ma_pid m of
        None \<Rightarrow> Inl (MachineError (tagged m ''is not running''))
      | Some pid \<Rightarrow>
         (case ma_pid_file m of
            None \<Rightarrow> Inr (show_nat pid)
          | Some f \<Rightarrow>
             (case read f of
                Inr t \<Rightarrow> Inr (strip t)
              | Inl e \<Rightarrow> if is_os_error e then Inl (MachineError (tagged m (''no pid file: '' @ ex_text e))) else Inl e)))"

definition host_memory_kib ::
  "(string \<Rightarrow> exn + string) \<Rightarrow> (string \<Rightarrow> exn + (string \<times> int \<times> nat) option list) \<Rightarrow> machine \<Rightarrow> exn + nat" where
  "host_memory_kib read fds m =
     and_then (memory_pid read m) (\<lambda>pid.
     and_then (size_or_error (memory_bytes (mp_memory (ma_spec m)))) (\<lambda>want.
     and_then (fds (''/proc/'' @ pid @ ''/fd'')) (\<lambda>es.
       case memory_file want None es of
         Some kib \<Rightarrow> Inr kib
       | None \<Rightarrow> Inl (MachineError (tagged m (''found no memory file under /proc/'' @ pid @ ''/fd''))))))"

text \<open>
  \<open>_balloon\<close>; the control channel answers, refuses (\<open>MconsoleError\<close>, \<open>QmpError\<close>), or raises something else, after some time.
\<close>

definition is_control_error :: "exn \<Rightarrow> bool" where
  "is_control_error e = (case e of Exn n _ \<Rightarrow> n \<in> {''MconsoleError'', ''QmpError''} | Cancelled \<Rightarrow> False)"

definition moved :: "exn option \<Rightarrow> seconds \<Rightarrow> machine \<Rightarrow> exn option \<times> machine" where
  "moved r took m =
     (case r of
        None \<Rightarrow> None
      | Some e \<Rightarrow> Some (if is_control_error e then MachineError (tagged m (ex_text e)) else e),
      m\<lparr>ma_now := ma_now m + took\<rparr>)"

definition move_balloon :: "(int \<Rightarrow> exn option) \<Rightarrow> seconds \<Rightarrow> int \<Rightarrow> machine \<Rightarrow> exn option \<times> machine" where
  "move_balloon control took delta m =
     (if \<not> ma_memory m
      then (Some (MachineError (tagged m ''has no control channel for its memory, so it cannot be resized'')), m)
      else waiting (''balloon '' @ show_int (delta div 1024 div 1024) @ ''M'') (moved (control delta) took) m)"

definition shrink :: "(int \<Rightarrow> exn option) \<Rightarrow> seconds \<Rightarrow> string \<Rightarrow> machine \<Rightarrow> exn option \<times> machine" where
  "shrink control took amount m =
     (case size_or_error (memory_bytes amount) of Inl e \<Rightarrow> (Some e, m) | Inr n \<Rightarrow> move_balloon control took (- n) m)"

definition grow_memory :: "(int \<Rightarrow> exn option) \<Rightarrow> seconds \<Rightarrow> string \<Rightarrow> machine \<Rightarrow> exn option \<times> machine" where
  "grow_memory control took amount m =
     (case size_or_error (memory_bytes amount) of Inl e \<Rightarrow> (Some e, m) | Inr n \<Rightarrow> move_balloon control took n m)"

section \<open>What an answer says\<close>

lemma question_answers: "fst (question s what r m) = Inr x \<Longrightarrow> r = Inr x \<and> se_delivery s = Delivered"
  by (auto simp: question_def ask_agent_def ask_def answered_by_def Let_def
      split: if_splits delivery.splits sum.splits answered.splits)

text \<open>A wait for a unit that ends well has heard from the guest that the unit is active.\<close>

lemma poll_unit_active:
  "poll_unit u deadline ps m = (Some (Inr ()), m') \<Longrightarrow> \<exists>p\<in>set ps. exposed_unit_state (up_guest p) u = Inr ''active''"
proof (induction ps arbitrary: m)
  case (Cons p ps)
  obtain r m1 where q: "unit_state (up_guest p) (up_sent p) u m = (r, m1)" by force
  show ?case
  proof (cases "r = Inr ''active''")
    case True
    with q have "fst (question (up_sent p) (''unit_state '' @ u) (exposed_unit_state (up_guest p) u) m) = Inr ''active''"
      by (simp add: unit_state_def)
    with question_answers show ?thesis by force
  next
    case False
    have f: "unit_failure p u why m1 \<noteq> (Inr (), m2)" for why m2
      by (auto simp: unit_failure_def split: prod.splits sum.splits)
    from False Cons.prems q f obtain m2 where "poll_unit u deadline ps m2 = (Some (Inr ()), m')"
      by (auto split: sum.splits prod.splits if_splits)
    with Cons.IH show ?thesis by auto
  qed
qed simp

lemma await_unit_active:
  "await_unit u timeout ps m = (Some (Inr ()), m') \<Longrightarrow> \<exists>p\<in>set ps. exposed_unit_state (up_guest p) u = Inr ''active''"
  by (auto simp: await_unit_def waiting_def split: prod.splits intro: poll_unit_active)

section \<open>Calls one after the other\<close>

text \<open>
  C17: A call that starts when the one before it has ended may not be counted at all. \<open>Report.step\<close> rounds the
  start and the length of a step apart, so the first may seem to end up to a millisecond after the second begins, and
  \<open>_toplevel\<close> takes the second for one inside the first. Here, however long the second call takes, what the
  report says was recorded is the first one's second.
\<close>

theorem second_call_not_counted:
  "toplevel (rp_steps (ma_report (snd (ask what2 ans2 secs (snd (ask what1 ans1 (10008 / 10000)
     ((new_machine spec 0)\<lparr>ma_now := 6 / 10000\<rparr>))))))) = 1001 / 1000"
proof -
  have r: "py_round 3 (3 / 5000) = 1 / 1000" "py_round 3 (1251 / 1250) = 1001 / 1000" "py_round 3 (5007 / 5000) = 1001 / 1000"
    by code_simp+
  show ?thesis
    by (simp add: ask_def Let_def new_machine_def new_report_def report_step_def toplevel_def sort_by_def step_le_def r)
qed

end
