(* ===== verification/Arpyc.thy ===== *)
theory Arpyc
  imports Py_Strings "HOL-Library.Word"
begin

text \<open>
  The remote procedure calls between the runner and a guest (\<open>uml_runner/arpyc.py\<close>), from
  the bytes up: the stream over a file descriptor, the framing of \<open>Channel\<close>, the boxing of
  lists and dictionaries, and \<open>AsyncConnection\<close> with its table of calls that wait for a
  reply.

  rpyc itself is not part of the repository. What the code takes from it are arguments here:
  \<open>inflate\<close> (\<open>zlib.decompress\<close>), \<open>dumpable\<close> (\<open>brine.dumpable\<close>), \<open>rebuilt\<close> (what
  \<open>vinegar.load\<close> makes of a dumped exception) and the methods of the service.
\<close>

type_synonym byte = "8 word"

section \<open>Frames\<close>

text \<open>
  \<open>struct.Struct("!LB")\<close>: four bytes of length, the most significant first, and the flag.
  \<open>pack\<close> refuses a number that does not fit.
\<close>

definition be32 :: "nat \<Rightarrow> byte list" where
  "be32 n = map (\<lambda>i. word_of_nat (n div 256 ^ i)) [3, 2, 1, 0]"

definition unbe :: "byte list \<Rightarrow> nat" where
  "unbe bs = foldl (\<lambda>n b. 256 * n + unat b) 0 bs"

definition header_size :: nat where
  "header_size = 5"

definition pack_header :: "nat \<Rightarrow> byte \<Rightarrow> byte list option" where
  "pack_header n flag = (if n < 2 ^ 32 then Some (be32 n @ [flag]) else None)"

definition unpack_header :: "byte list \<Rightarrow> nat \<times> bool" where
  "unpack_header h = (unbe (take 4 h), h ! 4 \<noteq> 0)"

definition flusher :: "byte list" where
  "flusher = [10]"

text \<open>\<open>Channel.send\<close>: never compressed; \<^const>\<open>None\<close> is the \<open>struct.error\<close>.\<close>

definition frame_bytes :: "byte list \<Rightarrow> byte list option" where
  "frame_bytes data = map_option (\<lambda>h. h @ data @ flusher) (pack_header (length data) 0)"

text \<open>
  \<open>Channel.recv\<close> is suspended either before the header or, the header read, before the
  payload and its flusher. Only the length decides where the payload ends.
\<close>

datatype stage = Want_header | Want_body nat bool

text \<open>Both reads of \<open>recv\<close>, as often as the buffer has the bytes they ask for.\<close>

function (sequential) pump :: "(byte list \<Rightarrow> byte list) \<Rightarrow> stage \<Rightarrow> byte list \<Rightarrow> byte list list \<times> stage \<times> byte list"
  where
  "pump inflate Want_header buf =
     (if length buf < header_size then ([], Want_header, buf)
      else (case unpack_header (take header_size buf) of (n, z) \<Rightarrow>
        pump inflate (Want_body n z) (drop header_size buf)))"
| "pump inflate (Want_body n z) buf =
     (if length buf < n + length flusher then ([], Want_body n z, buf)
      else (let whole = take (n + length flusher) buf;
                data = take (length whole - length flusher) whole;
                got = (if z then inflate data else data)
            in case pump inflate Want_header (drop (n + length flusher) buf) of (ds, s, rest) \<Rightarrow>
                 (got # ds, s, rest)))"
  by pat_completeness auto
termination
  by (relation "measure (\<lambda>(f, s, buf). length buf)") (auto simp: header_size_def flusher_def)

declare pump.simps [simp del]

text \<open>What a receiver has got after each piece the descriptor delivered.\<close>

fun receive :: "(byte list \<Rightarrow> byte list) \<Rightarrow> stage \<Rightarrow> byte list \<Rightarrow> byte list list \<Rightarrow> byte list list" where
  "receive inflate s buf [] = []"
| "receive inflate s buf (p # ps) =
     (case pump inflate s (buf @ p) of (ds, s', rest) \<Rightarrow> ds @ receive inflate s' rest ps)"

lemma length_be32 [simp]: "length (be32 n) = 4"
  by (simp add: be32_def)

lemma unbe_be32:
  assumes "n < 2 ^ 32"
  shows "unbe (be32 n) = n"
proof -
  have *: "unat (word_of_nat m :: byte) = m mod 256" for m :: nat
    by (simp add: unat_of_nat)
  have "unbe (be32 n) = 256 * (256 * (256 * (n div 16777216 mod 256) + n div 65536 mod 256)
     + n div 256 mod 256) + n mod 256"
    by (simp add: be32_def unbe_def * algebra_simps)
  also have "\<dots> = n"
  proof -
    have "n div 16777216 < 256" using assms by (simp add: less_mult_imp_div_less)
    moreover have "n div 65536 = n div 256 div 256" "n div 16777216 = n div 65536 div 256"
      by (simp_all flip: div_mult2_eq)
    ultimately show ?thesis by simp
  qed
  finally show ?thesis .
qed

lemma pack_header_length: "pack_header n f = Some h \<Longrightarrow> length h = header_size"
  by (auto simp: pack_header_def header_size_def split: if_splits)

lemma unpack_pack: "pack_header n f = Some h \<Longrightarrow> unpack_header h = (n, f \<noteq> 0)"
  by (auto simp: pack_header_def unpack_header_def unbe_be32 nth_append split: if_splits)

text \<open>Reading more often changes nothing: the pieces a stream comes in do not matter.\<close>

lemma pump_append:
  "pump f s (a @ b) = (case pump f s a of (ds, s', rest) \<Rightarrow>
     (case pump f s' (rest @ b) of (es, s'', rest') \<Rightarrow> (ds @ es, s'', rest')))"
proof (induction f s a rule: pump.induct)
  case (1 f buf)
  show ?case
  proof (cases "length buf < header_size")
    case True
    then show ?thesis by (simp add: pump.simps(1) [of f buf])
  next
    case False
    obtain n z where h: "unpack_header (take header_size buf) = (n, z)" by force
    from False have t: "take header_size (buf @ b) = take header_size buf"
      "drop header_size (buf @ b) = drop header_size buf @ b" by simp_all
    from False have "\<not> length (buf @ b) < header_size" by simp
    then have "pump f Want_header (buf @ b) = pump f (Want_body n z) (drop header_size buf @ b)"
      by (simp only: pump.simps(1) [of f "buf @ b"] t h if_False prod.case)
    moreover have "pump f Want_header buf = pump f (Want_body n z) (drop header_size buf)"
      using False h by (simp add: pump.simps(1) [of f buf])
    ultimately show ?thesis using "1" [OF False h [symmetric]] by simp
  qed
next
  case (2 f n z buf)
  show ?case
  proof (cases "length buf < n + length flusher")
    case True
    then show ?thesis by (simp add: pump.simps(2) [of f n z buf])
  next
    case False
    let ?k = "n + length flusher"
    from False have t: "take ?k (buf @ b) = take ?k buf" "drop ?k (buf @ b) = drop ?k buf @ b"
      and l: "\<not> length (buf @ b) < ?k" by simp_all
    have ih: "pump f Want_header (drop ?k buf @ b) =
      (case pump f Want_header (drop ?k buf) of (ds, s', rest) \<Rightarrow>
       (case pump f s' (rest @ b) of (es, s'', rest') \<Rightarrow> (ds @ es, s'', rest')))"
      using "2" [OF False refl refl refl] by simp
    show ?thesis
      by (subst pump.simps(2) [of f n z "buf @ b"], subst pump.simps(2) [of f n z buf])
        (use False l in \<open>simp only: t ih if_False Let_def split: prod.splits\<close>, auto split: prod.splits)
  qed
qed

lemma receive_pump: "receive f s buf ps = fst (pump f s (buf @ concat ps))"
  if "fst (pump f s buf) = []" "snd (pump f s buf) = (s, buf)"
  using that
proof (induction ps arbitrary: s buf)
  case Nil
  then show ?case by simp
next
  case (Cons p ps)
  obtain ds s' rest where d: "pump f s (buf @ p) = (ds, s', rest)" by (cases "pump f s (buf @ p)")
  have settled: "pump f s' rest = ([], s', rest)"
    using pump_append [of f s "buf @ p" "[]"] d by (cases "pump f s' rest") auto
  have "pump f s (buf @ p @ concat ps) = (case pump f s' (rest @ concat ps) of (es, r) \<Rightarrow> (ds @ es, r))"
    using pump_append [of f s "buf @ p" "concat ps"] d by (simp split: prod.splits)
  then have "fst (pump f s (buf @ p @ concat ps)) = ds @ fst (pump f s' (rest @ concat ps))"
    by (simp split: prod.splits)
  then show ?case using d Cons.IH [of s' rest] settled by simp
qed

lemma pump_empty [simp]: "pump f Want_header [] = ([], Want_header, [])"
  by (simp add: pump.simps(1) header_size_def)

lemma pump_frame:
  assumes "frame_bytes data = Some bs"
  shows "pump f Want_header (bs @ more') =
    (case pump f Want_header more' of (ds, r) \<Rightarrow> (data # ds, r))"
proof -
  from assms obtain h where h: "pack_header (length data) 0 = Some h" and bs: "bs = h @ data @ flusher"
    by (auto simp: frame_bytes_def)
  note lh = pack_header_length [OF h]
  have "pump f Want_header (bs @ more') = pump f (Want_body (length data) False) (data @ flusher @ more')"
    using lh unpack_pack [OF h] by (simp add: pump.simps(1) bs)
  also have "\<dots> = (case pump f Want_header more' of (ds, r) \<Rightarrow> (data # ds, r))"
    by (simp add: pump.simps(2) split: prod.splits)
  finally show ?thesis .
qed

lemma pump_frames:
  assumes "list_all2 (\<lambda>d b. frame_bytes d = Some b) ds bs"
  shows "pump f Want_header (concat bs) = (ds, Want_header, [])"
  using assms by (induction rule: list_all2_induct) (simp_all add: pump_frame)

section \<open>The stream over a descriptor\<close>

text \<open>
  \<open>FdStream\<close>: the reader's buffer and its end-of-file mark, whether the stream is closed
  and the loop watches the descriptor, and the mode of the terminal behind it with the one
  saved to be put back. The mode is whatever \<open>tcgetattr\<close> returns.
\<close>

record 'm fd_stream =
  unread :: "byte list"
  at_eof :: bool
  stream_closed :: bool
  watched :: bool
  tty_mode :: 'm
  saved_tty :: "'m option"

definition open_stream :: "'m \<Rightarrow> bool \<Rightarrow> 'm \<Rightarrow> 'm fd_stream" where
  "open_stream raw raw_tty m =
     \<lparr>unread = [], at_eof = False, stream_closed = False, watched = True,
      tty_mode = (if raw_tty then raw else m), saved_tty = (if raw_tty then Some m else None)\<rparr>"

text \<open>\<open>_on_readable\<close>; \<^const>\<open>None\<close> is an \<open>os.read\<close> that raised \<open>OSError\<close>.\<close>

definition on_readable :: "byte list option \<Rightarrow> 'm fd_stream \<Rightarrow> 'm fd_stream" where
  "on_readable got s =
     (let data = (case got of None \<Rightarrow> [] | Some d \<Rightarrow> d)
      in if data \<noteq> [] then s\<lparr>unread := unread s @ data\<rparr> else s\<lparr>at_eof := True\<rparr>)"

text \<open>\<open>readexactly\<close>: the bytes, an \<open>IncompleteReadError\<close> with what there was, or still waiting.\<close>

datatype reading = Got "byte list" | Incomplete "byte list" | Still_reading

definition read_exactly :: "nat \<Rightarrow> 'm fd_stream \<Rightarrow> reading \<times> 'm fd_stream" where
  "read_exactly n s =
     (if n \<le> length (unread s) then (Got (take n (unread s)), s\<lparr>unread := drop n (unread s)\<rparr>)
      else if at_eof s then (Incomplete (unread s), s\<lparr>unread := []\<rparr>)
      else (Still_reading, s))"

text \<open>
  \<open>write\<close>, with what each \<open>os.write\<close> returns: how many bytes the kernel took, or an
  exception. The result is what the peer can read, and how the loop ended.
\<close>

datatype written = Written | Write_raised string | Still_writing

fun write_all :: "byte list \<Rightarrow> (string + int) list \<Rightarrow> byte list \<times> written" where
  "write_all [] ks = ([], Written)"
| "write_all data [] = ([], Still_writing)"
| "write_all data (Inl e # ks) = ([], Write_raised e)"
| "write_all data (Inr n # ks) =
     (if n \<le> 0 then ([], Write_raised ''EOFError'')
      else (case write_all (drop (nat n) data) ks of (out, w) \<Rightarrow> (take (nat n) data @ out, w)))"

text \<open>\<open>close\<close>; the flag says whether \<open>tcsetattr\<close> works, whose error is swallowed.\<close>

definition close_stream :: "bool \<Rightarrow> 'm fd_stream \<Rightarrow> 'm fd_stream" where
  "close_stream settable s =
     (if stream_closed s then s
      else s\<lparr>stream_closed := True, watched := False, at_eof := True,
             tty_mode := (case saved_tty s of None \<Rightarrow> tty_mode s
               | Some m \<Rightarrow> if settable then m else tty_mode s)\<rparr>)"

lemma write_all_prefix: "prefix (fst (write_all data ks)) data"
proof (induction data ks rule: write_all.induct)
  case (4 v va n ks)
  let ?d = "v # va"
  show ?case
  proof (cases "n \<le> 0")
    case False
    obtain out w where o: "write_all (drop (nat n) ?d) ks = (out, w)" by force
    then have "prefix out (drop (nat n) ?d)" using "4.IH" [OF False] by simp
    then have "prefix (take (nat n) ?d @ out) (take (nat n) ?d @ drop (nat n) ?d)"
      by (simp only: same_prefix_prefix)
    then show ?thesis using o False by simp
  qed simp
qed simp_all

lemma write_all_complete: "write_all data ks = (out, Written) \<Longrightarrow> out = data"
proof (induction data ks arbitrary: out rule: write_all.induct)
  case (4 v va n ks)
  then show ?case
    by (auto split: if_splits prod.splits)
qed simp_all

lemma close_restores:
  "saved_tty s = Some m \<Longrightarrow> \<not> stream_closed s \<Longrightarrow> tty_mode (close_stream True s) = m"
  by (simp add: close_stream_def)

lemma close_stream_idem [simp]: "close_stream a (close_stream b s) = close_stream b s"
  by (simp add: close_stream_def)

section \<open>Boxing\<close>

text \<open>
  The Python values that cross: the scalars brine carries, tuples, lists, dictionaries and
  any other object.
\<close>

datatype py =
    Nothing | Flag bool | Num int | Txt string | Raw "byte list"
  | Tup "py list" | Lst "py list" | Dct "(py \<times> py) list" | Obj nat

text \<open>A labelled pair: \<open>LABEL_VALUE\<close>, \<open>LABEL_TUPLE\<close> and the added \<open>LABEL_DICT\<close>.\<close>

datatype package =
    Value_label py | Tuple_label "package list" | Dict_label "(py \<times> package) list"

fun box :: "(py \<Rightarrow> bool) \<Rightarrow> py \<Rightarrow> package" where
  "box dumpable (Tup xs) = (if dumpable (Tup xs) then Value_label (Tup xs)
     else Tuple_label (map (box dumpable) xs))"
| "box dumpable (Lst xs) = (if dumpable (Lst xs) then Value_label (Lst xs)
     else Tuple_label (map (box dumpable) xs))"
| "box dumpable (Dct kvs) = (if dumpable (Dct kvs) then Value_label (Dct kvs)
     else Dict_label (map (\<lambda>(k, v). (k, box dumpable v)) kvs))"
| "box dumpable v = Value_label v"

fun unbox :: "package \<Rightarrow> py" where
  "unbox (Tuple_label ps) = Tup (map unbox ps)"
| "unbox (Dict_label kps) = Dct (fold (\<lambda>(k, v). AList.update k v) (map (\<lambda>(k, p). (k, unbox p)) kps) [])"
| "unbox (Value_label v) = v"

text \<open>What a value becomes on the other side: lists are tuples there.\<close>

fun across :: "(py \<Rightarrow> bool) \<Rightarrow> py \<Rightarrow> py" where
  "across dumpable (Tup xs) = (if dumpable (Tup xs) then Tup xs else Tup (map (across dumpable) xs))"
| "across dumpable (Lst xs) = (if dumpable (Lst xs) then Lst xs else Tup (map (across dumpable) xs))"
| "across dumpable (Dct kvs) = (if dumpable (Dct kvs) then Dct kvs
     else Dct (map (\<lambda>(k, v). (k, across dumpable v)) kvs))"
| "across dumpable v = v"

text \<open>The values Python can hold: no dictionary has a key twice.\<close>

fun py_ok :: "py \<Rightarrow> bool" where
  "py_ok (Tup xs) = list_all py_ok xs"
| "py_ok (Lst xs) = list_all py_ok xs"
| "py_ok (Dct kvs) = (distinct (dict_keys kvs) \<and> list_all (\<lambda>(k, v). py_ok v) kvs)"
| "py_ok v = True"

text \<open>A value without lists.\<close>

fun list_free :: "py \<Rightarrow> bool" where
  "list_free (Tup xs) = list_all list_free xs"
| "list_free (Lst xs) = False"
| "list_free (Dct kvs) = list_all (\<lambda>(k, v). list_free v) kvs"
| "list_free v = True"

lemma update_fresh: "k \<notin> set (dict_keys d) \<Longrightarrow> AList.update k v d = d @ [(k, v)]"
  by (induction d) (auto simp: dict_keys_def)

lemma fold_update_distinct:
  "distinct (dict_keys (d @ kvs)) \<Longrightarrow> fold (\<lambda>(k, v). AList.update k v) kvs d = d @ kvs"
proof (induction kvs arbitrary: d)
  case (Cons kv kvs)
  obtain k v where kv: "kv = (k, v)" by force
  with Cons.prems have "k \<notin> set (dict_keys d)" by (auto simp: dict_keys_def)
  then show ?case using Cons kv by (simp add: update_fresh)
qed simp

lemma dict_of_distinct:
  "distinct (dict_keys kvs) \<Longrightarrow> fold (\<lambda>(k, v). AList.update k v) kvs [] = kvs"
  using fold_update_distinct [of "[]" kvs] by simp

lemma dict_keys_map_value: "dict_keys (map (\<lambda>(k, v). (k, f v)) kvs) = dict_keys kvs"
  by (induction kvs) (auto simp: dict_keys_def)

lemma unbox_box: "py_ok v \<Longrightarrow> unbox (box d v) = across d v"
proof (induction d v rule: across.induct)
  case (3 d kvs)
  have "fold (\<lambda>(k, v). AList.update k v)
      (map (\<lambda>(k, p). (k, unbox p)) (map (\<lambda>(k, v). (k, box d v)) kvs)) [] =
    map (\<lambda>(k, v). (k, across d v)) kvs" (is "fold _ ?l [] = ?r") if "\<not> d (Dct kvs)"
  proof -
    have "?l = ?r" using "3.prems" "3.IH" [OF that] by (fastforce simp: list_all_iff)
    moreover have "fold (\<lambda>(k, v). AList.update k v) ?r [] = ?r"
      by (rule dict_of_distinct) (use "3.prems" in \<open>simp add: dict_keys_map_value\<close>)
    ultimately show ?thesis by (simp only:)
  qed
  then show ?case by (simp del: map_map)
qed (auto simp: list_all_iff)

lemma across_list_free: "list_free v \<Longrightarrow> across d v = v"
proof (induction d v rule: across.induct)
  case (1 d xs)
  then show ?case by (auto simp: list_all_iff intro: map_idI)
next
  case (3 d kvs)
  have "map (\<lambda>(k, v). (k, across d v)) kvs = kvs" if "\<not> d (Dct kvs)"
    by (rule map_idI) (use "3.prems" "3.IH" [OF that] in \<open>fastforce simp: list_all_iff\<close>)
  then show ?case by auto
qed simp_all

section \<open>Connections\<close>

text \<open>
  An exception, as its type and its text; a future; and the three messages. A request
  names a handler and carries its boxed arguments.
\<close>

type_synonym fault = "string \<times> string"

datatype future = Open | Result py | Failed fault | Abandoned

datatype message =
    Request nat int package | Reply nat package | Exception_msg nat fault

definition HANDLE_METHOD :: int where "HANDLE_METHOD = 100"
definition HANDLE_PING :: int where "HANDLE_PING = 1"
definition HANDLE_CLOSE :: int where "HANDLE_CLOSE = 2"

text \<open>
  \<open>AsyncConnection\<close>: the next sequence number, the calls waiting for a reply, the futures
  by address, and the frames sent. \<open>world\<close> is the state of the service.
\<close>

record 'w conn =
  next_seq :: nat
  pending_calls :: "(nat, nat) dict"
  futures :: "future list"
  conn_closed :: bool
  outbox :: "message list"
  world :: 'w

definition new_conn :: "'w \<Rightarrow> 'w conn" where
  "new_conn w = \<lparr>next_seq = 0, pending_calls = [], futures = [], conn_closed = False,
     outbox = [], world = w\<rparr>"

text \<open>
  What the connection is given: brine's \<open>dumpable\<close>, the exposed methods, what the service
  does on a disconnect, vinegar's reading of an exception, the exception Python raises for
  arguments that are not a call, and the frames that cannot be sent.
\<close>

record 'w peer =
  dumpable :: "py \<Rightarrow> bool"
  exposed :: "string \<Rightarrow> (py list \<Rightarrow> (string, py) dict \<Rightarrow> 'w \<Rightarrow> (fault + py) \<times> 'w) option"
  on_disconnect :: "'w \<Rightarrow> 'w"
  rebuilt :: "fault \<Rightarrow> fault"
  malformed :: "py \<Rightarrow> fault"
  refuses :: "message \<Rightarrow> fault option"

definition send_msg :: "'w peer \<Rightarrow> message \<Rightarrow> 'w conn \<Rightarrow> fault option \<times> 'w conn" where
  "send_msg p m c =
     (if conn_closed c then (Some (''OSError'', ''[Errno 9] Bad file descriptor''), c)
      else (case refuses p m of Some e \<Rightarrow> (Some e, c)
        | None \<Rightarrow> (None, c\<lparr>outbox := outbox c @ [m]\<rparr>)))"

definition settle_future :: "nat \<Rightarrow> future \<Rightarrow> 'w conn \<Rightarrow> 'w conn" where
  "settle_future a f c =
     (if a < length (futures c) \<and> futures c ! a = Open then c\<lparr>futures := (futures c)[a := f]\<rparr> else c)"

text \<open>\<open>close\<close>: every call still open gets an \<open>EOFError\<close>.\<close>

definition close_conn :: "'w peer \<Rightarrow> 'w conn \<Rightarrow> 'w conn" where
  "close_conn p c =
     (if conn_closed c then c
      else (fold (\<lambda>(seq, a). settle_future a (Failed (''EOFError'', ''arpyc connection closed'')))
              (pending_calls c) (c\<lparr>conn_closed := True, world := on_disconnect p (world c)\<rparr>))
            \<lparr>pending_calls := []\<rparr>)"

text \<open>The triple a call's arguments are: the method, the positional and the named ones.\<close>

fun named_args :: "py list \<Rightarrow> (string, py) dict option" where
  "named_args [] = Some []"
| "named_args (Tup [Txt k, v] # kvs) = map_option ((#) (k, v)) (named_args kvs)"
| "named_args kvs = None"

fun call_triple :: "py \<Rightarrow> (string \<times> py list \<times> (string, py) dict) option" where
  "call_triple (Tup [Txt m, Tup args, Tup kvs]) =
     map_option (\<lambda>d. (m, args, fold (\<lambda>(k, v). AList.update k v) d [])) (named_args kvs)"
| "call_triple v = None"

definition invoke :: "'w peer \<Rightarrow> package \<Rightarrow> 'w \<Rightarrow> (fault + py) \<times> 'w" where
  "invoke p boxed w =
     (case call_triple (unbox boxed) of
        None \<Rightarrow> (Inl (malformed p (unbox boxed)), w)
      | Some (m, args, kwargs) \<Rightarrow>
          (case exposed p m of
             None \<Rightarrow> (Inl (''AttributeError'', ''exposed_'' @ m), w)
           | Some f \<Rightarrow> f args kwargs w))"

text \<open>\<open>_dispatch\<close>. Only the handler's own exception is sent back; one of the reply's is not.\<close>

definition dispatch :: "'w peer \<Rightarrow> nat \<Rightarrow> int \<Rightarrow> package \<Rightarrow> 'w conn \<Rightarrow> fault option \<times> 'w conn" where
  "dispatch p seq handler boxed c =
     (if handler = HANDLE_CLOSE then (None, close_conn p c)
      else (case (if handler = HANDLE_METHOD then invoke p boxed (world c)
                  else if handler = HANDLE_PING then (Inr (unbox boxed), world c)
                  else (Inl (''ValueError'', ''unknown handler '' @ show_int handler), world c)) of
          (Inl e, w) \<Rightarrow> send_msg p (Exception_msg seq e) (c\<lparr>world := w\<rparr>)
        | (Inr v, w) \<Rightarrow> send_msg p (Reply seq (box (dumpable p) v)) (c\<lparr>world := w\<rparr>)))"

definition take_reply :: "nat \<Rightarrow> future \<Rightarrow> 'w conn \<Rightarrow> 'w conn" where
  "take_reply seq f c =
     (let c' = c\<lparr>pending_calls := AList.delete seq (pending_calls c)\<rparr>
      in case map_of (pending_calls c) seq of None \<Rightarrow> c' | Some a \<Rightarrow> settle_future a f c')"

fun serve_one :: "'w peer \<Rightarrow> message \<Rightarrow> 'w conn \<Rightarrow> fault option \<times> 'w conn" where
  "serve_one p (Request seq handler boxed) c = dispatch p seq handler boxed c"
| "serve_one p (Reply seq boxed) c = (None, take_reply seq (Result (unbox boxed)) c)"
| "serve_one p (Exception_msg seq e) c = (None, take_reply seq (Failed (rebuilt p e)) c)"

text \<open>\<open>serve_forever\<close>, over the frames and the failures \<open>recv\<close> gives one after the other.\<close>

datatype incoming = Frame message | Recv_failed fault
datatype serving = Serving | Gone | Serving_raised fault

definition peer_gone :: "fault \<Rightarrow> bool" where
  "peer_gone e = (fst e \<in> {''EOFError'', ''IncompleteReadError'', ''OSError'', ''BrokenPipeError'',
     ''ConnectionResetError'', ''ConnectionAbortedError'', ''ConnectionRefusedError'',
     ''BlockingIOError'', ''InterruptedError'', ''TimeoutError''})"

definition stop_serving :: "'w peer \<Rightarrow> fault \<Rightarrow> 'w conn \<Rightarrow> serving \<times> 'w conn" where
  "stop_serving p e c = (if peer_gone e then Gone else Serving_raised e, close_conn p c)"

fun serve_forever :: "'w peer \<Rightarrow> incoming list \<Rightarrow> 'w conn \<Rightarrow> serving \<times> 'w conn" where
  "serve_forever p [] c = (if conn_closed c then (Gone, close_conn p c) else (Serving, c))"
| "serve_forever p (i # is) c =
     (if conn_closed c then (Gone, close_conn p c)
      else (case i of Recv_failed e \<Rightarrow> stop_serving p e c
        | Frame m \<Rightarrow> (case serve_one p m c of
            (Some e, c') \<Rightarrow> stop_serving p e c'
          | (None, c') \<Rightarrow> serve_forever p is c')))"

text \<open>\<open>call\<close>, up to the point where it waits: the address of its future, or what sending raised.\<close>

definition request_args :: "string \<Rightarrow> py list \<Rightarrow> (string, py) dict \<Rightarrow> py" where
  "request_args m args kwargs = Tup [Txt m, Tup args, Tup (map (\<lambda>(k, v). Tup [Txt k, v]) kwargs)]"

definition call :: "'w peer \<Rightarrow> string \<Rightarrow> py list \<Rightarrow> (string, py) dict \<Rightarrow> 'w conn \<Rightarrow> (fault + nat) \<times> 'w conn" where
  "call p m args kwargs c =
     (let seq = next_seq c; a = length (futures c);
          c' = c\<lparr>next_seq := seq + 1, futures := futures c @ [Open],
                 pending_calls := AList.update seq a (pending_calls c)\<rparr>
      in case send_msg p (Request seq HANDLE_METHOD (box (dumpable p) (request_args m args kwargs))) c' of
           (Some e, c'') \<Rightarrow> (Inl e, c'') | (None, c'') \<Rightarrow> (Inr a, c''))"

text \<open>A task that waits for a reply is cancelled, and its future with it.\<close>

definition abandon :: "nat \<Rightarrow> 'w conn \<Rightarrow> 'w conn" where
  "abandon a c = settle_future a Abandoned c"

inductive conn_step :: "'w peer \<Rightarrow> 'w conn \<Rightarrow> 'w conn \<Rightarrow> bool" for p where
  step_call: "call p m args kwargs c = (r, c') \<Longrightarrow> conn_step p c c'"
| step_abandon: "conn_step p c (abandon a c)"
| step_serve: "\<not> conn_closed c \<Longrightarrow> serve_one p m c = (e, c') \<Longrightarrow> conn_step p c c'"
| step_close: "conn_step p c (close_conn p c)"

inductive_cases conn_stepE: "conn_step p c c'"

section \<open>What a connection keeps\<close>

text \<open>
  Sequence numbers are used once, every entry of the table is a call that was made, and
  every future that is still open is in the table.
\<close>

definition conn_ok :: "'w conn \<Rightarrow> bool" where
  "conn_ok c \<longleftrightarrow> next_seq c = length (futures c) \<and> distinct (dict_keys (pending_calls c)) \<and>
     (\<forall>seq a. map_of (pending_calls c) seq = Some a \<longrightarrow> seq = a \<and> a < length (futures c)) \<and>
     (\<forall>a < length (futures c). futures c ! a = Open \<longrightarrow> map_of (pending_calls c) a = Some a)"

lemma send_msg_frame:
  assumes "send_msg p m c = (e, c')"
  shows "next_seq c' = next_seq c" "pending_calls c' = pending_calls c" "futures c' = futures c"
    "conn_closed c' = conn_closed c" "world c' = world c"
  using assms by (auto simp: send_msg_def split: if_splits option.splits)

lemma conn_ok_send: "send_msg p m c = (e, c') \<Longrightarrow> conn_ok c \<Longrightarrow> conn_ok c'"
  by (simp add: conn_ok_def send_msg_frame)

lemma settle_future_frame [simp]:
  "next_seq (settle_future a f c) = next_seq c"
  "pending_calls (settle_future a f c) = pending_calls c"
  "conn_closed (settle_future a f c) = conn_closed c"
  "outbox (settle_future a f c) = outbox c"
  "world (settle_future a f c) = world c"
  "length (futures (settle_future a f c)) = length (futures c)"
  by (simp_all add: settle_future_def)

lemma settle_future_nth:
  "b < length (futures c) \<Longrightarrow> futures (settle_future a f c) ! b =
     (if b = a \<and> futures c ! b = Open then f else futures c ! b)"
  by (auto simp: settle_future_def nth_list_update)

lemma settle_all_frame [simp]:
  "next_seq (fold (\<lambda>(k, a). settle_future a f) ps c) = next_seq c"
  "pending_calls (fold (\<lambda>(k, a). settle_future a f) ps c) = pending_calls c"
  "conn_closed (fold (\<lambda>(k, a). settle_future a f) ps c) = conn_closed c"
  "outbox (fold (\<lambda>(k, a). settle_future a f) ps c) = outbox c"
  "world (fold (\<lambda>(k, a). settle_future a f) ps c) = world c"
  "length (futures (fold (\<lambda>(k, a). settle_future a f) ps c)) = length (futures c)"
  by (induction ps arbitrary: c) auto

lemma settle_all_nth:
  "b < length (futures c) \<Longrightarrow> f \<noteq> Open \<Longrightarrow>
   futures (fold (\<lambda>(k, a). settle_future a f) ps c) ! b =
     (if b \<in> snd ` set ps \<and> futures c ! b = Open then f else futures c ! b)"
proof (induction ps arbitrary: c)
  case (Cons p ps)
  obtain k a where "p = (k, a)" by force
  with Cons.prems Cons.IH [of "settle_future a f c"] show ?case by (simp add: settle_future_nth)
qed simp

lemma close_conn_futures:
  assumes "conn_ok c" and "\<not> conn_closed c"
  shows "futures (close_conn p c) =
    map (\<lambda>f. if f = Open then Failed (''EOFError'', ''arpyc connection closed'') else f) (futures c)"
proof -
  let ?f = "Failed (''EOFError'', ''arpyc connection closed'')"
  have "futures (close_conn p c) ! b = (if futures c ! b = Open then ?f else futures c ! b)"
    if b: "b < length (futures c)" for b
  proof -
    have "(b, b) \<in> set (pending_calls c)" if "futures c ! b = Open"
      using assms(1) b that by (auto simp: conn_ok_def intro: map_of_SomeD)
    then have "b \<in> snd ` set (pending_calls c)" if "futures c ! b = Open" using that by force
    then show ?thesis using assms(2) b by (simp add: close_conn_def settle_all_nth)
  qed
  then show ?thesis
    by (intro nth_equalityI) (use assms(2) in \<open>simp_all add: close_conn_def\<close>)
qed

lemma close_conn_frame [simp]:
  "next_seq (close_conn p c) = next_seq c" "conn_closed (close_conn p c)"
  "length (futures (close_conn p c)) = length (futures c)"
  by (simp_all add: close_conn_def)

lemma conn_ok_close: "conn_ok c \<Longrightarrow> conn_ok (close_conn p c)"
proof (cases "conn_closed c")
  case False
  assume ok: "conn_ok c"
  show ?thesis using False ok
    by (auto simp: conn_ok_def close_conn_futures [OF ok False]) (simp_all add: close_conn_def)
qed (simp add: close_conn_def)

lemma conn_ok_take_reply:
  assumes ok: "conn_ok c" and f: "f \<noteq> Open"
  shows "conn_ok (take_reply seq f c)"
proof (cases "map_of (pending_calls c) seq")
    case None
    then show ?thesis using ok
      by (auto simp: take_reply_def conn_ok_def distinct_keys_delete)
  next
    case (Some a)
    then have a: "a = seq" using ok by (auto simp: conn_ok_def)
    show ?thesis using ok Some f unfolding take_reply_def a
      by (auto simp: conn_ok_def distinct_keys_delete settle_future_nth split: if_splits)
  qed

lemma conn_ok_world: "conn_ok c \<Longrightarrow> conn_ok (c\<lparr>world := w\<rparr>)"
  by (simp add: conn_ok_def)

lemma conn_ok_dispatch: "dispatch p seq h boxed c = (e, c') \<Longrightarrow> conn_ok c \<Longrightarrow> conn_ok c'"
  unfolding dispatch_def
  by (auto intro: conn_ok_close conn_ok_send conn_ok_world split: if_splits prod.splits sum.splits)

lemma conn_ok_serve_one: "serve_one p m c = (e, c') \<Longrightarrow> conn_ok c \<Longrightarrow> conn_ok c'"
  by (cases m) (auto intro: conn_ok_take_reply conn_ok_dispatch)

lemma conn_ok_call: "call p m args kwargs c = (r, c') \<Longrightarrow> conn_ok c \<Longrightarrow> conn_ok c'"
proof -
  assume r: "call p m args kwargs c = (r, c')" and ok: "conn_ok c"
  let ?c = "c\<lparr>next_seq := next_seq c + 1, futures := futures c @ [Open],
    pending_calls := AList.update (next_seq c) (length (futures c)) (pending_calls c)\<rparr>"
  have "conn_ok ?c" using ok unfolding conn_ok_def
    by (auto simp: distinct_keys_update nth_append less_Suc_eq split: if_splits)
  moreover obtain e m' where "send_msg p m' ?c = (e, c')"
    using r by (auto simp: call_def Let_def split: prod.splits option.splits)
  ultimately show "conn_ok c'" by (blast intro: conn_ok_send)
qed

lemma conn_ok_step: "conn_step p c c' \<Longrightarrow> conn_ok c \<Longrightarrow> conn_ok c'"
proof (induction rule: conn_step.induct)
  case (step_abandon c a)
  then show ?case unfolding abandon_def
    by (auto simp: conn_ok_def settle_future_nth split: if_splits)
qed (auto intro: conn_ok_call conn_ok_serve_one conn_ok_close)

lemma conn_ok_new: "conn_ok (new_conn w)"
  by (simp add: new_conn_def conn_ok_def)

interpretation rpc: invariant "\<lambda>c. \<exists>w. c = new_conn w" "conn_step p" conn_ok for p
  by unfold_locales (blast intro: conn_ok_new conn_ok_step)+

section \<open>The ledger of calls\<close>

text \<open>
  What a connection promises, without sequence numbers, tables or messages: a list of calls,
  each answered at most once, and all of them when the peer goes away.
\<close>

definition issue :: "future list \<Rightarrow> future list" where
  "issue L = L @ [Open]"

definition answer :: "nat \<Rightarrow> future \<Rightarrow> future list \<Rightarrow> future list" where
  "answer a f L = (if a < length L \<and> L ! a = Open then L[a := f] else L)"

definition hang_up :: "future list \<Rightarrow> future list" where
  "hang_up L = map (\<lambda>f. if f = Open then Failed (''EOFError'', ''arpyc connection closed'') else f) L"

lemma futures_settle: "futures (settle_future a f c) = answer a f (futures c)"
  by (simp add: settle_future_def answer_def)

lemma futures_take_reply:
  assumes "conn_ok c"
  shows "futures (take_reply seq f c) = answer seq f (futures c)"
proof (cases "map_of (pending_calls c) seq")
  case None
  with assms have "\<not> (seq < length (futures c) \<and> futures c ! seq = Open)"
    by (auto simp: conn_ok_def)
  then show ?thesis using None by (auto simp: take_reply_def answer_def)
next
  case (Some a)
  with assms have "a = seq" by (auto simp: conn_ok_def)
  with Some show ?thesis by (simp add: take_reply_def futures_settle)
qed

lemma futures_close: "conn_ok c \<Longrightarrow> futures (close_conn p c) =
    (if conn_closed c then futures c else hang_up (futures c))"
  by (auto simp: close_conn_futures hang_up_def) (simp add: close_conn_def)

lemma futures_call: "futures (snd (call p m args kwargs c)) = issue (futures c)"
  by (auto simp: call_def Let_def issue_def send_msg_def split: option.splits)

lemma futures_dispatch: "h \<noteq> HANDLE_CLOSE \<Longrightarrow> futures (snd (dispatch p seq h boxed c)) = futures c"
  unfolding dispatch_def
  by (auto simp: send_msg_def split: prod.splits sum.splits option.splits)

lemma futures_serve_one:
  assumes "conn_ok c"
  shows "futures (snd (serve_one p m c)) =
    (case m of Reply seq b \<Rightarrow> answer seq (Result (unbox b)) (futures c)
     | Exception_msg seq e \<Rightarrow> answer seq (Failed (rebuilt p e)) (futures c)
     | Request seq h b \<Rightarrow> if h = HANDLE_CLOSE then futures (close_conn p c) else futures c)"
proof (cases m)
  case (Request seq h b)
  show ?thesis
  proof (cases "h = HANDLE_CLOSE")
    case True
    with Request show ?thesis by (simp add: dispatch_def)
  qed (simp add: Request futures_dispatch)
qed (simp_all add: assms futures_take_reply)

text \<open>An answer is final, whatever arrives later under the same number.\<close>

lemma answer_final: "L ! a \<noteq> Open \<Longrightarrow> a < length L \<Longrightarrow> answer b f L ! a = L ! a"
  by (auto simp: answer_def nth_list_update)

lemma hang_up_closed: "Open \<notin> set (hang_up L)"
  by (auto simp: hang_up_def)

section \<open>Serving until the peer is gone\<close>

lemma open_futures_send: "send_msg p m c = (e, c') \<Longrightarrow> futures c' = futures c"
  by (rule send_msg_frame)

lemma closed_is_answered:
  assumes "conn_ok c" and "\<not> conn_closed c" and "serve_one p m c = (e, c')" and "conn_closed c'"
  shows "Open \<notin> set (futures c')"
proof -
  have "h = HANDLE_CLOSE" if "m = Request seq h b" for seq h b
  proof (rule ccontr)
    assume "h \<noteq> HANDLE_CLOSE"
    then have "conn_closed c' = conn_closed c" using assms(3) that
      by (auto simp: dispatch_def send_msg_def split: prod.splits sum.splits option.splits if_splits)
    with assms show False by simp
  qed
  moreover have "conn_closed (take_reply seq f c) = conn_closed c" for seq f
    by (simp add: take_reply_def Let_def split: option.splits)
  ultimately show ?thesis using assms
    by (cases m) (auto simp: dispatch_def futures_close hang_up_closed)
qed

lemma serve_forever_answers:
  assumes "serve_forever p is c = (r, c')" and "conn_ok c" and "r \<noteq> Serving"
    and "conn_closed c \<longrightarrow> Open \<notin> set (futures c)"
  shows "conn_closed c' \<and> Open \<notin> set (futures c')"
  using assms
proof (induction p "is" c arbitrary: r c' rule: serve_forever.induct)
  case (1 p c)
  then show ?case by (auto simp: futures_close split: if_splits)
next
  case (2 p i "is" c)
  have stop: "conn_closed d \<and> Open \<notin> set (futures d)"
    if "stop_serving p e c1 = (r, d)" "conn_ok c1" "conn_closed c1 \<longrightarrow> Open \<notin> set (futures c1)" for e c1 d
    using that by (cases "conn_closed c1") (auto simp: stop_serving_def futures_close hang_up_closed)
  show ?case
  proof (cases "conn_closed c")
    case True
    with "2.prems" show ?thesis by (auto simp: futures_close)
  next
    case False
    show ?thesis
    proof (cases i)
      case (Recv_failed e)
      with False "2.prems" stop [of e c c'] show ?thesis by simp
    next
      case (Frame m)
      obtain o1 c1 where s: "serve_one p m c = (o1, c1)" by force
      note ok = conn_ok_serve_one [OF s "2.prems"(2)]
      have answered: "conn_closed c1 \<longrightarrow> Open \<notin> set (futures c1)"
        using closed_is_answered [OF "2.prems"(2) False s] by blast
      show ?thesis
      proof (cases o1)
        case None
        then show ?thesis using "2.IH" [OF False Frame s [symmetric]] None False Frame s ok answered "2.prems"
          by simp
      next
        case (Some e)
        with False Frame s "2.prems" ok answered stop [of e c1 c'] show ?thesis by simp
      qed
    qed
  qed
qed

section \<open>A call and its reply\<close>

lemma named_args_round: "named_args (map (\<lambda>(k, v). Tup [Txt k, v]) kwargs) = Some kwargs"
  by (induction kwargs) auto

lemma call_triple_request:
  assumes "distinct (dict_keys kwargs)"
  shows "call_triple (request_args m args kwargs) = Some (m, args, kwargs)"
  using assms by (simp add: request_args_def named_args_round dict_of_distinct)

lemma request_args_list_free:
  assumes "list_all list_free args" "list_all (\<lambda>(k, v). list_free v) kwargs"
    and "list_all py_ok args" "list_all (\<lambda>(k, v). py_ok v) kwargs"
  shows "list_free (request_args m args kwargs)" "py_ok (request_args m args kwargs)"
  using assms by (auto simp: request_args_def list_all_iff)

lemma invoke_request:
  assumes "list_all list_free args" "list_all (\<lambda>(k, v). list_free v) kwargs"
    and "list_all py_ok args" "list_all (\<lambda>(k, v). py_ok v) kwargs"
    and "distinct (dict_keys kwargs)" and "exposed p m = Some f"
  shows "invoke p (box d (request_args m args kwargs)) w = f args kwargs w"
  using assms by (simp add: invoke_def unbox_box request_args_list_free across_list_free call_triple_request)

section \<open>Properties\<close>

definition demo_dumpable :: "py \<Rightarrow> bool" where
  "demo_dumpable v = (case v of Tup xs \<Rightarrow> xs = [] | Lst xs \<Rightarrow> False | Dct d \<Rightarrow> False | Obj n \<Rightarrow> False | _ \<Rightarrow> True)"

definition demo_count :: "py list \<Rightarrow> (string, py) dict \<Rightarrow> nat \<Rightarrow> (fault + py) \<times> nat" where
  "demo_count args kwargs n = (Inr (Lst (Num (int n) # args)), n + 1)"

definition demo_peer :: "nat peer" where
  "demo_peer = \<lparr>dumpable = demo_dumpable,
     exposed = (\<lambda>m. if m = ''count'' then Some demo_count else None),
     on_disconnect = (\<lambda>n. n), rebuilt = (\<lambda>e. e), malformed = (\<lambda>v. (''TypeError'', [])),
     refuses = (\<lambda>m. None)\<rparr>"

abbreviation made :: "'w conn \<Rightarrow> bool" where
  "made c \<equiv> \<exists>w. c = new_conn w"

definition demo_waiting :: "nat conn" where
  "demo_waiting = snd (call demo_peer ''count'' [Num 1] [] (new_conn 0))"

lemma demo_waiting_made: "reach made (conn_step demo_peer) demo_waiting"
  unfolding demo_waiting_def
  by (rule reach_step [OF reach_start], blast, rule step_call) (rule surjective_pairing)

text \<open>
  C29: framing survives any fragmentation. However the bytes of a sequence of sent frames
  are cut into pieces, a receiver never gets anything but a prefix of the payloads, in
  order, and once all bytes are in, exactly the payloads.
\<close>

theorem frames_arrive:
  assumes "list_all2 (\<lambda>d b. frame_bytes d = Some b) payloads sent"
    and "concat sent = concat pieces @ rest"
  shows "prefix (receive inflate Want_header [] pieces) payloads \<and>
    (rest = [] \<longrightarrow> receive inflate Want_header [] pieces = payloads)"
proof -
  obtain ds s buf where ds: "pump inflate Want_header (concat pieces) = (ds, s, buf)"
    by (cases "pump inflate Want_header (concat pieces)")
  then have r: "receive inflate Want_header [] pieces = ds" by (simp add: receive_pump)
  have "fst (pump inflate Want_header (concat pieces @ rest)) = payloads"
    using pump_frames [OF assms(1)] assms(2) by simp
  then have "prefix ds payloads \<and> (rest = [] \<longrightarrow> ds = payloads)"
    using ds pump_append [of inflate Want_header "concat pieces" rest]
    by (auto split: prod.splits)
  with r show ?thesis by simp
qed

theorem frames_arrive_witness:
  "receive id Want_header [] [[0, 0, 0], [2, 0, 7], [8, 10, 0, 0, 0, 0, 0], [10]] = [[7, 8], []]"
proof -
  have "list_all2 (\<lambda>d b. frame_bytes d = Some b) [[7, 8], []] [[0, 0, 0, 2, 0, 7, 8, 10], [0, 0, 0, 0, 0, 10]]"
    by (simp add: frame_bytes_def pack_header_def be32_def flusher_def)
  from frames_arrive [OF this, of "[[0, 0, 0], [2, 0, 7], [8, 10, 0, 0, 0, 0, 0], [10]]" "[]" id]
  show ?thesis by simp
qed

text \<open>
  C14: the well-formedness of a connection. In every state its steps lead to, the calls made are numbered
  from 0 without a gap, a pending number is that of a call made and no number is pending twice, and
  every call that has no answer yet is pending, so the reply to it will find it.
\<close>

theorem conn_wellformed:
  assumes "reach made (conn_step p) c"
  shows "next_seq c = length (futures c) \<and> distinct (dict_keys (pending_calls c)) \<and>
    (\<forall>(seq, a)\<in>set (pending_calls c). seq = a \<and> a < length (futures c)) \<and>
    (\<forall>a. a < length (futures c) \<and> futures c ! a = Open \<longrightarrow> (a, a) \<in> set (pending_calls c))"
proof -
  have ok: "conn_ok c" using assms by (rule rpc.reach_good)
  have "seq = a \<and> a < length (futures c)" if "(seq, a) \<in> set (pending_calls c)" for seq a
    using ok map_of_is_SomeI [of "pending_calls c" seq a] that by (auto simp: conn_ok_def dict_keys_def)
  then show ?thesis using ok by (auto simp: conn_ok_def intro: map_of_SomeD)
qed

theorem conn_wellformed_witness:
  "(0, 0) \<in> set (pending_calls demo_waiting)"
proof -
  have "futures demo_waiting = [Open]"
    by (simp add: demo_waiting_def futures_call issue_def new_conn_def)
  then show ?thesis using conn_wellformed [OF demo_waiting_made] by simp
qed

text \<open>
  C30: a connection implements the ledger of calls. In every state its steps lead to, a call
  adds one open entry; a reply or a transported exception answers the call it is for, if
  that is still open, and changes nothing otherwise; serving a request that is not a close
  answers none; closing fails every open call; and a cancelled wait is an answer like any.
\<close>

theorem conn_refines_ledger:
  assumes "reach made (conn_step p) c"
  shows "futures (snd (call p m args kwargs c)) = issue (futures c) \<and>
    futures (snd (serve_one p (Reply seq b) c)) = answer seq (Result (unbox b)) (futures c) \<and>
    futures (snd (serve_one p (Exception_msg seq e) c)) = answer seq (Failed (rebuilt p e)) (futures c) \<and>
    (h = HANDLE_CLOSE \<or> futures (snd (serve_one p (Request seq h b) c)) = futures c) \<and>
    futures (close_conn p c) = (if conn_closed c then futures c else hang_up (futures c)) \<and>
    futures (abandon a c) = answer a Abandoned (futures c)"
proof -
  have ok: "conn_ok c" using assms by (rule rpc.reach_good)
  show ?thesis
    using futures_call [of p m args kwargs c] futures_serve_one [OF ok, of p "Reply seq b"]
      futures_serve_one [OF ok, of p "Exception_msg seq e"] futures_serve_one [OF ok, of p "Request seq h b"]
      futures_close [OF ok, of p] futures_settle [of a Abandoned c]
    unfolding abandon_def by auto
qed

theorem conn_refines_ledger_witness:
  "futures (snd (serve_one demo_peer (Reply 0 (Value_label Nothing)) demo_waiting)) = [Result Nothing]"
proof -
  have "futures demo_waiting = [Open]"
    by (simp add: demo_waiting_def futures_call issue_def new_conn_def)
  then show ?thesis
    using conn_refines_ledger [OF demo_waiting_made, of "[]" "[]" "[]" 0 "Value_label Nothing"]
    by (simp add: answer_def)
qed

text \<open>
  C31: no caller waits for ever. When \<open>serve_forever\<close> ends, whatever ended it, the connection
  is closed and every call made on it has an answer.
\<close>

theorem calls_all_answered:
  assumes "reach made (conn_step p) c" and "\<not> conn_closed c"
    and "serve_forever p events c = (r, c')" and "r \<noteq> Serving"
  shows "conn_closed c' \<and> Open \<notin> set (futures c')"
proof -
  have "conn_ok c" using assms(1) by (rule rpc.reach_good)
  then show ?thesis using serve_forever_answers [OF assms(3) _ assms(4)] assms(2) by blast
qed

theorem calls_all_answered_witness:
  "Open \<notin> set (futures (snd (serve_forever demo_peer [Recv_failed (''EOFError'', [])] demo_waiting)))"
proof -
  let ?r = "serve_forever demo_peer [Recv_failed (''EOFError'', [])] demo_waiting"
  have open': "\<not> conn_closed demo_waiting"
    by (simp add: demo_waiting_def call_def send_msg_def new_conn_def demo_peer_def)
  then have "fst ?r \<noteq> Serving" by (simp add: stop_serving_def peer_gone_def)
  then show ?thesis
    using calls_all_answered [OF demo_waiting_made open', of "[Recv_failed (''EOFError'', [])]" "fst ?r" "snd ?r"]
    by simp
qed

text \<open>
  C32: a call is one round trip to the method it names. On two open ends, the request
  a call sends makes the other end run exactly that method with those arguments, and the
  reply it sends resolves this call, and no other, with the value returned, lists as tuples.
\<close>

theorem call_round_trip:
  assumes "reach made (conn_step p) c" and "\<not> conn_closed c" and "\<not> conn_closed s"
    and "refuses p = (\<lambda>m. None)" and "refuses q = (\<lambda>m. None)"
    and "list_all list_free args" and "list_all (\<lambda>(k, v). list_free v) kwargs"
    and "list_all py_ok args" and "list_all (\<lambda>(k, v). py_ok v) kwargs" and "distinct (dict_keys kwargs)"
    and "exposed q m = Some f" and "f args kwargs (world s) = (Inr v, w)" and "py_ok v"
  shows "\<exists>a c1 request s1 reply c2. call p m args kwargs c = (Inr a, c1) \<and>
    outbox c1 = outbox c @ [request] \<and> serve_one q request s = (None, s1) \<and>
    outbox s1 = outbox s @ [reply] \<and> world s1 = w \<and> serve_one p reply c1 = (None, c2) \<and>
    futures c2 = futures c @ [Result (across (dumpable q) v)]"
proof -
  have ok: "conn_ok c" using assms(1) by (rule rpc.reach_good)
  let ?req = "Request (next_seq c) HANDLE_METHOD (box (dumpable p) (request_args m args kwargs))"
  let ?rep = "Reply (next_seq c) (box (dumpable q) v)"
  obtain a c1 where c1: "call p m args kwargs c = (Inr a, c1)" "outbox c1 = outbox c @ [?req]"
    using assms(2,4) by (auto simp: call_def send_msg_def Let_def)
  have s1: "serve_one q ?req s = (None, s\<lparr>world := w, outbox := outbox s @ [?rep]\<rparr>)"
    using assms(3,5-12) by (simp add: dispatch_def HANDLE_METHOD_def HANDLE_CLOSE_def
        invoke_request send_msg_def)
  have "futures (snd (serve_one p ?rep c1)) = answer (next_seq c) (Result (across (dumpable q) v)) (futures c1)"
    using futures_serve_one [OF conn_ok_call [OF c1(1) ok], of p ?rep] assms(13) by (simp add: unbox_box)
  also have "\<dots> = futures c @ [Result (across (dumpable q) v)]"
    using futures_call [of p m args kwargs c] c1(1) ok by (simp add: answer_def issue_def conn_ok_def)
  finally have c2: "serve_one p ?rep c1 = (None, snd (serve_one p ?rep c1)) \<and>
      futures (snd (serve_one p ?rep c1)) = futures c @ [Result (across (dumpable q) v)] \<and>
      outbox (s\<lparr>world := w, outbox := outbox s @ [?rep]\<rparr>) = outbox s @ [?rep] \<and>
      world (s\<lparr>world := w, outbox := outbox s @ [?rep]\<rparr>) = w"
    by simp
  show ?thesis
    using c1 s1 c2 by blast
qed

theorem call_round_trip_witness:
  "\<exists>a c1 request s1 reply c2. call demo_peer ''count'' [Num 1] [] demo_waiting = (Inr a, c1) \<and>
    outbox c1 = outbox demo_waiting @ [request] \<and> serve_one demo_peer request (new_conn 5) = (None, s1) \<and>
    outbox s1 = outbox (new_conn (5 :: nat)) @ [reply] \<and> world s1 = 6 \<and> serve_one demo_peer reply c1 = (None, c2) \<and>
    futures c2 = futures demo_waiting @ [Result (Tup [Num 5, Num 1])]"
proof -
  have "across (dumpable demo_peer) (Lst [Num 5, Num 1]) = Tup [Num 5, Num 1]"
    by (simp add: demo_peer_def demo_dumpable_def)
  moreover have "exposed demo_peer ''count'' = Some demo_count" "refuses demo_peer = (\<lambda>m. None)"
    by (simp_all add: demo_peer_def)
  moreover have "demo_count [Num 1] [] (world (new_conn 5)) = (Inr (Lst [Num 5, Num 1]), 6)"
    by (simp add: demo_count_def new_conn_def)
  moreover have "\<not> conn_closed demo_waiting" "\<not> conn_closed (new_conn (5 :: nat))"
    by (simp_all add: demo_waiting_def call_def send_msg_def new_conn_def demo_peer_def)
  ultimately show ?thesis
    using call_round_trip [OF demo_waiting_made, of "new_conn 5" demo_peer "[Num 1]" "[]" "''count''"
        demo_count "Lst [Num 5, Num 1]" 6] by simp
qed

end
