(* ===== verification/Clients.thy ===== *)
theory Clients
  imports Machine_Calls Arpyc
begin

text \<open>
  The ends a runner keeps open, and what a process is told about the end of another: the sockets of the memory
  consoles (\<^verbatim>\<open>runner/mconsole.py\<close>, \<^verbatim>\<open>runner/qmp.py\<close>), a connection's constructors and its \<open>root\<close> (\<^verbatim>\<open>runner/arpyc.py\<close>), the
  death signal of a child (\<^verbatim>\<open>runner/backend.py\<close>) and the signals of the harness (\<^verbatim>\<open>runner/harness.py\<close>).
\<close>

section \<open>The memory consoles\<close>

text \<open>
  UML's: the datagrams that wait on the client's socket, if it is open, and whether the path it is bound to is there.
  A guest that sends to a socket nobody has open sends to nobody.
\<close>

record console_client =
  cc_socket :: "string list option"
  cc_path :: bool

definition the_default :: "'a list option \<Rightarrow> 'a list" where
  "the_default v = (case v of None \<Rightarrow> [] | Some xs \<Rightarrow> xs)"

definition console_open :: "exn option \<Rightarrow> console_client \<Rightarrow> exn option \<times> console_client" where
  "console_open bind_raises c =
     (if cc_socket c \<noteq> None then (None, c)
      else (case bind_raises of
          Some e \<Rightarrow> (Some e, c\<lparr>cc_path := False\<rparr>)
        | None \<Rightarrow> (None, c\<lparr>cc_socket := Some [], cc_path := True\<rparr>)))"

definition mc_close :: "console_client \<Rightarrow> console_client" where
  "mc_close c = c\<lparr>cc_socket := None, cc_path := False\<rparr>"

definition arrive :: "string list \<Rightarrow> console_client \<Rightarrow> console_client" where
  "arrive ds c = c\<lparr>cc_socket := map_option (\<lambda>q. q @ ds) (cc_socket c)\<rparr>"

text \<open>One command, with the datagrams that arrive before its wait times out.\<close>

definition console_request ::
  "bool \<Rightarrow> string \<Rightarrow> exn option \<Rightarrow> string list \<Rightarrow> (string \<Rightarrow> string) \<Rightarrow> string \<Rightarrow> console_client \<Rightarrow> (exn + string) \<times> console_client" where
  "console_request served path bind_raises arrivals decode command c =
     (case request_datagram served path command of
        Inl e \<Rightarrow> (Inl (Exn ''MconsoleError'' e), c)
      | Inr _ \<Rightarrow>
         (case console_open bind_raises c of
            (Some e, c1) \<Rightarrow> (Inl e, c1)
          | (None, c1) \<Rightarrow>
             (let c2 = arrive arrivals c1 in
              case collect_reply decode command [] False (the_default (cc_socket c2)) of
                None \<Rightarrow> (Inl (Exn ''TimeoutError'' []), c2\<lparr>cc_socket := Some []\<rparr>)
              | Some (Said t, rest) \<Rightarrow> (Inr t, c2\<lparr>cc_socket := Some rest\<rparr>)
              | Some (Refused t, rest) \<Rightarrow> (Inl (Exn ''MconsoleError'' t), c2\<lparr>cc_socket := Some rest\<rparr>)
              | Some (Garbled, rest) \<Rightarrow> (Inl (Exn ''struct.error'' []), c2\<lparr>cc_socket := Some rest\<rparr>))))"

definition console_ok :: "console_client \<Rightarrow> bool" where
  "console_ok c \<longleftrightarrow> (cc_socket c \<noteq> None \<longrightarrow> cc_path c)"

lemma console_request_ok:
  "console_ok c \<Longrightarrow> console_ok (snd (console_request served path b arrivals decode command c))"
  by (auto simp: console_request_def console_open_def console_ok_def arrive_def Let_def
    split: option.splits sum.splits prod.splits mc_answer.splits)

text \<open>A client that was closed answers its next command with that command's reply, whatever an earlier one left behind.\<close>

lemma console_reopens:
  assumes "request_datagram True path command = Inr d" and "parts_of said ds" and "said \<noteq> []"
    and "\<not> (\<exists>x\<in>set said. fst x)"
  shows "fst (console_request True path None ds decode command (arrive late (mc_close c))) =
    Inr (concat (map (\<lambda>x. decode (snd x)) said))"
  using assms(1,4) collect_reply_whole [OF assms(2,3), of decode command "[]" False "[]"]
  by (simp add: console_request_def console_open_def mc_close_def arrive_def the_default_def Let_def)

text \<open>QEMU's: the client of a library, held once its \<open>connect\<close> has returned, and forgotten before it is disconnected.\<close>

definition qmp_connected :: "exn + 'c \<Rightarrow> 'c option \<Rightarrow> (exn + 'c) \<times> 'c option" where
  "qmp_connected made_now held =
     (case held of Some c \<Rightarrow> (Inr c, held)
      | None \<Rightarrow> (case made_now of Inl e \<Rightarrow> (Inl e, None) | Inr c \<Rightarrow> (Inr c, Some c)))"

definition qmp_close :: "('c \<Rightarrow> exn option) \<Rightarrow> 'c option \<Rightarrow> exn option \<times> 'c option" where
  "qmp_close disconnect held = (case held of None \<Rightarrow> (None, None) | Some c \<Rightarrow> (disconnect c, None))"

text \<open>However the disconnection ends, a second close does nothing, and the next command connects again.\<close>

lemma qmp_close_once: "qmp_close d (snd (qmp_close d held)) = (None, None)"
  by (simp add: qmp_close_def split: option.split)

lemma qmp_reconnects: "qmp_connected made_now (snd (qmp_close d held)) = (made_now, (case made_now of Inl e \<Rightarrow> None | Inr c \<Rightarrow> Some c))"
  by (simp add: qmp_close_def qmp_connected_def split: option.split sum.split)

section \<open>A connection's two ends\<close>

text \<open>\<open>conn.root.name\<close>: a name with an underscore in front is no method.\<close>

definition remote_call ::
  "'w peer \<Rightarrow> string \<Rightarrow> py list \<Rightarrow> (string, py) dict \<Rightarrow> 'w conn \<Rightarrow> (fault + nat) \<times> 'w conn" where
  "remote_call p name pos kw c =
     (if startswith name ''_'' then (Inl (''AttributeError'', name), c) else call p name pos kw c)"

text \<open>An end: the connection, its stream, and whether a task of its own serves it.\<close>

record ('w, 'm) endpoint =
  en_conn :: "'w conn"
  en_stream :: "'m fd_stream"
  en_serving :: bool

definition connection :: "'m \<Rightarrow> bool \<Rightarrow> 'm \<Rightarrow> 'w \<Rightarrow> ('w, 'm) endpoint" where
  "connection raw raw_tty mode w = \<lparr>en_conn = new_conn w, en_stream = open_stream raw raw_tty mode, en_serving = False\<rparr>"

definition start_serving :: "('w, 'm) endpoint \<Rightarrow> ('w, 'm) endpoint" where
  "start_serving x = x\<lparr>en_serving := True\<rparr>"

definition connect_end :: "'m \<Rightarrow> 'm \<Rightarrow> 'w \<Rightarrow> ('w, 'm) endpoint" where
  "connect_end raw mode w = start_serving (connection raw False mode w)"

definition listen_end :: "'m \<Rightarrow> bool \<Rightarrow> 'm \<Rightarrow> 'w \<Rightarrow> ('w, 'm) endpoint" where
  "listen_end raw raw_tty mode w = connection raw raw_tty mode w"

text \<open>
  A listener reads from the moment it is made, before it serves: what arrives in between waits in the stream. A socket
  keeps its mode.
\<close>

lemma listen_reads: "watched (en_stream (listen_end raw raw_tty mode w)) \<and> \<not> en_serving (listen_end raw raw_tty mode w)"
  by (simp add: listen_end_def connection_def open_stream_def)

lemma listen_keeps:
  "fst (read_exactly (length data) (on_readable (Some data) (en_stream (listen_end raw raw_tty mode w)))) = Got data"
  by (cases "data = []") (simp_all add: listen_end_def connection_def open_stream_def on_readable_def read_exactly_def)

lemma connect_keeps_mode: "tty_mode (close_stream settable (en_stream (connect_end raw mode w))) = mode"
  by (simp add: connect_end_def start_serving_def connection_def open_stream_def close_stream_def)

section \<open>The death signal of a child\<close>

text \<open>
  \<open>die_with_parent\<close>, in the child between its fork and its program. The runner may die before any of the three steps: the
  first question for the parent, the request for the signal, the second question. Who inherits the child then
  answers as its parent. \<open>Armed\<close> is the process whose death the kernel will signal.
\<close>

datatype child_fate = Exits_at_once | Armed nat

definition parent_at :: "nat \<Rightarrow> nat \<Rightarrow> nat option \<Rightarrow> nat \<Rightarrow> nat" where
  "parent_at runner heir died_before i = (case died_before of Some k \<Rightarrow> if k \<le> i then heir else runner | None \<Rightarrow> runner)"

definition die_with_parent :: "nat \<Rightarrow> nat \<Rightarrow> nat option \<Rightarrow> child_fate" where
  "die_with_parent runner heir died_before =
     (let before = parent_at runner heir died_before 0; armed = parent_at runner heir died_before 1 in
      if parent_at runner heir died_before 2 \<noteq> before then Exits_at_once else Armed armed)"

text \<open>A runner that dies after the first question leaves no child: it has exited, or its signal was asked for while the runner lived.\<close>

lemma dies_with_runner:
  assumes "died \<noteq> Some 0"
  shows "die_with_parent runner heir died = Exits_at_once \<or> die_with_parent runner heir died = Armed runner"
  using assms by (auto simp: die_with_parent_def parent_at_def Let_def split: option.splits)

text \<open>
  One that dies between the fork and the first question is not noticed: the child compares its new parent with itself
  and runs on, for as long as that parent lives.
\<close>

lemma orphan_not_noticed: "die_with_parent runner heir (Some 0) = Armed heir"
  by (simp add: die_with_parent_def parent_at_def)

section \<open>The signals of the harness\<close>

text \<open>
  \<open>_unwind_on_signal\<close>: the signals that have a handler, those the loop refuses being passed over; and what a handler
  does, which says so and cancels the task.
\<close>

definition UNWIND_SIGNALS :: "string list" where
  "UNWIND_SIGNALS = [''SIGTERM'', ''SIGINT'', ''SIGHUP'']"

fun handled_signals :: "(string \<Rightarrow> exn option) \<Rightarrow> string list \<Rightarrow> exn + string list" where
  "handled_signals refuses_signal [] = Inr []"
| "handled_signals refuses_signal (s # ss) =
     (case refuses_signal s of
        None \<Rightarrow> and_then (handled_signals refuses_signal ss) (\<lambda>hs. Inr (s # hs))
      | Some e \<Rightarrow> if ex_type e \<in> {''NotImplementedError'', ''RuntimeError''} \<and> e \<noteq> Cancelled
          then handled_signals refuses_signal ss else Inl e)"

definition on_signal :: "string \<Rightarrow> string \<times> exn" where
  "on_signal s = (''[test] '' @ s @ '', shutting the guests down ...'', Cancelled)"

lemma signals_unwind: "(\<And>s. refuses_signal s = None) \<Longrightarrow> handled_signals refuses_signal UNWIND_SIGNALS = Inr UNWIND_SIGNALS"
  by (simp add: UNWIND_SIGNALS_def)

end
