(* ===== verification/Backend_Contract.thy ===== *)
theory Backend_Contract
  imports Backend
begin

text \<open>
  What a machine relies on when it calls \<open>self.backend.launch\<close>, whichever of the three backends of
  \<^verbatim>\<open>src/pkgs/uml-runner/uml_runner/backend.py\<close> that is: an interface, its laws, and that each backend keeps them.
\<close>

section \<open>The interface\<close>

text \<open>The descriptors a machine closes once the child has them: all that are passed but its own two.\<close>

definition spare_fds :: "nat \<Rightarrow> nat option \<Rightarrow> launch_plan \<Rightarrow> nat list" where
  "spare_fds agent lan p = filter (\<lambda>fd. fd \<noteq> agent \<and> Some fd \<noteq> lan) (la_pass_fds p)"

definition give_back :: "nat \<Rightarrow> nat option \<Rightarrow> launch_plan \<Rightarrow> host_res \<Rightarrow> host_res" where
  "give_back agent lan p h =
     \<lparr>hr_running = hr_running h - set (la_helpers p), hr_fds = hr_fds h - set (spare_fds agent lan p)\<rparr>"

text \<open>
  A launch takes processes and descriptors that nobody had (\<open>new_only\<close>), names all it took in its plan, takes nothing when it
  fails, and passes the guest its segment.
\<close>

locale backend_contract =
  fixes launch :: "nat \<Rightarrow> nat option \<Rightarrow> host_res \<Rightarrow> (launch_error + launch_plan) \<times> host_res"
    and new_only :: "nat \<Rightarrow> nat option \<Rightarrow> host_res \<Rightarrow> bool"
  assumes failed: "new_only a l h \<Longrightarrow> launch a l h = (Inl e, h') \<Longrightarrow> h' = h"
    and helpers: "new_only a l h \<Longrightarrow> launch a l h = (Inr p, h') \<Longrightarrow>
      set (la_helpers p) \<inter> hr_running h = {} \<and> hr_running h' = hr_running h \<union> set (la_helpers p)"
    and spares: "new_only a l h \<Longrightarrow> launch a l h = (Inr p, h') \<Longrightarrow>
      set (spare_fds a l p) \<inter> hr_fds h = {} \<and> hr_fds h' = hr_fds h \<union> set (spare_fds a l p)"
    and segment: "launch a l h = (Inr p, h') \<Longrightarrow> set_option l \<subseteq> set (la_pass_fds p)"
begin

lemma balanced:
  assumes "new_only a l h" and "launch a l h = (r, h')"
  shows "case r of Inl e \<Rightarrow> h' = h | Inr p \<Rightarrow> give_back a l p h' = h \<and> set_option l \<subseteq> set (la_pass_fds p)"
proof (cases r)
  case (Inl e)
  with assms failed show ?thesis by simp
next
  case (Inr p)
  then have "hr_running h' - set (la_helpers p) = hr_running h" "hr_fds h' - set (spare_fds a l p) = hr_fds h"
    using helpers [OF assms(1)] spares [OF assms(1)] assms(2) by blast+
  then show ?thesis using Inr segment assms(2) by (simp add: give_back_def)
qed

text \<open>Two guests that are up at once can be put down in either order.\<close>

lemma balanced_twice:
  assumes "new_only a l h" "launch a l h = (Inr p, h1)" "new_only b m h1" "launch b m h1 = (Inr q, h2)"
  shows "give_back a l p (give_back b m q h2) = h \<and> give_back b m q (give_back a l p h2) = h"
proof -
  note one = helpers [OF assms(1,2)] spares [OF assms(1,2)] and two = helpers [OF assms(3,4)] spares [OF assms(3,4)]
  have "hr_running h2 - set (la_helpers q) - set (la_helpers p) = hr_running h"
    "hr_running h2 - set (la_helpers p) - set (la_helpers q) = hr_running h"
    "hr_fds h2 - set (spare_fds b m q) - set (spare_fds a l p) = hr_fds h"
    "hr_fds h2 - set (spare_fds a l p) - set (spare_fds b m q) = hr_fds h"
    using one two by blast+
  then show ?thesis by (simp add: give_back_def)
qed

end

section \<open>The three backends\<close>

record guest_launch =
  gl_facts :: host_facts
  gl_job :: guest_job
  gl_qemu :: qemu_world
  gl_container :: container_world
  gl_rundir :: string

definition launch_by ::
  "backend \<Rightarrow> guest_launch \<Rightarrow> nat \<Rightarrow> nat option \<Rightarrow> host_res \<Rightarrow> (launch_error + launch_plan) \<times> host_res" where
  "launch_by b g agent lan h =
     (case b of
        Uml \<Rightarrow> (uml_launch (gl_facts g) (gl_job g) (gl_rundir g) agent lan, h)
      | Qemu \<Rightarrow> qemu_launch (gl_facts g) (gl_job g) (gl_qemu g) (gl_rundir g) agent lan h
      | Container_guest \<Rightarrow>
          (and_then (container_launch (gl_facts g) (gl_job g) (gl_container g) (gl_rundir g) lan) (\<lambda>(p, config). Inr p), h))"

text \<open>Only QEMU's starts and opens anything; the operating system answers it with what is new.\<close>

definition launch_new :: "backend \<Rightarrow> guest_launch \<Rightarrow> nat \<Rightarrow> nat option \<Rightarrow> host_res \<Rightarrow> bool" where
  "launch_new b g agent lan h =
     (b = Qemu \<longrightarrow>
       (case fst (qemu_steps (gl_facts g) (gl_job g) (gl_qemu g) (gl_rundir g) agent lan) of
          (hs, fds) \<Rightarrow> set hs \<inter> hr_running h = {} \<and> set fds \<inter> (hr_fds h \<union> {agent} \<union> set_option lan) = {}))"

lemma qemu_steps_segment:
  "qemu_steps hf j w rundir agent_fd lan_fd = ((hs, fds), Inr p) \<Longrightarrow> set_option lan_fd \<subseteq> set (la_pass_fds p)"
  unfolding qemu_steps_def
  by (cases lan_fd) (auto simp: Let_def and_then_Inr in_fds_of split: prod.splits sum.splits)

lemma set_spare_fds: "set (spare_fds a l p) = set (la_pass_fds p) - ({a} \<union> set_option l)"
  by (cases l) (auto simp: spare_fds_def)

lemma qemu_spares:
  assumes "qemu_steps hf j w rundir a l = ((hs, fds), Inr p)" and "set fds \<inter> ({a} \<union> set_option l) = {}"
  shows "set (spare_fds a l p) = set fds"
  using qemu_steps_plan [OF assms(1)] assms(2) unfolding set_spare_fds by blast

lemma uml_plan:
  assumes "uml_launch hf j rundir a l = Inr p"
  shows "la_helpers p = [] \<and> set (la_pass_fds p) = {a} \<union> set_option l"
proof -
  from assms obtain ram fwd where
    r: "(case socket_dir hf rundir (UMID @ ''/mconsole'') ram of (uml_dir, cleanup) \<Rightarrow>
      la_helpers p = [] \<and> la_pass_fds p = fds_of [Some a, l])"
    unfolding uml_launch_def Let_def and_then_Inr by (fastforce split: prod.splits)
  obtain d c where "socket_dir hf rundir (UMID @ ''/mconsole'') ram = (d, c)" by force
  with r show ?thesis by (cases l) auto
qed

lemma container_plan:
  assumes "container_launch hf j kw rundir l = Inr (p, config)"
  shows "la_helpers p = [] \<and> set (la_pass_fds p) = set_option l"
  using assms
  by (cases l) (auto simp: container_launch_def Let_def and_then_Inr split: prod.splits if_splits)

interpretation uml: backend_contract "launch_by Uml g" "launch_new Uml g" for g
proof unfold_locales
  fix a l h p h'
  assume "launch_by Uml g a l h = (Inr p, h')"
  then have u: "uml_launch (gl_facts g) (gl_job g) (gl_rundir g) a l = Inr p" and h: "h' = h"
    by (simp_all add: launch_by_def)
  note p = uml_plan [OF u]
  show "set_option l \<subseteq> set (la_pass_fds p)" using p by blast
  show "set (la_helpers p) \<inter> hr_running h = {} \<and> hr_running h' = hr_running h \<union> set (la_helpers p)" using p h by simp
  show "set (spare_fds a l p) \<inter> hr_fds h = {} \<and> hr_fds h' = hr_fds h \<union> set (spare_fds a l p)"
    using p h by (auto simp: set_spare_fds)
qed (simp add: launch_by_def)

interpretation container: backend_contract "launch_by Container_guest g" "launch_new Container_guest g" for g
proof unfold_locales
  fix a l h p h'
  assume "launch_by Container_guest g a l h = (Inr p, h')"
  then obtain config where c: "container_launch (gl_facts g) (gl_job g) (gl_container g) (gl_rundir g) l = Inr (p, config)"
    and h: "h' = h"
    by (auto simp: launch_by_def and_then_Inr)
  note p = container_plan [OF c]
  show "set_option l \<subseteq> set (la_pass_fds p)" using p by blast
  show "set (la_helpers p) \<inter> hr_running h = {} \<and> hr_running h' = hr_running h \<union> set (la_helpers p)" using p h by simp
  show "set (spare_fds a l p) \<inter> hr_fds h = {} \<and> hr_fds h' = hr_fds h \<union> set (spare_fds a l p)"
    using p h by (auto simp: set_spare_fds)
qed (simp add: launch_by_def)

interpretation qemu: backend_contract "launch_by Qemu g" "launch_new Qemu g" for g
proof unfold_locales
  fix a l h
  obtain hs fds r where s: "qemu_steps (gl_facts g) (gl_job g) (gl_qemu g) (gl_rundir g) a l = ((hs, fds), r)"
    by (metis surj_pair)
  have new: "set hs \<inter> hr_running h = {} \<and> set fds \<inter> (hr_fds h \<union> {a} \<union> set_option l) = {}" if "launch_new Qemu g a l h"
    using that s by (simp add: launch_new_def)
  show "h' = h" if "launch_new Qemu g a l h" "launch_by Qemu g a l h = (Inl e, h')" for e h'
  proof (rule qemu_launch_failed [OF _ s])
    show "qemu_launch (gl_facts g) (gl_job g) (gl_qemu g) (gl_rundir g) a l h = (Inl e, h')"
      using that(2) by (simp add: launch_by_def)
    show "set hs \<inter> hr_running h = {}" "set fds \<inter> hr_fds h = {}" using new [OF that(1)] by blast+
  qed
  fix p h'
  assume "launch_by Qemu g a l h = (Inr p, h')"
  then have p: "qemu_steps (gl_facts g) (gl_job g) (gl_qemu g) (gl_rundir g) a l = ((hs, fds), Inr p)"
    and h': "h' = \<lparr>hr_running = hr_running h \<union> set hs, hr_fds = hr_fds h \<union> set fds\<rparr>"
    using s by (auto simp: launch_by_def qemu_launch_def Let_def split: sum.splits)
  show "set_option l \<subseteq> set (la_pass_fds p)" using qemu_steps_segment [OF p] .
  have hs: "la_helpers p = hs" using qemu_steps_plan [OF p] by blast
  show "set (la_helpers p) \<inter> hr_running h = {} \<and> hr_running h' = hr_running h \<union> set (la_helpers p)" if "launch_new Qemu g a l h"
    using new [OF that] h' hs by simp
  show "set (spare_fds a l p) \<inter> hr_fds h = {} \<and> hr_fds h' = hr_fds h \<union> set (spare_fds a l p)" if "launch_new Qemu g a l h"
  proof -
    have "set fds \<inter> ({a} \<union> set_option l) = {}" using new [OF that] by blast
    from qemu_spares [OF p this] show ?thesis using new [OF that] h' by auto
  qed
qed


definition demo_launch :: guest_launch where
  "demo_launch =
     \<lparr>gl_facts = demo_facts,
      gl_job = demo_job\<lparr>gj_spec := (gj_spec demo_job)\<lparr>mp_boot :=
        [(''kernel'', JStr ''/k''), (''initrd'', JStr ''/i''), (''cmdline'', JStr ''ro''), (''toplevel'', JStr ''/s'')]\<rparr>\<rparr>,
      gl_qemu = \<lparr>qw_store = Serves 10 100, qw_artifacts = Not_bound [], qw_disk = Inr (20, 21), qw_passt = Serves 11 101,
        qw_passt_log = Inr []\<rparr>,
      gl_container = demo_container, gl_rundir = ''/run/g''\<rparr>"

definition demo_host :: host_res where
  "demo_host = \<lparr>hr_running = {1, 7}, hr_fds = {0, 1, 2, 3, 4}\<rparr>"

lemma demo_qemu_steps:
  "\<exists>p. qemu_steps (gl_facts demo_launch) (gl_job demo_launch) (gl_qemu demo_launch) (gl_rundir demo_launch) 3 (Some 4) =
     (([100, 101], [10, 20, 21, 11]), Inr p)"
proof -
  obtain d c where s: "socket_dir demo_facts ''/run/g'' ''qmp'' None = (d, c)" by force
  have f: "forward_args demo_facts (gl_job demo_launch) = Inr []"
    by (simp add: forward_args_def demo_launch_def demo_job_def to_args_def of_forward_def)
  have j: "gj_artifacts (gl_job demo_launch) = None" "mp_image (gj_spec (gl_job demo_launch)) = Some ''/img''"
    by (simp_all add: demo_launch_def demo_job_def)
  have b: "map_of (mp_boot (gj_spec (gl_job demo_launch))) k \<noteq> None" if "k \<in> {''kernel'', ''initrd'', ''cmdline'', ''toplevel''}" for k
    using that by (auto simp: demo_launch_def)
  have v: "\<exists>t. boot_value (mp_boot (gj_spec (gl_job demo_launch))) k = Inr t" if "k \<in> {''kernel'', ''initrd'', ''cmdline'', ''toplevel''}" for k
    using b [OF that] by (auto simp: boot_value_def)
  have argv: "\<exists>argv. qemu_argv (gl_job demo_launch) d 3 (Some 4) 10 None (20, 21) 11 = Inr argv"
    using v [of "''kernel''"] v [of "''initrd''"] v [of "''cmdline''"] v [of "''toplevel''"]
    unfolding qemu_argv_def Let_def and_then_Inr by blast
  have w: "gl_facts demo_launch = demo_facts" "gl_rundir demo_launch = ''/run/g''" "qw_store (gl_qemu demo_launch) = Serves 10 100"
    "qw_disk (gl_qemu demo_launch) = Inr (20, 21)" "qw_passt (gl_qemu demo_launch) = Serves 11 101"
    by (simp_all add: demo_launch_def)
  from argv show ?thesis
    by (auto simp: qemu_steps_def w s j f virtiofsd_def artifacts_server_def scratch_disk_def passt_def)
qed


end
