(* ===== verification/Spec2Isabelle.thy ===== *)
theory Spec2Isabelle
  imports Sched_Order Sinks Cluster Runner_Cli Server_Tools Follow Pytest_Fixtures Clients Backend_Contract
begin

text \<open>
  \<^bold>\<open>user-mode-nixos\<close> boots NixOS guests (a user-mode kernel, QEMU, or a rootless container) on one host
  and drives tests on them. Three Python packages do the work, \<^verbatim>\<open>src/pkgs/uml\<close> (a run made of phases),
  \<^verbatim>\<open>src/pkgs/uml-runner\<close> (one guest, its network, its agent, a cluster of guests) and \<^verbatim>\<open>src/pkgs/uml-eval\<close> (a server that
  starts runs and reports them). This development is a shallow embedding of the three: every definition is one function, method or class of the source, with the
  source's branches, and the theories stand in the order in which the code calls its modules.

  \<^bold>\<open>How the parts interact.\<close> Nix writes a specification (\<open>spec.py\<close>). The command line (\<open>cli.py\<close>) makes a
  \<open>Session\<close>, which boots one \<open>Machine\<close> per guest: each asks its backend for a command line, waits for the
  ready line on its console and connects to the agent inside over \<open>arpyc\<close>. The scheduler then starts
  phases, each a script or a pytest run that sends commands to guests, until all are answered. Everything
  that happens is an event handed to the sinks and to the monitor; guests' journals and JUnit files
  are turned into events too. A control socket lets a client drive a paused run. At the end the evidence
  is written and everything is put down. An MCP server (\<open>server.py\<close>) starts runs as child processes, follows the
  file of events of each and pushes what matters to monitors. A guest can also be run alone (\<open>harness.py\<close>, and
  \<^verbatim>\<open>runner/cli.py\<close>), without phases; and a script may make a Kubernetes cluster of guests (\<open>cluster.py\<close>).

  \<^bold>\<open>What models what\<close> (files under \<^verbatim>\<open>src/pkgs/uml/uml\<close> unless \<^verbatim>\<open>runner/\<close>, which is
  \<^verbatim>\<open>src/pkgs/uml-runner/uml_runner\<close>):
  \<^item> \<open>Prelude\<close>, \<open>Py_Strings\<close>, \<open>Json\<close>: Python's dictionaries, strings and JSON values; \<open>reach\<close>, and the
    locales \<open>invariant\<close> and \<open>bounded_machine\<close> for everything that has steps, \<open>round_trip\<close> for what one part writes and another reads.
  \<^item> \<open>Run_Spec\<close> (\<open>spec.py\<close>), \<open>Phases\<close> (\<open>phases.py\<close>), \<open>Events\<close> (\<open>events.py\<close>), \<open>Sinks\<close> (\<open>sinks.py\<close>),
    \<open>Journal\<close> (\<open>journal.py\<close>), \<open>Monitor\<close> (\<open>monitor.py\<close>, \<open>junit_in.py\<close>), \<open>Pytest_Plugin\<close> (\<open>pytest_plugin.py\<close>).
  \<^item> \<open>Session\<close>, \<open>Run_Phase\<close>, \<open>Boot\<close> (\<open>session.py\<close>): the attributes of the class as a record, with
    what its methods look at; one phase from \<open>run\<close>'s first line to its last; boot and teardown.
  \<^item> \<open>Scheduler\<close>, \<open>Sched_Order\<close>, \<open>Cli\<close> (\<open>cli.py\<close>), \<open>Control\<close> (\<open>control.py\<close>), with the small run of \<open>Demo\<close>
    that the instances are evaluated on.
  \<^item> \<open>Report\<close> (\<^verbatim>\<open>runner/report.py\<close>), \<open>Forward\<close> (\<^verbatim>\<open>runner/forward.py\<close>), \<open>Lan\<close> (\<^verbatim>\<open>runner/net.py\<close>), \<open>Arpyc\<close>
    (\<^verbatim>\<open>runner/arpyc.py\<close>), \<open>Memory\<close> (\<^verbatim>\<open>runner/mconsole.py\<close>, \<^verbatim>\<open>runner/qmp.py\<close>), \<open>Container\<close>
    and \<open>Launcher\<close> (\<^verbatim>\<open>runner/container.py\<close>), \<open>Backend\<close> and \<open>Backend_Contract\<close> (\<^verbatim>\<open>runner/backend.py\<close>), \<open>Machine_Spec\<close>, \<open>Machine\<close> and
    \<open>Machine_Calls\<close> (\<^verbatim>\<open>runner/machine.py\<close>: what a guest is, its life, the questions to its agent), \<open>Agent\<close>
    (\<^verbatim>\<open>runner/agent.py\<close>), \<open>Cluster\<close> (\<^verbatim>\<open>runner/cluster.py\<close>), \<open>Harness\<close> (\<^verbatim>\<open>runner/harness.py\<close>), \<open>Runner_Cli\<close>
    (\<^verbatim>\<open>runner/cli.py\<close>).
  \<^item> \<open>Server\<close> and \<open>Server_Tools\<close> (\<^verbatim>\<open>src/pkgs/uml-eval/uml_eval/server.py\<close> and \<open>cli.py\<close> there): one run of the server
    as a machine, and the tools over all its runs.
  \<^item> \<open>Arguments\<close>, \<open>Command_Lines\<close>: \<open>argparse\<close>, as far as it is used, and the parsers of \<open>uml\<close>, \<open>uml-eval\<close> and the container
    launcher. \<open>Follow\<close>, \<open>Pytest_Fixtures\<close>, \<open>Clients\<close>: the tasks beside a drive, the fixtures of a test, and the sockets,
    connections and death signals a runner keeps.

  \<^bold>\<open>Conventions.\<close> A method that may raise returns a sum, or the exception beside the state it leaves, so every
  \<open>raise\<close> and early return is a branch. What the outside answers (a clock, a file, a socket, a child
  process, what a test's script does) is data of a record named after the operation (\<open>start_world\<close>,
  \<open>probe_world\<close>, \<open>boot_world\<close>, ...), quantified in the theorems. A library whose source is not in the
  repository is an argument: \<open>loads\<close> and \<open>dumps\<close> (json), \<open>decode\<close>, \<open>validate\<close> (pydantic), the peer of a
  connection (rpyc). Where a theorem needs one of them to behave, it says so in a hypothesis, and its
  instance discharges that on a concrete function. Coroutines interleave only where they await; so a
  coroutine is cut there, and a step relation (\<open>sched_step\<close>, \<open>ctl_step\<close>, \<open>conn_step\<close>, \<open>life\<close>) takes the pieces in
  any order, with what others do in between.

  \<^bold>\<open>What the lemmas show.\<close>
  \<^item> \<^bold>\<open>The schedule.\<close> \<open>Scheduler\<close> proves the invariant of every run (C1, C6): guests are exclusive and a pause is quiet,
    also with breakpoints and phases run by hand. \<open>Sched_Order\<close> adds, for a run
    without them, that order is respected (C2), skips are exact (C3), nothing is left unanswered (C4), and
    the run ends (C5): the measure of \<open>bounded_machine\<close> counts six steps a phase and two more. C9 and
    \<open>launchable_maximal\<close> specify the two functions it rests on; C7, C8 and C28 say what one phase does to the session.
  \<^item> \<^bold>\<open>The record.\<close> Journals lose nothing however they are read (C11); every sink is served as if alone
    (C13); a JUnit file fails exactly when the run does (C16); the status file tells the verdict (C37); commands are attributed
    to their phase (C7); the report counts no second twice (C24) and may miss a call (C17).
  \<^item> \<^bold>\<open>The server.\<close> A monitor of a run is sent what its file of events says, in order (C15), and exits with its verdict
    (C18), unless the run writes its last lines and exits between two steps of the watch (C12). What the server
    is asked for is what the run is told (C38).
  \<^item> \<^bold>\<open>The network.\<close> Forwards get addresses of their own (C19, C22) and \<open>reachable\<close> is exact (C20) except in the
    block of moved ports (C21); segments deliver to everyone else (C23).
  \<^item> \<^bold>\<open>The connections.\<close> Frames survive fragmentation (C29); a connection is well formed (C14) and refines a ledger of calls
    (C30), so every call is answered (C31), with its own result (C32). The control socket is quiet while
    the run is not paused (C33), its lines arrive as sent (\<open>request_reply_roundtrip\<close>), and C35 and C36 are two ways in which it goes wrong.
  \<^item> \<^bold>\<open>A guest.\<close> Every process, descriptor and directory a guest takes is one its machine will give back, so nothing is left
    after a shutdown that returns (C39); a container's ids are ids its user was granted (C40). Whichever its backend, a launch is
    balanced: it names all it took, and takes nothing when it fails (C34). \<open>Backend\<close> shows that
    a socket path fits, and where a guest's memory may lie; \<open>Memory\<close> that
    sizes are read back, replies are collected whole, and the wait for a balloon ends. The agent lists exactly the ports that
    listen (C27). A test leaves neither guest nor segment behind, whatever ends it (C25), and its report and exit
    status say how it ended (C26). A cluster that comes up was made in full: every step ran on every guest it is for (C10).

  \<^bold>\<open>Bounds and fuel.\<close> No definition runs on fuel: loops are recursions over what they read, or over a
  measure (\<open>dep_loop\<close>: names not found yet; \<open>strip_ansi\<close>: the length left; \<open>parse_words\<close>: the words left). A loop that waits is a function of
  the list of answers it gets and is \<^const>\<open>None\<close> while it still waits; that it ends is a lemma
  (\<open>balloon_wait_bounded\<close>, \<open>next_line_ends\<close>, \<open>wait_for_unit_ends\<close>) or C5. The bytes of the wire are
  \<^verbatim>\<open>8 word\<close>, and lengths are packed with their bound; Python's other integers have none and are \<^typ>\<open>int\<close> or
  \<^typ>\<open>nat\<close>. Floats are exact rationals.

  \<^bold>\<open>Not modelled.\<close> The parsers of \<^verbatim>\<open>runner/cli.py\<close> and \<^verbatim>\<open>runner/harness.py\<close> (a table of one kind each; their records are
  inputs); the text a \<open>kubectl\<close> prints and the clock of its waits, which are data, as is a deadline that cuts a check of
  \<open>Cluster\<close> in mid-call; guests that are gathered act in the order of the list. Terminal modes are values, and an \<open>ioctl\<close>
  is what it is given. A second signal while a test tears down. The pass of bytes between pytest's threads and the event
  loop; \<^verbatim>\<open>_pytest_main\<close>, which only calls pytest. The copy of a container's root template. \<^verbatim>\<open>runner/crun_launch.py\<close> only
  starts \<^verbatim>\<open>runner/container.py\<close>. The passt bridge is Rust and is used only through what the command line
  asks of it. Documentation strings and module constants with no behaviour are most of what is left of the Python.
\<close>

section \<open>A small run, for the instances\<close>

lemma demo_start: "plain_starts demo_config (sched_start demo_session)"
  unfolding plain_starts_def
  by (rule exI [of _ demo_session])
    (simp add: demo_simps guests_known_def dict_keys_def new_session_def phase_names_def)

lemma demo_sched_start: "sched_starts demo_config (sched_start demo_session)"
  using demo_start by (auto simp: plain_starts_def sched_starts_def)

lemma demo_launched_step: "sched_step demo_config cx (sched_start demo_session) demo_launched"
  unfolding demo_launched_def by (rule turn) (simp add: sched_start_def)

lemma demo_plain_reach: "reach (plain_starts demo_config) (sched_step demo_config cx) demo_launched"
  using demo_start demo_launched_step by (blast intro: reach.intros)

lemma demo_reach: "reach (sched_starts demo_config) (sched_step demo_config cx) demo_launched"
  using demo_sched_start demo_launched_step by (blast intro: reach.intros)

lemma demo_running:
  "sc_running demo_launched =
     [(''build'', demo_phase ''build'' [] [''one'']), (''lint'', demo_phase ''lint'' [] [''two''])]"
  by code_simp

definition demo_vms :: "(string, guest) dict" where
  "demo_vms = [(''one'', demo_guest ''one''), (''two'', demo_guest ''two'')]"

definition demo_inside :: sched where
  "demo_inside = task_enter demo_env (demo_phase ''build'' [] [''one'']) demo_vms demo_launched"

definition demo_failed :: sched where
  "demo_failed = ran_task demo_env (demo_phase ''build'' [] [''one'']) demo_vms (Some (Exn ''AssertionError'' ''boom'')) demo_launched"

definition demo_linted :: sched where
  "demo_linted = ran_task demo_env (demo_phase ''lint'' [] [''two'']) demo_vms None demo_failed"

definition demo_finished :: sched where
  "demo_finished = sched_turn demo_config (demo_linted\<lparr>sc_changed := False, sc_mode := Deciding\<rparr>)"

definition demo_breaks :: sched_config where
  "demo_breaks = demo_config\<lparr>sg_control := True, sg_breaks := {''lint''}\<rparr>"

lemma demo_launched_task:
  "map_of (sc_running demo_launched) ''build'' = Some (demo_phase ''build'' [] [''one''])"
  "map_of (sc_tasks demo_launched) ''build'' = Some Launched"
  "se_vms (sc_session demo_launched) = Some demo_vms"
  by (simp add: demo_running, code_simp)
    (simp add: demo_launched_def turn_guests sched_start_def demo_session_def demo_vms_def)

lemma demo_inside_reach: "reach (sched_starts demo_config) (sched_step demo_config demo_env) demo_inside"
  using enter [OF demo_launched_task, of demo_config demo_env "[]"] demo_reach
  by (auto simp: demo_inside_def work_nothing intro: reach_step)

lemma demo_failed_reach: "reach (plain_starts demo_config) (sched_step demo_config demo_env) demo_failed"
  unfolding demo_failed_def by (rule ran_task_reach [OF demo_plain_reach demo_launched_task])
    (simp_all add: demo_phase_def)

lemma demo_linted_reach: "reach (plain_starts demo_config) (sched_step demo_config demo_env) demo_linted"
  unfolding demo_linted_def
proof (rule ran_task_reach [OF demo_failed_reach])
  show "map_of (sc_running demo_failed) ''lint'' = Some (demo_phase ''lint'' [] [''two''])" by code_simp
  show "map_of (sc_tasks demo_failed) ''lint'' = Some Launched" by code_simp
  have "map_option (map fst) (se_vms (sc_session demo_failed)) = Some [''one'', ''two'']" by code_simp
  show "se_vms (sc_session demo_failed) = Some demo_vms" by code_simp
qed (simp_all add: demo_phase_def)

lemma demo_finished_reach: "reach (plain_starts demo_config) (sched_step demo_config demo_env) demo_finished"
proof -
  have "sc_mode demo_linted = Waiting" "sc_changed demo_linted" by code_simp+
  from wake [OF this, of demo_config demo_env "[]"]
  have "reach (plain_starts demo_config) (sched_step demo_config demo_env) (demo_linted\<lparr>sc_changed := False, sc_mode := Deciding\<rparr>)"
    using demo_linted_reach by (auto simp: work_nothing intro: reach_step)
  then show ?thesis unfolding demo_finished_def by (rule reach_step) (rule turn, simp)
qed

section \<open>The schedule\<close>















text \<open>C8: A phase run to its end is passed or failed, as its body was; a failed one takes exactly the pending
  phases that need it to skipped, a passed one changes no other state and no error, and the guests it
  held are released.\<close>

theorem run_outcome:
  assumes "run cx w p s = (Inr v, s')" and "calm w"
  shows "(v = PASSED \<or> v = FAILED) \<and>
    state_of (se_state s') (ph_name p) = v \<and>
    {n. n \<noteq> ph_name p \<and> map_of (se_state s') n \<noteq> map_of (se_state s) n} =
      {n. n \<noteq> ph_name p \<and> v = FAILED \<and> needs (sp_phases (se_spec s)) n (ph_name p) \<and> map_of (se_state s) n = Some PENDING} \<and>
    (\<exists>vms. se_vms s = Some vms \<and> (\<forall>g. map_of (se_running s') g =
       (if g \<in> set (phase_nodes p vms) then None else map_of (se_running s) g)))"
proof -
  note r = run_states [OF assms]
  have "state_of (se_state s') (ph_name p) = v" using r by (simp add: state_of_def dict_get_def)
  moreover have "{n. n \<noteq> ph_name p \<and> map_of (se_state s') n \<noteq> map_of (se_state s) n} =
      {n. n \<noteq> ph_name p \<and> v = FAILED \<and> needs (sp_phases (se_spec s)) n (ph_name p) \<and> map_of (se_state s) n = Some PENDING}"
    using r by (auto simp: skipped_by_def dependents_iff)
  ultimately show ?thesis using r by blast
qed

definition demo_world :: run_world where
  "demo_world =
     \<lparr> rw_import = Test [Print (''hello'' @ [LF]), Command ''one'' ''make'' 2, Elapse 3] (Some (Exn ''AssertionError'' ''boom'')),
       rw_pytest = \<lparr> pr_hooks = [], pr_code = 0 \<rparr>, rw_is_dir = (\<lambda>_. False),
       rw_settle = \<lparr> sw_ns = (\<lambda>_. 0), sw_echo = (\<lambda>_. True), sw_sends = 2, sw_rounds = [], sw_cancel = None \<rparr>,
       rw_files = [] \<rparr>"

theorem run_outcome_witness:
  "state_of (se_state (snd (run demo_env demo_world (demo_phase ''build'' [] [''one'']) demo_session))) ''build'' = FAILED"
proof -
  let ?p = "demo_phase ''build'' [] [''one'']"
  let ?s = "run_enter ?p (phase_nodes ?p demo_vms) (snd (drain (cx_loads demo_env) (cx_decode demo_env) demo_session))"
  have "fst (drain (cx_loads demo_env) (cx_decode demo_env) demo_session) = None"
    "fst (run_body demo_env demo_world ?p ?s) = Some (Exn ''AssertionError'' ''boom'')"
    "fst (settle (cx_loads demo_env) (cx_decode demo_env) (rw_settle demo_world) (Some (phase_nodes ?p demo_vms))
       (snd (run_body demo_env demo_world ?p ?s))) = None" by code_simp+
  moreover have "se_vms demo_session = Some demo_vms" by (simp add: demo_session_def demo_vms_def)
  ultimately have v: "fst (run demo_env demo_world ?p demo_session) = Inr FAILED"
    by (subst run_verdict) auto
  have "run demo_env demo_world (demo_phase ''build'' [] [''one'']) demo_session =
      (Inr FAILED, snd (run demo_env demo_world (demo_phase ''build'' [] [''one'']) demo_session))"
    using v by (metis prod.collapse)
  from run_outcome [OF this] show ?thesis by (simp add: calm_def demo_world_def demo_phase_def)
qed

section \<open>What a failure takes, and what may start\<close>

text \<open>C9: The phases a failure skips are those that need the failed one through a chain of \<open>after\<close> edges,
  none of them into a phase that always runs; the loop that finds them ends.\<close>

theorem skipped_by_closure: "x \<in> skipped_by n phases \<longleftrightarrow> x \<noteq> n \<and> needs phases x n"
  by (simp add: skipped_by_def dependents_iff)

text \<open>What may be launched beside the running phases meets none of them and nothing else launched with
  it, and nothing ready is left out unless it meets one of those.\<close>

theorem launchable_maximal:
  assumes "p \<in> set ready_ps"
  shows "p \<in> set (launchable ready_ps running every) \<and> claims p every \<inter> held_by running every = {} \<or>
    p \<notin> set (launchable ready_ps running every) \<and>
    claims p every \<inter> (held_by running every \<union> (\<Union>q\<in>set (launchable ready_ps running every). claims q every)) \<noteq> {}"
  using launch_loop_maximal [OF assms, of every "held_by running every"]
    launch_loop_disjoint_held [of p every "held_by running every" ready_ps]
  unfolding launchable_def by blast

theorem launchable_maximal_witness:
  "claims (demo_phase ''push'' [] []) {''one'', ''two''} \<inter>
   (held_by [] {''one'', ''two''} \<union> (\<Union>q\<in>set (launchable demo_phases [] {''one'', ''two''}). claims q {''one'', ''two''})) \<noteq> {}"
proof -
  let ?l = "launchable (demo_phases @ [demo_phase ''push'' [] []]) [] {''one'', ''two''}"
  have "demo_phase ''push'' [] [] \<notin> set ?l" "?l = launchable demo_phases [] {''one'', ''two''}" by code_simp+
  with launchable_maximal [of "demo_phase ''push'' [] []" "demo_phases @ [demo_phase ''push'' [] []]" "[]" "{''one'', ''two''}"]
  show ?thesis by simp
qed

section \<open>The guests' journals\<close>


definition demo_loads :: "string \<Rightarrow> json option" where
  "demo_loads line = Some (JObj [(''MESSAGE'', JStr line)])"

definition demo_logging :: session where
  "demo_logging = demo_session\<lparr>se_journals := [(''one'', fresh_tail)], se_files := [(''one'', ''a'' @ [LF] @ ''b'' @ [LF] @ ''c'')]\<rparr>"


text \<open>However a journal file grows between reads, the lines its tail hands out are the complete lines of
  what was written, in order.\<close>

theorem tail_pieces: "fst (follow_file decode [] pieces fresh_tail) = fst (journal_split decode (concat pieces))"
  using follow_file_spec [OF caught_up_fresh, of decode pieces]
  by (cases "follow_file decode [] pieces fresh_tail") simp

section \<open>The sinks\<close>

text \<open>C13: \<open>Broadcast\<close> gives every sink the events it would have had alone: one that fails stops for
  itself, at the event it failed at, and no other sink notices.\<close>

theorem broadcast_isolates:
  "flags 0 (bc_sinks (fold (broadcast_emit dumps) es b)) (bc_broken (fold (broadcast_emit dumps) es b)) =
     map (alone dumps es) (flags 0 (bc_sinks b) (bc_broken b))"
  by (rule broadcast_fold_flags)

text \<open>A log on a disk with room holds, after any events, the rendering of every one of them in order,
  whatever the other sinks do.\<close>

theorem log_keeps_everything:
  assumes "i < length (bc_sinks b)" and "bc_sinks b ! i = LogSink f" and "i \<notin> bc_broken b"
    and "tf_open f" and "tf_room f = None"
  shows "bc_sinks (fold (broadcast_emit dumps) es b) ! i =
      LogSink (f\<lparr>tf_text := tf_text f @ concat (map (\<lambda>e. render e @ [LF]) es)\<rparr>)"
proof -
  have "emit_all log_emit f es = Inr (f\<lparr>tf_text := tf_text f @ concat (map (\<lambda>e. render e @ [LF]) es)\<rparr>)"
    using assms(4,5) by (rule log_roomy)
  then have "emit_all (sink_emit dumps) (LogSink f) es =
      Inr (LogSink (f\<lparr>tf_text := tf_text f @ concat (map (\<lambda>e. render e @ [LF]) es)\<rparr>))"
    by (simp add: emit_all_lift [of dumps LogSink log_emit])
  from alone_emit_all [OF this] broadcast_fold_nth [OF assms(1), of dumps es] assms(2,3)
  show ?thesis by simp
qed

theorem log_keeps_everything_witness:
  "bc_sinks (fold (broadcast_emit json_repr) [mk_event K_NOTE ''hi'' L_INFO None None None []]
      \<lparr> bc_sinks = [LogSink (fresh_file (Some 0)), LogSink (fresh_file None)], bc_broken = {}, bc_stderr = [] \<rparr>) ! 1 =
    LogSink (fresh_file None\<lparr>tf_text := render (mk_event K_NOTE ''hi'' L_INFO None None None []) @ [LF]\<rparr>)"
  by (subst log_keeps_everything [where f = "fresh_file None"]) (simp_all add: fresh_file_def)

section \<open>JUnit\<close>

text \<open>The three counts of a JUnit document are the numbers of its rows, of its failed rows and of its
  skipped rows, and collecting only finished phases and cases, as the sink does, changes nothing.\<close>

theorem junit_counts_rows:
  "(let acc = junit_scan name events; ks = kept events;
        rows = map (row_state name (with_cases ks) (failing_cases ks)) ks
    in length (ja_cases acc) = length (filter (\<lambda>r. r \<noteq> None) rows) \<and>
       ja_failures acc = length (filter (\<lambda>r. r = Some ''failed'') rows) \<and>
       ja_skipped acc = length (filter (\<lambda>r. r = Some ''skipped'') rows)) \<and>
   junit (filter (\<lambda>e. ev_kind e = K_PHASE_FINISHED \<or> ev_kind e = K_CASE) events) name = junit events name"
  using junit_fold_counts [of name "with_cases (kept events)" "failing_cases (kept events)" "kept events"]
  by (simp add: junit_scan_def Let_def junit_filtered filter_map_comp)

text \<open>C16: A JUnit document counts a failure exactly when a phase failed or was interrupted, or a test case
  failed, among the events that are not by hand.\<close>

theorem junit_fails_iff:
  "0 < ja_failures (junit_scan name events) \<longleftrightarrow>
     (\<exists>e\<in>set (kept events). (ev_kind e = K_CASE \<and> bad_outcome e) \<or>
        (ev_kind e = K_PHASE_FINISHED \<and> data_str e ''state'' [] \<in> {''failed'', ''interrupted''}))"
  (is "_ = ?bad")
proof -
  let ?ks = "kept events"
  let ?row = "row_state name (with_cases ?ks) (failing_cases ?ks)"
  have "0 < ja_failures (junit_scan name events) \<longleftrightarrow> (\<exists>e\<in>set ?ks. ?row e = Some ''failed'')"
    using junit_fold_counts [of name "with_cases ?ks" "failing_cases ?ks" ?ks]
    by (auto simp: junit_scan_def Let_def filter_empty_conv)
  also have "\<dots> \<longleftrightarrow> ?bad"
  proof
    assume "\<exists>e\<in>set ?ks. ?row e = Some ''failed''"
    then show ?bad using failed_row_is_bad by blast
  next
    assume ?bad
    then show "\<exists>e\<in>set ?ks. ?row e = Some ''failed''"
      using bad_phase_has_failed_row [of _ ?ks name] junit_row_failed_case
      by (fastforce simp: row_state_def)
  qed
  finally show ?thesis .
qed

text \<open>What the escape writes holds no markup, and reading the entities back gives the text.\<close>

theorem xml_escape_roundtrip:
  "xml_unescape (xml_escape s) = s \<and> {CHR ''<'', CHR ''>'', CHR 0x22} \<inter> set (xml_escape s) = {}"
  using escape_char_clean by (auto simp: xml_escape_one_pass)

section \<open>The evidence\<close>

text \<open>The status file says 0 exactly when every phase passed or was deselected, and the last event of
  the stream gives the same verdict.\<close>

theorem status_file_verdict:
  "(map_of (se_written (write_output dumps s)) ''status'' = Some (''0'' @ [LF])) =
      (set (map snd (se_state s)) \<subseteq> {PASSED, DESELECTED}) \<and>
   (se_sink s = None \<or>
      jget (ev_data (last (stream (write_output dumps s)))) ''passed'' =
        JBool (set (map snd (se_state s)) \<subseteq> {PASSED, DESELECTED}))"
  by (auto simp: write_output_def Let_def stream_emit session_passed_def passed_iff jget_def dict_get_def)

section \<open>Forwards\<close>

text \<open>C19: Resolving a guest's forwards gives every rule an address; a rule that had none gets a loopback
  address that was not taken and on which every port it asked for is free, and every port that is kept
  is one the host lets us bind or was moved by the rule's offset to reach the same guest port.\<close>

theorem resolve_addresses:
  assumes "resolve can_bind start rules taken = Inr (rs, said, taken')" and "1 < start" and "r' \<in> set rs"
  shows "ru_address r' \<noteq> None \<and>
    (\<forall>kept q. ru_ports r' = Ports kept \<longrightarrow> q \<in> set kept \<longrightarrow> start \<le> pm_host q \<or>
       (\<exists>r\<in>set rules. \<exists>ps. \<exists>p\<in>set ps. ru_ports r = Ports ps \<and> ru_remap r \<and> pm_guest q = pm_guest p \<and>
          pm_host q = pm_host p + ru_offset r))"
proof (cases "filter (\<lambda>r. ru_address r = None) rules = []")
  case True
  then have "remap_all start rules = (rs, said)" and a: "\<forall>r\<in>set rules. ru_address r \<noteq> None"
    using resolve_none [OF assms(1)] by (auto simp: filter_empty_conv)
  then obtain r n where r: "r \<in> set rules" "remap_rule r start = (r', n)"
    using remap_all_from assms(3) by blast
  then show ?thesis
    using a remap_rule_fields [OF r(2)] remap_rule_ports [OF r(2) _ _ assms(2)] by fastforce
next
  case False
  then obtain a where "remap_all start (map (with_address a) rules) = (rs, said)"
    using resolve_some [OF assms(1)] by blast
  then obtain r n where r: "r \<in> set rules" "remap_rule (with_address a r) start = (r', n)"
    using remap_all_from assms(3) by fastforce
  then show ?thesis
    using remap_rule_fields [OF r(2)] remap_rule_ports [OF r(2) _ _ assms(2)]
    by (fastforce simp: with_address_def)
qed

definition demo_rule :: rule where
  "demo_rule = \<lparr> ru_address = None, ru_ports = Ports [\<lparr> pm_host = 22, pm_guest = 22 \<rparr>],
     ru_protocols = [''tcp''], ru_remap = True, ru_offset = 10000 \<rparr>"

lemma demo_assign:
  "assign (\<lambda>_ _. True) [demo_rule] {} = Inr ''127.0.0.2''"
  "assign (\<lambda>_ _. True) [demo_rule] {''127.0.0.2''} = Inr ''127.0.0.3''"
proof -
  have n: "[2..<255] = 2 # 3 # [4..<255::nat]" by (simp add: upt_conv_Cons)
  have a: "octet_address 2 = ''127.0.0.2''" "octet_address 3 = ''127.0.0.3''" by code_simp+
  have w: "sort_by (\<le>) (remdups (concat (map host_ports [demo_rule]))) = [22]" by code_simp
  show "assign (\<lambda>_ _. True) [demo_rule] {} = Inr ''127.0.0.2''"
    "assign (\<lambda>_ _. True) [demo_rule] {''127.0.0.2''} = Inr ''127.0.0.3''"
    unfolding assign_def n w by (simp_all add: a)
qed

definition demo_moved :: "string \<Rightarrow> rule" where
  "demo_moved a = demo_rule\<lparr>ru_address := Some a, ru_ports := Ports [\<lparr> pm_host = 10022, pm_guest = 22 \<rparr>]\<rparr>"

lemma demo_resolve:
  "\<exists>said. resolve (\<lambda>_ _. True) 1024 [demo_rule] {} = Inr ([demo_moved ''127.0.0.2''], said, {''127.0.0.2''})"
  "\<exists>said. resolve (\<lambda>_ _. True) 1024 [demo_rule] {''127.0.0.2''} =
     Inr ([demo_moved ''127.0.0.3''], said, {''127.0.0.3'', ''127.0.0.2''})"
proof -
  have m: "fst (remap_all 1024 [with_address a demo_rule]) = [demo_moved a]" for a
    by (simp add: remap_rule_def with_address_def demo_rule_def demo_moved_def wide_def split: prod.split)
  have u: "filter (\<lambda>r. ru_address r = None) [demo_rule] = [demo_rule]" by (simp add: demo_rule_def)
  show "\<exists>said. resolve (\<lambda>_ _. True) 1024 [demo_rule] {} = Inr ([demo_moved ''127.0.0.2''], said, {''127.0.0.2''})"
    "\<exists>said. resolve (\<lambda>_ _. True) 1024 [demo_rule] {''127.0.0.2''} =
     Inr ([demo_moved ''127.0.0.3''], said, {''127.0.0.3'', ''127.0.0.2''})"
    using m [of "''127.0.0.2''"] m [of "''127.0.0.3''"]
    unfolding resolve_def Let_def u by (simp_all add: demo_assign split_beta del: remap_all.simps)
qed

theorem resolve_addresses_witness: "ru_address (demo_moved ''127.0.0.2'') \<noteq> None"
  using demo_resolve(1) resolve_addresses [of "\<lambda>_ _. True" 1024 "[demo_rule]" "{}" "[demo_moved ''127.0.0.2'']"]
  by auto

text \<open>C20: What \<open>reachable\<close> answers is what passt forwards: a host port is listed for a guest port exactly
  when the specs given to passt lead from one to the other, for every guest port that is neither
  ephemeral nor inside the block the privileged ports are moved to.\<close>

theorem reachable_is_forwarded:
  assumes "1 \<le> guest" and "\<not> (fst eph \<le> guest \<and> guest \<le> snd eph)" and "\<not> shadowed start r guest"
  shows "host \<in> set (rule_reachable guest start eph r) \<longleftrightarrow> rule_forwards start eph r host guest"
proof (cases "ru_ports r")
  case (Ports ps)
  then show ?thesis by (simp add: rule_reachable_narrow rule_forwards_narrow)
next
  case AllPorts
  with assms show ?thesis
    by (cases eph)
      (auto simp: rule_reachable_def rule_forwards_def spec_list_def spec_forwards_def shadowed_def wide_def)
qed

definition demo_wide :: rule where
  "demo_wide = demo_rule\<lparr>ru_address := Some ''127.0.0.2'', ru_ports := AllPorts\<rparr>"

theorem reachable_is_forwarded_witness: "rule_forwards 1024 (32768, 60999) demo_wide 10022 22"
proof -
  have "(10022::int) \<in> set (rule_reachable 22 1024 (32768, 60999) demo_wide)" by code_simp
  then show ?thesis
    using reachable_is_forwarded [of 22 "(32768, 60999)" 1024 demo_wide 10022]
    by (simp add: shadowed_def demo_wide_def demo_rule_def)
qed

text \<open>C21: Inside that block \<open>reachable\<close> is wrong: it names the guest port's own number on the host, and
  what passt has behind that number is a privileged port of the guest.\<close>

theorem reachable_shadowed:
  assumes "shadowed start r guest" and "start \<le> guest" and "0 < ru_offset r"
    and "\<not> (fst eph \<le> guest \<and> guest \<le> snd eph)"
  shows "guest \<in> set (rule_reachable guest start eph r) \<and> \<not> rule_forwards start eph r guest guest \<and>
    rule_forwards start eph r guest (guest - ru_offset r) \<and> guest - ru_offset r < start"
  using assms
  by (cases eph)
    (auto simp: rule_reachable_def rule_forwards_def spec_list_def spec_forwards_def shadowed_def wide_def)

theorem reachable_shadowed_witness:
  "(10022::int) \<in> set (rule_reachable 10022 1024 (32768, 60999) demo_wide) \<and>
   \<not> rule_forwards 1024 (32768, 60999) demo_wide 10022 10022 \<and>
   rule_forwards 1024 (32768, 60999) demo_wide 10022 22"
  using reachable_shadowed [of 1024 demo_wide 10022 "(32768, 60999)"]
  by (simp add: shadowed_def demo_wide_def demo_rule_def wide_def)


definition demo_forwarding :: "string \<Rightarrow> guest" where
  "demo_forwarding name = \<lparr> gu_spec = (demo_machine name)\<lparr>mp_forward := [demo_rule]\<rparr>, gu_history = [], gu_alive = False \<rparr>"


section \<open>The segments\<close>

text \<open>C23: A burst on one port of a hub goes, with room everywhere, to every other guest on the segment: the
  same frames in the same order behind what was queued; the sender hears nothing back, no other queue
  changes and nothing is counted as dropped.\<close>

theorem flood_reaches_others:
  assumes "distinct (others l src)" and "src \<notin> peer ` set (others l src)" and "src \<notin> kn_closed k"
    and "\<forall>d\<in>set (others l src). room_for BURST k d"
    and "\<forall>f\<in>set (kn_queue k src). f \<noteq> [] \<and> length f \<le> FRAME_MAX"
    and "flood src l k = (l', k')"
  shows "la_dropped l' = la_dropped l \<and> kn_queue k' src = drop BURST (kn_queue k src) \<and>
    (\<forall>d\<in>set (others l src). kn_queue k' (peer d) = kn_queue k (peer d) @ take BURST (kn_queue k src)) \<and>
    (\<forall>q. q \<noteq> src \<longrightarrow> q \<notin> peer ` set (others l src) \<longrightarrow> kn_queue k' q = kn_queue k q)"
proof -
  obtain dropped where "flood_loop BURST src (others l src) (la_dropped l) k = (dropped, k')"
    and "l' = l\<lparr>la_dropped := dropped\<rparr>"
    using assms(6) by (auto simp: flood_def split: prod.splits)
  with flood_loop_delivers [OF assms(1-5)] show ?thesis by simp
qed

definition demo_hub :: lan where
  "demo_hub = \<lparr> la_name = ''vec1'', la_fds = [], la_dropped = 0, la_guest_ends = [], la_ports = [0, 2, 4] \<rparr>"

definition demo_traffic :: kernel where
  "demo_traffic = \<lparr> kn_next = 3, kn_queue = (\<lambda>q. if q = 0 then [''ping''] else []), kn_limit = 100,
     kn_closed = {}, kn_readers = {0, 2, 4} \<rparr>"

theorem flood_reaches_others_witness: "kn_queue (snd (flood 0 demo_hub demo_traffic)) 3 = [''ping'']"
proof -
  have o: "others demo_hub 0 = [2, 4]" by code_simp
  have p: "peer 2 = 3" "peer 4 = 5" by code_simp+
  obtain l' k' where f: "flood 0 demo_hub demo_traffic = (l', k')" by (meson prod.exhaust)
  have "kn_queue k' (peer 2) = kn_queue demo_traffic (peer 2) @ take BURST (kn_queue demo_traffic 0)"
    using flood_reaches_others [OF _ _ _ _ _ f]
    by (simp add: o p room_for_def demo_traffic_def BURST_def FRAME_MAX_def)
  with f show ?thesis by (simp add: p demo_traffic_def BURST_def)
qed

section \<open>The report\<close>


definition demo_step :: "rat \<Rightarrow> rat \<Rightarrow> rstep" where
  "demo_step t secs = \<lparr> rs_at = t, rs_machine = ''one'', rs_kind = ''rpc'', rs_what = ''true'', rs_seconds = secs \<rparr>"


section \<open>The monitor\<close>

text \<open>What a watcher prints and the status it exits with do not depend on how the stream of events was
  cut into pieces.\<close>

theorem monitor_pieces:
  assumes "concat pieces = concat pieces'"
  shows "monitor_follow loads dumps as_js [] pieces = monitor_follow loads dumps as_js [] pieces'"
  using assms by (simp add: monitor_follow_eq)

theorem monitor_pieces_witness:
  "monitor_follow (\<lambda>_. Some (JObj [])) json_repr True [] [''{}'' @ [LF], ''{}'' @ [LF]] =
   monitor_follow (\<lambda>_. Some (JObj [])) json_repr True [] [''{'', ''}'' @ [LF] @ ''{'', ''}'' @ [LF]]"
  by (rule monitor_pieces) simp

section \<open>pytest\<close>

text \<open>A pytest phase passes only when pytest exits with 0, and then its summary counts, for each outcome,
  exactly the test cases this run added to the event stream.\<close>

theorem pytest_summary_counts:
  assumes "session_pytest loads decode is_dir pr name ps by_hand s = (Inr summary, s')" and "se_sink s \<noteq> None"
  shows "pr_code pr = 0 \<and> (\<exists>p. summary = plugin_summary p \<and>
    (\<forall>outcome. case_count outcome s' = case_count outcome s + dict_get (pl_outcomes p) outcome 0))"
proof -
  define here where "here = (if is_dir (ps_tests ps) then ps_tests ps else path_parent (ps_tests ps))"
  define s1 where "s1 = s\<lparr>se_path := here # se_path s\<rparr>"
  obtain p s2 where h: "run_hooks loads decode (pr_hooks pr) (new_plugin name by_hand, s1) = (p, s2)"
    by (meson prod.exhaust)
  define s3 where "s3 = s2\<lparr>se_path := remove1 here (se_path s2)\<rparr>"
  have code: "pr_code pr = 0" and r: "summary = plugin_summary p"
    and s': "s' = emit (mk_event K_NOTE summary L_INFO None (Some name) None []) s3"
    using assms(1) h unfolding session_pytest_def Let_def here_def [symmetric] s1_def [symmetric] s3_def
    by (auto split: if_splits)
  have sink: "se_sink s1 \<noteq> None" using assms(2) by (simp add: s1_def)
  have "case_count outcome s' = case_count outcome s + dict_get (pl_outcomes p) outcome 0" for outcome
  proof -
    have "case_count outcome s1 = case_count outcome s" by (simp add: case_count_def stream_def s1_def)
    moreover have "case_count outcome s3 = case_count outcome s2" by (simp add: case_count_def stream_def s3_def)
    moreover have "no_cases s3 s'" unfolding s' by (rule no_cases_emit) simp
    ultimately show ?thesis
      using run_hooks_counts [OF h sink, of outcome] by (simp add: no_cases_def)
  qed
  with code r show ?thesis by blast
qed

definition demo_report :: "string \<Rightarrow> test_report" where
  "demo_report outcome = \<lparr> tr_nodeid = ''test_a.py::test_a'', tr_when = ''call'', tr_outcome = outcome, tr_duration = 1,
     tr_sections = [], tr_longreprtext = [], tr_crash = None, tr_reason = None \<rparr>"

theorem pytest_summary_counts_witness:
  "pr_code \<lparr> pr_hooks = [Log_start ''test_a'', Log_report (demo_report ''passed''), Log_finish], pr_code = 0 \<rparr> = 0 \<and>
   case_count ''passed'' (snd (session_pytest (\<lambda>_. None) (\<lambda>x. x) (\<lambda>_. True)
     \<lparr> pr_hooks = [Log_start ''test_a'', Log_report (demo_report ''passed''), Log_finish], pr_code = 0 \<rparr>
     ''unit'' \<lparr> ps_tests = ''/tests'', ps_args = [] \<rparr> False demo_session)) = 1"
proof -
  let ?r = "session_pytest (\<lambda>_. None) (\<lambda>x. x) (\<lambda>_. True)
     \<lparr> pr_hooks = [Log_start ''test_a'', Log_report (demo_report ''passed''), Log_finish], pr_code = 0 \<rparr>
     ''unit'' \<lparr> ps_tests = ''/tests'', ps_args = [] \<rparr> False demo_session"
  have "fst ?r = Inr ''1 passed''" "case_count ''passed'' (snd ?r) = 1" "se_sink demo_session \<noteq> None" by code_simp+
  moreover from this have "?r = (Inr ''1 passed'', snd ?r)" by (metis prod.collapse)
  ultimately show ?thesis using pytest_summary_counts [of _ _ _ _ _ _ _ demo_session] by blast
qed

section \<open>Standard output\<close>

text \<open>However captures by phases that run at once begin and end, while one is open every non-blank line
  a task prints is an event of the phase whose task printed it and nothing reaches the terminal; when
  none is open, printing reaches the terminal and makes no event.\<close>

theorem prints_attributed:
  assumes "stdout_ok s" and "se_sink s \<noteq> None"
    and "s' = fold (\<lambda>opened. if opened then capture_enter else capture_exit) captures s"
  shows "if se_captures s' > 0
    then stream (task_print phase txt s') =
           stream s' @ map (stamped s') (map (\<lambda>line. mk_event K_OUTPUT line L_INFO None phase None [])
             (filter (\<lambda>line. strip line \<noteq> []) (splitlines txt))) \<and>
         se_printed (task_print phase txt s') = se_printed s'
    else stream (task_print phase txt s') = stream s' \<and> se_printed (task_print phase txt s') = se_printed s' @ txt"
proof -
  have "stdout_ok s' \<and> se_sink s' \<noteq> None"
    unfolding assms(3)
  proof (rule fold_keeps)
    show "stdout_ok s \<and> se_sink s \<noteq> None" using assms(1,2) by simp
  next
    fix b t assume "stdout_ok t \<and> se_sink t \<noteq> None"
    then show "stdout_ok ((if b then capture_enter else capture_exit) t) \<and>
        se_sink ((if b then capture_enter else capture_exit) t) \<noteq> None"
      using stdout_ok_capture [of t] keeps_capture [of t] by (auto simp: keeps_def)
  qed
  then show ?thesis
    by (auto simp: task_print_def lines_write_def stream_emits stdout_ok_def) (simp add: stream_def)
qed

theorem prints_attributed_witness:
  "ev_phase (last (stream (task_print (Some ''build'') ''hi'' (capture_exit (capture_enter (capture_enter demo_session)))))) = Some ''build''"
proof -
  let ?s = "capture_exit (capture_enter (capture_enter demo_session))"
  have "stdout_ok demo_session" "se_sink demo_session \<noteq> None" by code_simp+
  from prints_attributed [OF this, of ?s "[True, True, False]" "Some ''build''" "''hi''"]
  have "stream (task_print (Some ''build'') ''hi'' ?s) =
      stream ?s @ map (stamped ?s) (map (\<lambda>line. mk_event K_OUTPUT line L_INFO None (Some ''build'') None [])
             (filter (\<lambda>line. strip line \<noteq> []) (splitlines ''hi'')))"
    by (simp add: capture_enter_def capture_exit_def Let_def demo_session_def new_session_def)
  moreover have "filter (\<lambda>line. strip line \<noteq> []) (splitlines ''hi'') = [''hi'']" by code_simp
  ultimately show ?thesis by simp
qed

section \<open>A stop while a phase settles\<close>

text \<open>C28: A stop that reaches a phase after its body has ended, while it waits for the guests' journals, is
  not recorded as one that reaches the body is: the phase is left in the state running, and that is the
  state the evidence of the run is then written from.\<close>

theorem stop_while_settling_unrecorded:
  assumes "fst (settle (cx_loads cx) (cx_decode cx) (rw_settle w) (Some nodes) s) = Some Cancelled"
    and "ended \<noteq> Some Cancelled" and "calm w" and "state_of (se_state s) (ph_name p) = RUNNING"
  shows "fst (run_finish cx w p nodes started ended s) = Inl Cancelled \<and>
    state_of (se_state (snd (run_finish cx w p nodes started ended s))) (ph_name p) = RUNNING"
proof -
  obtain s' where t: "settle (cx_loads cx) (cx_decode cx) (rw_settle w) (Some nodes) s = (Some Cancelled, s')"
    using assms(1) by (metis prod.collapse)
  have "keeps s s'" using t assms(3) unfolding calm_def by (rule keeps_settle)
  then have "se_state s' = se_state s" by (simp add: keeps_def)
  with t assms(2,4) show ?thesis
    by (auto simp: run_finish_def Let_def split: option.split exn.split)
qed

definition demo_stopped :: run_world where
  "demo_stopped = demo_world\<lparr>rw_settle := (rw_settle demo_world)\<lparr>sw_cancel := Some 0\<rparr>\<rparr>"

theorem stop_while_settling_unrecorded_witness:
  "state_of (se_state (snd (run_finish demo_env demo_stopped (demo_phase ''build'' [] [''one'']) [''one''] 0 None
     (run_enter (demo_phase ''build'' [] [''one'']) [''one''] demo_session)))) ''build'' = RUNNING"
proof -
  let ?s = "run_enter (demo_phase ''build'' [] [''one'']) [''one''] demo_session"
  have "fst (settle (cx_loads demo_env) (cx_decode demo_env) (rw_settle demo_stopped) (Some [''one'']) ?s) = Some Cancelled"
    "state_of (se_state ?s) (ph_name (demo_phase ''build'' [] [''one''])) = RUNNING" by code_simp+
  from stop_while_settling_unrecorded [OF this(1) _ _ this(2), of None] show ?thesis
    by (simp add: calm_def demo_stopped_def demo_world_def demo_phase_def)
qed

end
